theory Spec2Isabelle
  imports Main "HOL-Library.Multiset"
begin

section \<open>Errors and their propagation\<close>

text \<open>
  The notebooks contain no \<^verbatim>\<open>try\<close>/\<^verbatim>\<open>except\<close>: an exception raised inside a cell ends
  the cell. An operation that can raise returns \<open>error + 'a\<close>, \<open>Inl\<close> carrying the
  exception. \<open>ServiceError\<close> stands for whatever the hosted API raises (rate limit, oversize
  input, ...) and \<open>LibraryError\<close> for whatever the classification library raises; both
  carry the exception's message so that two different exceptions are different values.
  \<open>RetryError\<close> is the exception of the retrying library, which holds the exception of
  the last attempt.
\<close>

datatype error =
    KeyError
  | AttributeError
  | TypeError
  | ValueError
  | IndexError
  | FileNotFoundError
  | JSONDecodeError
  | ServiceError string
  | LibraryError string
  | RetryError error

text \<open>Sequencing of two statements: the second runs only if the first did not raise.\<close>

definition ebind :: "error + 'a \<Rightarrow> ('a \<Rightarrow> error + 'b) \<Rightarrow> error + 'b" where
  "ebind m k = (case m of Inl e \<Rightarrow> Inl e | Inr x \<Rightarrow> k x)"

text \<open>\<^verbatim>\<open>series.apply(f)\<close>: \<open>f\<close> on each element in order, stopping at the first exception.\<close>

fun mapM :: "('a \<Rightarrow> error + 'b) \<Rightarrow> 'a list \<Rightarrow> error + 'b list" where
  "mapM f [] = Inr []"
| "mapM f (x # xs) =
     (case f x of
        Inl e \<Rightarrow> Inl e
      | Inr y \<Rightarrow> (case mapM f xs of Inl e \<Rightarrow> Inl e | Inr ys \<Rightarrow> Inr (y # ys)))"

section \<open>Tables\<close>

text \<open>
  A cell of a pandas DataFrame as the notebooks use it: a missing value, an integer, a
  string, or an embedding vector. The vector type \<open>'v\<close> is the external service's; floating
  point columns are not modelled. A row maps column names to cells; a frame is the ordered
  list of its column names and the ordered list of its rows. Row labels (the index) are not
  modelled.
\<close>

datatype 'v cell = NaN | Num int | Str string | Vec 'v

type_synonym 'v row = "string \<Rightarrow> 'v cell option"

record 'v frame =
  cols :: "string list"
  rws :: "'v row list"

text \<open>A cell that a row does not hold reads as missing.\<close>

definition cell_at :: "'v row \<Rightarrow> string \<Rightarrow> 'v cell" where
  "cell_at r c = (case r c of None \<Rightarrow> NaN | Some v \<Rightarrow> v)"

text \<open>\<^verbatim>\<open>df.c\<close> raises AttributeError and \<^verbatim>\<open>df['c']\<close> raises KeyError when there is no
  column \<open>c\<close>.\<close>

definition getattr :: "string \<Rightarrow> 'v frame \<Rightarrow> error + 'v cell list" where
  "getattr c f =
     (if c \<in> set (cols f) then Inr (map (\<lambda>r. cell_at r c) (rws f)) else Inl AttributeError)"

definition getitem :: "string \<Rightarrow> 'v frame \<Rightarrow> error + 'v cell list" where
  "getitem c f =
     (if c \<in> set (cols f) then Inr (map (\<lambda>r. cell_at r c) (rws f)) else Inl KeyError)"

text \<open>\<^verbatim>\<open>df[[c1, ..., cn]]\<close>: the listed columns, in the listed order.\<close>

definition select_columns :: "string list \<Rightarrow> 'v frame \<Rightarrow> error + 'v frame" where
  "select_columns cs f =
     (if set cs \<subseteq> set (cols f)
      then Inr \<lparr>cols = cs, rws = map (\<lambda>r. r |` set cs) (rws f)\<rparr>
      else Inl KeyError)"

text \<open>\<^verbatim>\<open>df.dropna()\<close>: the rows with no missing value in any column.\<close>

definition dropna :: "'v frame \<Rightarrow> 'v frame" where
  "dropna f = f\<lparr>rws := filter (\<lambda>r. list_all (\<lambda>c. cell_at r c \<noteq> NaN) (cols f)) (rws f)\<rparr>"

text \<open>\<^verbatim>\<open>df[c] = values\<close>: an existing column keeps its place, a new one goes last.\<close>

definition with_column :: "string \<Rightarrow> string list \<Rightarrow> string list" where
  "with_column c cs = (if c \<in> set cs then cs else cs @ [c])"

definition assign :: "string \<Rightarrow> 'v cell list \<Rightarrow> 'v frame \<Rightarrow> 'v frame" where
  "assign c vs f =
     \<lparr>cols = with_column c (cols f),
      rws = map (\<lambda>p. (fst p)(c \<mapsto> snd p)) (zip (rws f) vs)\<rparr>"

text \<open>\<^verbatim>\<open>df.drop(c, axis=1)\<close>.\<close>

definition drop_column :: "string \<Rightarrow> 'v frame \<Rightarrow> error + 'v frame" where
  "drop_column c f =
     (if c \<in> set (cols f)
      then Inr \<lparr>cols = filter (\<lambda>d. d \<noteq> c) (cols f), rws = map (\<lambda>r. r(c := None)) (rws f)\<rparr>
      else Inl KeyError)"

text \<open>\<^verbatim>\<open>.tail(n)\<close>: the last \<open>n\<close> elements, all of them when there are fewer.\<close>

definition tail :: "nat \<Rightarrow> 'a list \<Rightarrow> 'a list" where
  "tail n xs = drop (length xs - n) xs"

definition tail_rows :: "nat \<Rightarrow> 'v frame \<Rightarrow> 'v frame" where
  "tail_rows n f = f\<lparr>rws := tail n (rws f)\<rparr>"

text \<open>\<^verbatim>\<open>df[mask]\<close> with a boolean series: the rows whose flag is set.\<close>

definition mask :: "bool list \<Rightarrow> 'v frame \<Rightarrow> 'v frame" where
  "mask bs f = f\<lparr>rws := map snd (filter fst (zip bs (rws f)))\<rparr>"

text \<open>\<^verbatim>\<open>series <= n\<close>, elementwise; a missing value compares false.\<close>

fun le_cell :: "'v cell \<Rightarrow> int \<Rightarrow> bool" where
  "le_cell (Num k) n = (k \<le> n)"
| "le_cell _ n = False"

text \<open>
  \<^verbatim>\<open>df.sort_values(c)\<close> for a numeric column: ascending, missing values last. pandas
  sorts with an unstable algorithm by default, so the order among rows of equal key is the
  library's choice: the sorting routine \<open>srt\<close> is a parameter, given the key to sort by.
  A string in the column is outside what is modelled and reported as TypeError.
\<close>

fun num_key :: "string \<Rightarrow> 'v row \<Rightarrow> int" where
  "num_key c r = (case cell_at r c of Num k \<Rightarrow> k | _ \<Rightarrow> 0)"

fun sortable :: "'v cell \<Rightarrow> bool" where
  "sortable (Num k) = True"
| "sortable NaN = True"
| "sortable _ = False"

definition sort_values ::
  "(('v row \<Rightarrow> int) \<Rightarrow> 'v row list \<Rightarrow> 'v row list) \<Rightarrow> string \<Rightarrow> 'v frame \<Rightarrow> error + 'v frame"
where
  "sort_values srt c f =
     (if c \<notin> set (cols f) then Inl KeyError
      else if \<not> list_all (\<lambda>r. sortable (cell_at r c)) (rws f) then Inl TypeError
      else Inr (f\<lparr>rws := srt (num_key c) (filter (\<lambda>r. cell_at r c \<noteq> NaN) (rws f))
                        @ filter (\<lambda>r. cell_at r c = NaN) (rws f)\<rparr>))"

section \<open>Strings\<close>

text \<open>
  A string is the UTF-8 encoding of the Python string, so a character outside ASCII is two
  or three bytes. \<^verbatim>\<open>str.strip()\<close> removes leading and trailing whitespace: the
  characters for which Python's \<^verbatim>\<open>str.isspace\<close> holds, which are U+0009 to U+000D,
  U+001C to U+0020, U+0085, U+00A0, U+1680, U+2000 to U+200A, U+2028, U+2029, U+202F,
  U+205F and U+3000. \<open>whitespace\<close> lists their encodings. No encoding of a character ends
  with the whole encoding of another, so removing these byte sequences from the end removes
  exactly the trailing whitespace characters.
\<close>

definition whitespace :: "string list" where
  "whitespace =
     [[CHR 0x09], [CHR 0x0A], [CHR 0x0B], [CHR 0x0C], [CHR 0x0D],
      [CHR 0x1C], [CHR 0x1D], [CHR 0x1E], [CHR 0x1F], [CHR 0x20],
      [CHR 0xC2, CHR 0x85], [CHR 0xC2, CHR 0xA0], [CHR 0xE1, CHR 0x9A, CHR 0x80],
      [CHR 0xE2, CHR 0x80, CHR 0x80], [CHR 0xE2, CHR 0x80, CHR 0x81],
      [CHR 0xE2, CHR 0x80, CHR 0x82], [CHR 0xE2, CHR 0x80, CHR 0x83],
      [CHR 0xE2, CHR 0x80, CHR 0x84], [CHR 0xE2, CHR 0x80, CHR 0x85],
      [CHR 0xE2, CHR 0x80, CHR 0x86], [CHR 0xE2, CHR 0x80, CHR 0x87],
      [CHR 0xE2, CHR 0x80, CHR 0x88], [CHR 0xE2, CHR 0x80, CHR 0x89],
      [CHR 0xE2, CHR 0x80, CHR 0x8A], [CHR 0xE2, CHR 0x80, CHR 0xA8],
      [CHR 0xE2, CHR 0x80, CHR 0xA9], [CHR 0xE2, CHR 0x80, CHR 0xAF],
      [CHR 0xE2, CHR 0x81, CHR 0x9F], [CHR 0xE3, CHR 0x80, CHR 0x80]]"

text \<open>\<open>drop_leading ws s\<close> removes from the front of \<open>s\<close> every leading member of \<open>ws\<close>.\<close>

function drop_leading :: "string list \<Rightarrow> string \<Rightarrow> string" where
  "drop_leading ws s =
     (case find (\<lambda>w. w \<noteq> [] \<and> take (length w) s = w) ws of
        None \<Rightarrow> s
      | Some w \<Rightarrow> drop_leading ws (drop (length w) s))"
  by pat_completeness auto
termination
proof (relation "measure (\<lambda>(ws, s). length s)")
  show "wf (measure (\<lambda>(ws, s). length s))" by simp
next
  fix ws :: "string list" and s w :: string
  assume "find (\<lambda>w. w \<noteq> [] \<and> take (length w) s = w) ws = Some w"
  then have w: "w \<noteq> []" and t: "take (length w) s = w"
    by (auto simp: find_Some_iff)
  from arg_cong [OF t, of length] have "min (length s) (length w) = length w"
    by simp
  then have "length w \<le> length s" by simp
  with w show "((ws, drop (length w) s), (ws, s)) \<in> measure (\<lambda>(ws, s). length s)"
    by (cases w) simp_all
qed

declare drop_leading.simps [simp del]

definition lstrip :: "string \<Rightarrow> string" where
  "lstrip s = drop_leading whitespace s"

definition rstrip :: "string \<Rightarrow> string" where
  "rstrip s = rev (drop_leading (map rev whitespace) (rev s))"

definition strip :: "string \<Rightarrow> string" where
  "strip s = rstrip (lstrip s)"

text \<open>
  \<^verbatim>\<open>s.replace(old, new)\<close>: every occurrence of \<open>old\<close> in \<open>s\<close>, found from the left and not
  overlapping, is replaced by \<open>new\<close>. With an empty \<open>old\<close> Python puts \<open>new\<close> before every
  character and at the end.
\<close>

function replace :: "string \<Rightarrow> string \<Rightarrow> string \<Rightarrow> string" where
  "replace old new [] = (if old = [] then new else [])"
| "replace old new (c # cs) =
     (if old = [] then new @ c # replace old new cs
      else if take (length old) (c # cs) = old
        then new @ replace old new (drop (length old) (c # cs))
      else c # replace old new cs)"
  by pat_completeness auto
termination
  by (relation "measure (\<lambda>(old, new, s). length s)") auto

declare replace.simps [simp del]

definition newline :: char where
  "newline = CHR 0x0A"

text \<open>
  \<^verbatim>\<open>series.str.strip()\<close>: on a text column (strings and missing values) each string is
  stripped and a missing value stays missing; on any other column the \<^verbatim>\<open>.str\<close> accessor
  raises AttributeError. A column of missing values only counts as a text column here. A
  text series is a list of optional strings.
\<close>

fun text_cell :: "'v cell \<Rightarrow> bool" where
  "text_cell (Str s) = True"
| "text_cell NaN = True"
| "text_cell _ = False"

fun strip_cell :: "'v cell \<Rightarrow> string option" where
  "strip_cell (Str s) = Some (strip s)"
| "strip_cell _ = None"

definition str_strip :: "'v cell list \<Rightarrow> error + string option list" where
  "str_strip cs =
     (if list_all text_cell cs then Inr (map strip_cell cs) else Inl AttributeError)"

text \<open>\<^verbatim>\<open>"prefix" + series\<close>, \<^verbatim>\<open>series + "suffix"\<close> and \<^verbatim>\<open>series + series\<close> on text
  series: concatenation, missing where an operand is missing.\<close>

definition str_radd :: "string \<Rightarrow> string option list \<Rightarrow> string option list" where
  "str_radd p xs = map (map_option (\<lambda>s. p @ s)) xs"

definition str_add :: "string option list \<Rightarrow> string \<Rightarrow> string option list" where
  "str_add xs q = map (map_option (\<lambda>s. s @ q)) xs"

fun cat_opt :: "string option \<Rightarrow> string option \<Rightarrow> string option" where
  "cat_opt (Some s) (Some t) = Some (s @ t)"
| "cat_opt _ _ = None"

definition series_add :: "string option list \<Rightarrow> string option list \<Rightarrow> string option list" where
  "series_add xs ys = map (\<lambda>(x, y). cat_opt x y) (zip xs ys)"

fun to_cell :: "string option \<Rightarrow> 'v cell" where
  "to_cell None = NaN"
| "to_cell (Some s) = Str s"

section \<open>The reviews notebook: loading\<close>

text \<open>
  \<^verbatim>\<open>df = df[["Time", "ProductId", "UserId", "Score", "Summary", "Text"]]
  df = df.dropna()
  df["combined"] = (
      "Title: " + df.Summary.str.strip() + "; Content: " + df.Text.str.strip()
  )\<close>
\<close>

definition review_columns :: "string list" where
  "review_columns = [''Time'', ''ProductId'', ''UserId'', ''Score'', ''Summary'', ''Text'']"

definition load_dataset :: "'v frame \<Rightarrow> error + 'v frame" where
  "load_dataset df0 =
     ebind (select_columns review_columns df0) (\<lambda>df1.
     let df = dropna df1 in
     ebind (getattr ''Summary'' df) (\<lambda>summary.
     ebind (str_strip summary) (\<lambda>summary.
     ebind (getattr ''Text'' df) (\<lambda>content.
     ebind (str_strip content) (\<lambda>content.
     Inr (assign ''combined''
            (map to_cell
               (series_add (str_add (str_radd ''Title: '' summary) ''; Content: '') content))
            df))))))"

section \<open>The reviews notebook: subsampling\<close>

text \<open>
  \<^verbatim>\<open>max_tokens = 8000
  top_n = 1000
  df = df.sort_values("Time").tail(top_n * 2)
  df.drop("Time", axis=1, inplace=True)
  encoding = tiktoken.get_encoding(embedding_encoding)
  df["n_tokens"] = df.combined.apply(lambda x: len(encoding.encode(x)))
  df = df[df.n_tokens <= max_tokens].tail(top_n)\<close>

  The tokenizer is the external library's: \<open>encode\<close> is a parameter, and it may raise
  (tiktoken does on text holding a special token). Given anything but a string it raises
  TypeError.
\<close>

definition max_tokens :: int where
  "max_tokens = 8000"

definition top_n :: nat where
  "top_n = 1000"

fun count_tokens :: "(string \<Rightarrow> error + 't list) \<Rightarrow> 'v cell \<Rightarrow> error + int" where
  "count_tokens encode (Str s) =
     (case encode s of Inl e \<Rightarrow> Inl e | Inr toks \<Rightarrow> Inr (int (length toks)))"
| "count_tokens encode _ = Inl TypeError"

definition subsample ::
  "(('v row \<Rightarrow> int) \<Rightarrow> 'v row list \<Rightarrow> 'v row list) \<Rightarrow> (string \<Rightarrow> error + 't list)
     \<Rightarrow> 'v frame \<Rightarrow> error + 'v frame"
where
  "subsample srt encode df0 =
     ebind (sort_values srt ''Time'' df0) (\<lambda>by_time.
     let df1 = tail_rows (top_n * 2) by_time in
     ebind (drop_column ''Time'' df1) (\<lambda>df2.
     ebind (getattr ''combined'' df2) (\<lambda>combined.
     ebind (mapM (count_tokens encode) combined) (\<lambda>ns.
     let df3 = assign ''n_tokens'' (map Num ns) df2 in
     ebind (getattr ''n_tokens'' df3) (\<lambda>n_tokens.
     Inr (tail_rows top_n (mask (map (\<lambda>c. le_cell c max_tokens) n_tokens) df3)))))))"

section \<open>Vocabulary for the subsampling step\<close>

text \<open>
  What the subsampling step computes for a row: its token count (0 stands in where the
  tokenizer raised, in which case the step raised too), whether it is within the limit, and
  the row as the step leaves it, without \<open>Time\<close> and with \<open>n_tokens\<close>. \<open>sorted_rows\<close> are
  the rows after \<^verbatim>\<open>sort_values("Time")\<close>, \<open>most_recent\<close> the \<open>2 * top_n\<close> last of them
  and \<open>older\<close> the rows before those. The example tokenizer \<open>toy_encode\<close> yields one token
  per character and 9000 tokens for the character \<open>#\<close>.
\<close>

definition n_tokens_of :: "(string \<Rightarrow> error + 't list) \<Rightarrow> 'v row \<Rightarrow> int" where
  "n_tokens_of encode r =
     (case count_tokens encode (cell_at r ''combined'') of Inl e \<Rightarrow> 0 | Inr n \<Rightarrow> n)"

definition fits :: "(string \<Rightarrow> error + 't list) \<Rightarrow> 'v row \<Rightarrow> bool" where
  "fits encode r \<longleftrightarrow> n_tokens_of encode r \<le> max_tokens"

definition tokenised :: "(string \<Rightarrow> error + 't list) \<Rightarrow> 'v row \<Rightarrow> 'v row" where
  "tokenised encode r = (r(''Time'' := None))(''n_tokens'' \<mapsto> Num (n_tokens_of encode r))"

definition sorted_rows ::
  "(('v row \<Rightarrow> int) \<Rightarrow> 'v row list \<Rightarrow> 'v row list) \<Rightarrow> 'v frame \<Rightarrow> 'v row list" where
  "sorted_rows srt df = (case sort_values srt ''Time'' df of Inl e \<Rightarrow> [] | Inr s \<Rightarrow> rws s)"

definition most_recent ::
  "(('v row \<Rightarrow> int) \<Rightarrow> 'v row list \<Rightarrow> 'v row list) \<Rightarrow> 'v frame \<Rightarrow> 'v row list" where
  "most_recent srt df = tail (top_n * 2) (sorted_rows srt df)"

definition older ::
  "(('v row \<Rightarrow> int) \<Rightarrow> 'v row list \<Rightarrow> 'v row list) \<Rightarrow> 'v frame \<Rightarrow> 'v row list" where
  "older srt df = take (length (sorted_rows srt df) - top_n * 2) (sorted_rows srt df)"

definition toy_encode :: "string \<Rightarrow> error + char list" where
  "toy_encode s = Inr (concat (map (\<lambda>ch. if ch = CHR ''#'' then replicate 9000 ch else [ch]) s))"

definition loaded_row :: "int \<Rightarrow> string \<Rightarrow> int list row" where
  "loaded_row t s = map_of [(''Time'', Num t), (''combined'', Str s)]"

definition small_reviews :: "int list frame" where
  "small_reviews = \<lparr>cols = [''Time'', ''combined''],
     rws = [loaded_row 30 ''Title: Good; Content: tasty'',
            loaded_row 10 ''Title: Long; Content: #'',
            loaded_row 20 ''Title: Bad; Content: stale'']\<rparr>"

definition big_reviews :: "int list frame" where
  "big_reviews = \<lparr>cols = [''Time'', ''combined''],
     rws = replicate 1000 (loaded_row 1 ''old'') @ replicate 1001 (loaded_row 2 ''#'')
           @ replicate 999 (loaded_row 3 ''new'')\<rparr>"

section \<open>Vocabulary for the loading step\<close>

text \<open>
  A row is complete when none of the six selected columns is missing in it. \<open>review_text\<close>
  is the combined text of a row as the loading step computes it, and \<open>with_combined\<close> the
  row with that text stored.
\<close>

definition complete :: "'v row \<Rightarrow> bool" where
  "complete r = list_all (\<lambda>c. cell_at r c \<noteq> NaN) review_columns"

definition review_text :: "'v row \<Rightarrow> 'v cell" where
  "review_text r =
     to_cell
       (cat_opt
          (map_option (\<lambda>s. (''Title: '' @ s) @ ''; Content: '') (strip_cell (cell_at r ''Summary'')))
          (strip_cell (cell_at r ''Text'')))"

definition with_combined :: "'v row \<Rightarrow> 'v row" where
  "with_combined r = r(''combined'' \<mapsto> review_text r)"

section \<open>Text of numbers and cells\<close>

text \<open>Python's \<^verbatim>\<open>str\<close> of an integer: decimal digits, a minus sign when negative.\<close>

definition digit_char :: "nat \<Rightarrow> char" where
  "digit_char d = ''0123456789'' ! d"

fun str_nat :: "nat \<Rightarrow> string" where
  "str_nat n = (if n < 10 then [digit_char n] else str_nat (n div 10) @ [digit_char (n mod 10)])"

declare str_nat.simps [simp del]

definition str_int :: "int \<Rightarrow> string" where
  "str_int i = (if i < 0 then CHR ''-'' # str_nat (nat (- i)) else str_nat (nat i))"

text \<open>
  \<^verbatim>\<open>str(x)\<close> of a cell; \<open>repr\<close> is the text of a vector, the external library's. In a
  CSV file a missing value is written as the empty field.
\<close>

fun str_cell :: "('v \<Rightarrow> string) \<Rightarrow> 'v cell \<Rightarrow> string" where
  "str_cell repr NaN = ''nan''"
| "str_cell repr (Num n) = str_int n"
| "str_cell repr (Str s) = s"
| "str_cell repr (Vec v) = repr v"

fun csv_text :: "('v \<Rightarrow> string) \<Rightarrow> 'v cell \<Rightarrow> string" where
  "csv_text repr NaN = []"
| "csv_text repr c = str_cell repr c"

text \<open>
  \<^verbatim>\<open>df.to_csv(path)\<close> writes the header and one line of cell texts per row. The file is
  kept as that table of texts. Quoting is not modelled, and neither is the unnamed first
  column in which pandas writes the row labels.
\<close>

type_synonym csv = "string list \<times> string list list"

definition to_csv :: "('v \<Rightarrow> string) \<Rightarrow> 'v frame \<Rightarrow> csv" where
  "to_csv repr f = (cols f, map (\<lambda>r. map (\<lambda>c. csv_text repr (cell_at r c)) (cols f)) (rws f))"

section \<open>The reviews notebook: embedding and saving\<close>

text \<open>
  \<^verbatim>\<open>df["embedding"] = df.combined.apply(lambda x: get_embedding(x, engine=embedding_model))
  df.to_csv("data/fine_food_reviews_with_embeddings_1k.csv")\<close>

  \<^verbatim>\<open>get_embedding\<close> is the library's (\<^verbatim>\<open>openai.embeddings_utils\<close>):

  \<^verbatim>\<open>@retry(wait=wait_random_exponential(min=1, max=20), stop=stop_after_attempt(6))
  def get_embedding(text, engine="text-similarity-davinci-001"):
      text = text.replace("\n", " ")
      return openai.Embedding.create(input=[text], engine=engine)["data"][0]["embedding"]\<close>

  What the hosted service answers is not the notebook's to decide: the service is a
  parameter that sees the requests made so far, the text and the model name, and answers
  with a vector or raises. The world outside the notebook is the list of requests that
  reached the service, oldest first, and the files on disk.
\<close>

type_synonym call = "string \<times> string"

type_synonym 'v embedder = "call list \<Rightarrow> string \<Rightarrow> string \<Rightarrow> error + 'v"

record world =
  calls :: "call list"
  files :: "string \<Rightarrow> csv option"

definition embedding_model :: string where
  "embedding_model = ''text-embedding-ada-002''"

definition output_datapath :: string where
  "output_datapath = ''data/fine_food_reviews_with_embeddings_1k.csv''"

text \<open>
  One run of the body of \<^verbatim>\<open>get_embedding\<close>: the line feeds of the text become spaces
  and the service is asked once. Given anything but a string, \<^verbatim>\<open>text.replace\<close> raises
  AttributeError and the service is not asked.
\<close>

fun attempt ::
  "'v embedder \<Rightarrow> string \<Rightarrow> call list \<Rightarrow> 'v cell \<Rightarrow> (error + 'v) \<times> call list"
where
  "attempt api engine log (Str s) =
     (let t = replace [newline] '' '' s in (api log t engine, log @ [(t, engine)]))"
| "attempt api engine log c = (Inl AttributeError, log)"

text \<open>
  The decorator: an attempt that raises is made again, whatever it raised, until one
  returns or six have raised; then RetryError is raised, holding the last exception.
  \<open>retry n\<close> makes one attempt and up to \<open>n\<close> more. The waiting between attempts is not
  modelled.
\<close>

fun retry ::
  "nat \<Rightarrow> (call list \<Rightarrow> (error + 'v) \<times> call list) \<Rightarrow> call list \<Rightarrow> (error + 'v) \<times> call list"
where
  "retry 0 f log =
     (case f log of (Inl e, log') \<Rightarrow> (Inl (RetryError e), log') | (Inr v, log') \<Rightarrow> (Inr v, log'))"
| "retry (Suc n) f log =
     (case f log of (Inl e, log') \<Rightarrow> retry n f log' | (Inr v, log') \<Rightarrow> (Inr v, log'))"

definition get_embedding ::
  "'v embedder \<Rightarrow> string \<Rightarrow> call list \<Rightarrow> 'v cell \<Rightarrow> (error + 'v) \<times> call list"
where
  "get_embedding api engine log c = retry 5 (\<lambda>l. attempt api engine l c) log"

text \<open>
  The \<^verbatim>\<open>apply\<close> over the combined column: \<^verbatim>\<open>get_embedding\<close> for each row, in row
  order, ending at the first exception.
\<close>

fun embed_all ::
  "'v embedder \<Rightarrow> string \<Rightarrow> call list \<Rightarrow> 'v cell list \<Rightarrow> (error + 'v list) \<times> call list"
where
  "embed_all api engine log [] = (Inr [], log)"
| "embed_all api engine log (c # cs) =
     (case get_embedding api engine log c of
        (Inl e, log') \<Rightarrow> (Inl e, log')
      | (Inr v, log') \<Rightarrow>
          (case embed_all api engine log' cs of
             (Inl e, log'') \<Rightarrow> (Inl e, log'')
           | (Inr vs, log'') \<Rightarrow> (Inr (v # vs), log'')))"

definition get_embeddings ::
  "'v embedder \<Rightarrow> ('v \<Rightarrow> string) \<Rightarrow> 'v frame \<Rightarrow> world \<Rightarrow> (error + 'v frame) \<times> world"
where
  "get_embeddings api repr df w =
     (case getattr ''combined'' df of
        Inl e \<Rightarrow> (Inl e, w)
      | Inr combined \<Rightarrow>
          (case embed_all api embedding_model (calls w) combined of
             (Inl e, log) \<Rightarrow> (Inl e, w\<lparr>calls := log\<rparr>)
           | (Inr vs, log) \<Rightarrow>
               (let df' = assign ''embedding'' (map Vec vs) df
                in (Inr df', \<lparr>calls = log, files = (files w)(output_datapath \<mapsto> to_csv repr df')\<rparr>))))"

text \<open>The notebook from the loaded table to the saved file.\<close>

definition obtain_dataset ::
  "(('v row \<Rightarrow> int) \<Rightarrow> 'v row list \<Rightarrow> 'v row list) \<Rightarrow> (string \<Rightarrow> error + 't list)
     \<Rightarrow> 'v embedder \<Rightarrow> ('v \<Rightarrow> string) \<Rightarrow> 'v frame \<Rightarrow> world \<Rightarrow> (error + 'v frame) \<times> world"
where
  "obtain_dataset srt encode api repr df0 w =
     (case ebind (load_dataset df0) (subsample srt encode) of
        Inl e \<Rightarrow> (Inl e, w)
      | Inr df \<Rightarrow> get_embeddings api repr df w)"

section \<open>The transactions notebook: the combined field\<close>

text \<open>
  \<^verbatim>\<open>df['combined'] = "Supplier: " + df['Supplier'].str.strip()
      + "; Description: " + df['Description'].str.strip()
      + "; Value: " + str(df['Transaction value (\<pounds>)']).strip()\<close>

  The last operand is Python's \<^verbatim>\<open>str\<close> applied to the whole column, one string for the
  table, stripped by \<^verbatim>\<open>str.strip\<close>. How pandas prints a column is the library's:
  \<open>series_str\<close> is a parameter. The pound sign in the column's name is its two UTF-8 bytes.
\<close>

definition value_column :: string where
  "value_column = ''Transaction value ('' @ [CHR 0xC2, CHR 0xA3] @ '')''"

definition combine_transactions :: "('v cell list \<Rightarrow> string) \<Rightarrow> 'v frame \<Rightarrow> error + 'v frame" where
  "combine_transactions series_str df =
     ebind (getitem ''Supplier'' df) (\<lambda>supplier.
     ebind (str_strip supplier) (\<lambda>supplier.
     ebind (getitem ''Description'' df) (\<lambda>description.
     ebind (str_strip description) (\<lambda>description.
     ebind (getitem value_column df) (\<lambda>val.
     Inr (assign ''combined''
            (map to_cell
               (str_add
                  (str_add
                     (series_add
                        (str_add (str_radd ''Supplier: '' supplier) ''; Description: '')
                        description)
                     ''; Value: '')
                  (strip (series_str val))))
            df))))))"

text \<open>
  The combined field as the specification words it, for one row: the value part is the
  string of that row's own transaction value.
\<close>

definition spec_transaction_text :: "('v \<Rightarrow> string) \<Rightarrow> 'v row \<Rightarrow> 'v cell" where
  "spec_transaction_text repr r =
     to_cell
       (cat_opt
          (cat_opt
             (map_option (\<lambda>s. ''Supplier: '' @ s) (strip_cell (cell_at r ''Supplier'')))
             (map_option (\<lambda>s. ''; Description: '' @ s) (strip_cell (cell_at r ''Description''))))
          (Some (''; Value: '' @ str_cell repr (cell_at r value_column))))"

text \<open>Two transactions with the same supplier and description and different values.\<close>

definition example_transaction :: "string \<Rightarrow> string \<Rightarrow> int \<Rightarrow> int list row" where
  "example_transaction s d v = map_of [(''Supplier'', Str s), (''Description'', Str d), (value_column, Num v)]"

definition two_transactions :: "int list frame" where
  "two_transactions =
     \<lparr>cols = [''Supplier'', ''Description'', value_column],
      rws = [example_transaction ''ACME Ltd '' ''Books'' 100,
             example_transaction ''ACME Ltd '' ''Books'' 200]\<rparr>"

section \<open>The transactions notebook: embeddings\<close>

text \<open>
  \<^verbatim>\<open>embedding_path = './data/transactions_with_embeddings_100.csv'
  df['babbage_similarity'] = df.combined.apply(
      lambda x: get_embedding(x, engine='text-similarity-babbage-001'))
  df['babbage_search'] = df.combined.apply(
      lambda x: get_embedding(x, engine='text-search-babbage-doc-001'))
  df.to_csv(embedding_path)\<close>
\<close>

definition embedding_path :: string where
  "embedding_path = ''./data/transactions_with_embeddings_100.csv''"

definition embed_transactions ::
  "'v embedder \<Rightarrow> ('v \<Rightarrow> string) \<Rightarrow> 'v frame \<Rightarrow> world \<Rightarrow> (error + 'v frame) \<times> world"
where
  "embed_transactions api repr df w =
     (case getattr ''combined'' df of
        Inl e \<Rightarrow> (Inl e, w)
      | Inr combined \<Rightarrow>
          (case embed_all api ''text-similarity-babbage-001'' (calls w) combined of
             (Inl e, log) \<Rightarrow> (Inl e, w\<lparr>calls := log\<rparr>)
           | (Inr vs, log) \<Rightarrow>
               (let df1 = assign ''babbage_similarity'' (map Vec vs) df in
                case getattr ''combined'' df1 of
                  Inl e \<Rightarrow> (Inl e, w\<lparr>calls := log\<rparr>)
                | Inr combined1 \<Rightarrow>
                    (case embed_all api ''text-search-babbage-doc-001'' log combined1 of
                       (Inl e, log') \<Rightarrow> (Inl e, w\<lparr>calls := log'\<rparr>)
                     | (Inr vs', log') \<Rightarrow>
                         (let df2 = assign ''babbage_search'' (map Vec vs') df1
                          in (Inr df2,
                              \<lparr>calls = log',
                               files = (files w)(embedding_path \<mapsto> to_csv repr df2)\<rparr>))))))"

section \<open>Vocabulary and examples for the embedding step\<close>

text \<open>
  The request the embedding step sends for a text: the text with its line feeds replaced
  by spaces, and the model name. \<open>text_of\<close> is the text of a cell and \<open>combined_of\<close> the
  column of combined texts of a table.
\<close>

fun text_of :: "'v cell \<Rightarrow> string" where
  "text_of (Str s) = s"
| "text_of _ = []"

definition sent :: "string \<Rightarrow> string" where
  "sent s = replace [newline] '' '' s"

definition request :: "string \<Rightarrow> string \<Rightarrow> call" where
  "request engine s = (sent s, engine)"

definition combined_of :: "'v frame \<Rightarrow> 'v cell list" where
  "combined_of df = map (\<lambda>r. cell_at r ''combined'') (rws df)"

text \<open>
  The requests of one pass over the cells \<open>cs\<close> in which the request for the \<open>i\<close>-th cell
  raised \<open>ks ! i\<close> times before it was answered: each cell's request, sent \<open>ks ! i + 1\<close>
  times, in row order.
\<close>

definition requests :: "string \<Rightarrow> 'v cell list \<Rightarrow> nat list \<Rightarrow> call list" where
  "requests engine cs ks =
     concat (map (\<lambda>p. replicate (Suc (snd p)) (request engine (text_of (fst p)))) (zip cs ks))"

text \<open>
  \<open>answered\<close>: the request for the text \<open>s\<close>, first sent when the service had seen \<open>log\<close>,
  raised \<open>k\<close> times and was then answered with \<open>v\<close>. \<open>exhausted\<close>: it raised six times,
  the last time with \<open>e\<close>.
\<close>

definition raised :: "'v embedder \<Rightarrow> string \<Rightarrow> call list \<Rightarrow> string \<Rightarrow> nat \<Rightarrow> bool" where
  "raised api engine log s k =
     list_all (\<lambda>j. isl (api (log @ replicate j (request engine s)) (sent s) engine)) [0..<k]"

definition answered ::
  "'v embedder \<Rightarrow> string \<Rightarrow> call list \<Rightarrow> string \<Rightarrow> nat \<Rightarrow> 'v \<Rightarrow> bool"
where
  "answered api engine log s k v \<longleftrightarrow>
     raised api engine log s k \<and>
     api (log @ replicate k (request engine s)) (sent s) engine = Inr v"

definition exhausted :: "'v embedder \<Rightarrow> string \<Rightarrow> call list \<Rightarrow> string \<Rightarrow> error \<Rightarrow> bool" where
  "exhausted api engine log s e \<longleftrightarrow>
     raised api engine log s 5 \<and>
     api (log @ replicate 5 (request engine s)) (sent s) engine = Inl e"

text \<open>
  Two reviews as read from the input file, with a column \<open>Id\<close> the notebook does not
  select. The example service \<open>drifting_service\<close> answers with a vector that depends on how
  many calls it has served, as a service whose model is not idempotent may; \<open>toy_repr\<close>
  prints a vector. In \<open>empty_world\<close> no call has been made and no file exists.
\<close>

definition review_row :: "int \<Rightarrow> string \<Rightarrow> string \<Rightarrow> int list row" where
  "review_row t s x = map_of
     [(''Id'', Num 7), (''Time'', Num t), (''ProductId'', Str ''P1''), (''UserId'', Str ''U1''),
      (''Score'', Num 5), (''Summary'', Str s), (''Text'', Str x)]"

definition example_reviews :: "int list frame" where
  "example_reviews =
     \<lparr>cols = [''Id'', ''Time'', ''ProductId'', ''UserId'', ''Score'', ''Summary'', ''Text''],
      rws = [review_row 20 '' Good '' ''tasty'', review_row 10 ''Bad'' '' stale'']\<rparr>"

definition drifting_service :: "int list embedder" where
  "drifting_service log s engine = Inr [int (length log)]"

text \<open>
  \<open>flaky_service\<close> raises on every other request, starting with the first, as a service
  that is briefly overloaded does; \<open>down_service\<close> raises on every request.
\<close>

definition flaky_service :: "int list embedder" where
  "flaky_service log s engine =
     (if even (length log) then Inl (ServiceError ''Rate limit reached'')
      else Inr [int (length log)])"

definition down_service :: "int list embedder" where
  "down_service log s engine = Inl (ServiceError ''Service unavailable'')"

definition toy_repr :: "int list \<Rightarrow> string" where
  "toy_repr v = ''['' @ concat (map str_int v) @ '']''"

definition empty_world :: world where
  "empty_world = \<lparr>calls = [], files = (\<lambda>p. None)\<rparr>"

text \<open>One loaded review, and the embedding step run on it twice in a row.\<close>

definition one_review :: "int list frame" where
  "one_review =
     \<lparr>cols = [''combined''], rws = [map_of [(''combined'', Str ''Title: Good; Content: tasty'')]]\<rparr>"

definition first_run :: "(error + int list frame) \<times> world" where
  "first_run = get_embeddings drifting_service toy_repr one_review empty_world"

definition second_run :: "(error + int list frame) \<times> world" where
  "second_run = get_embeddings drifting_service toy_repr one_review (snd first_run)"

text \<open>
  Two loaded reviews, the first with a line feed in its text, and the embedding step run
  on them with the service that raises on every other request.
\<close>

definition line_reviews :: "int list frame" where
  "line_reviews =
     \<lparr>cols = [''combined''],
      rws = [map_of [(''combined'', Str (''Title: A; Content: a'' @ [newline] @ ''b''))],
             map_of [(''combined'', Str ''Title: B; Content: c'')]]\<rparr>"

definition flaky_run :: "(error + int list frame) \<times> world" where
  "flaky_run = get_embeddings flaky_service toy_repr line_reviews empty_world"

text \<open>
  The saved file of the reviews notebook: its header; the rows the subsampling step keeps
  of a loaded table, in file order; and the line written for a kept row and its vector.
\<close>

definition saved_header :: "string list" where
  "saved_header = [''ProductId'', ''UserId'', ''Score'', ''Summary'', ''Text'',
                   ''combined'', ''n_tokens'', ''embedding'']"

definition saved_rows ::
  "(('v row \<Rightarrow> int) \<Rightarrow> 'v row list \<Rightarrow> 'v row list) \<Rightarrow> (string \<Rightarrow> error + 't list)
     \<Rightarrow> 'v frame \<Rightarrow> 'v row list"
where
  "saved_rows srt encode df = tail top_n (filter (fits encode) (most_recent srt df))"

definition saved_line ::
  "('v \<Rightarrow> string) \<Rightarrow> (string \<Rightarrow> error + 't list) \<Rightarrow> 'v row \<Rightarrow> 'v \<Rightarrow> string list"
where
  "saved_line repr encode r v =
     map (csv_text repr)
       [cell_at r ''ProductId'', cell_at r ''UserId'', cell_at r ''Score'', cell_at r ''Summary'',
        cell_at r ''Text'', cell_at r ''combined'', Num (n_tokens_of encode r), Vec v]"

section \<open>The transactions notebook: zero-shot classification\<close>

text \<open>
  \<^verbatim>\<open>def request_completion(prompt):
      completion_response = openai.Completion.create(
          prompt=prompt, temperature=0, max_tokens=5, top_p=1,
          frequency_penalty=0, presence_penalty=0, model=COMPLETIONS_MODEL)
      return completion_response\<close>

  The completion service is a parameter like the embedding service: it sees the requests
  made so far and the request, and answers with a completion or raises. Of the answer the
  notebook reads the list of choices and each choice's text.
\<close>

definition COMPLETIONS_MODEL :: string where
  "COMPLETIONS_MODEL = ''text-davinci-002''"

record completion_request =
  rq_prompt :: string
  rq_temperature :: int
  rq_max_tokens :: nat
  rq_top_p :: int
  rq_frequency_penalty :: int
  rq_presence_penalty :: int
  rq_model :: string

record choice =
  choice_text :: string

record completion =
  choices :: "choice list"

type_synonym completer = "completion_request list \<Rightarrow> completion_request \<Rightarrow> error + completion"

definition create_request :: "string \<Rightarrow> completion_request" where
  "create_request prompt =
     \<lparr>rq_prompt = prompt, rq_temperature = 0, rq_max_tokens = 5, rq_top_p = 1,
      rq_frequency_penalty = 0, rq_presence_penalty = 0, rq_model = COMPLETIONS_MODEL\<rparr>"

definition request_completion ::
  "completer \<Rightarrow> completion_request list \<Rightarrow> string
     \<Rightarrow> (error + completion) \<times> completion_request list"
where
  "request_completion api log prompt =
     (api log (create_request prompt), log @ [create_request prompt])"

text \<open>
  \<^verbatim>\<open>def classify_transaction(transaction,prompt):
      prompt = prompt.replace('SUPPLIER_NAME',transaction['Supplier'])
      prompt = prompt.replace('DESCRIPTION_TEXT',transaction['Description'])
      prompt = prompt.replace('TRANSACTION_VALUE',str(transaction['Transaction value (\<pounds>)']))
      classification = request_completion(prompt)['choices'][0]['text'].replace('\n','')
      return classification\<close>

  \<open>transaction[c]\<close> raises KeyError when the row has no such field, and \<^verbatim>\<open>replace\<close>
  raises TypeError when the field is not a string. The three replacements run one after
  the other, each on the result of the one before; \<open>interpolate\<close> is that part of the
  function.
\<close>

definition field :: "'v row \<Rightarrow> string \<Rightarrow> error + 'v cell" where
  "field r c = (case r c of None \<Rightarrow> Inl KeyError | Some v \<Rightarrow> Inr v)"

fun as_str :: "'v cell \<Rightarrow> error + string" where
  "as_str (Str s) = Inr s"
| "as_str _ = Inl TypeError"

definition interpolate :: "('v \<Rightarrow> string) \<Rightarrow> 'v row \<Rightarrow> string \<Rightarrow> error + string" where
  "interpolate repr transaction prompt0 =
     ebind (field transaction ''Supplier'') (\<lambda>supplier.
     ebind (as_str supplier) (\<lambda>supplier.
     let prompt1 = replace ''SUPPLIER_NAME'' supplier prompt0 in
     ebind (field transaction ''Description'') (\<lambda>description.
     ebind (as_str description) (\<lambda>description.
     let prompt2 = replace ''DESCRIPTION_TEXT'' description prompt1 in
     ebind (field transaction value_column) (\<lambda>val.
     Inr (replace ''TRANSACTION_VALUE'' (str_cell repr val) prompt2))))))"

definition classify_transaction ::
  "completer \<Rightarrow> ('v \<Rightarrow> string) \<Rightarrow> completion_request list \<Rightarrow> 'v row \<Rightarrow> string
     \<Rightarrow> (error + string) \<times> completion_request list"
where
  "classify_transaction api repr log transaction prompt0 =
     (case interpolate repr transaction prompt0 of
        Inl e \<Rightarrow> (Inl e, log)
      | Inr prompt \<Rightarrow>
          (case request_completion api log prompt of
             (Inl e, log') \<Rightarrow> (Inl e, log')
           | (Inr response, log') \<Rightarrow>
               (case choices response of
                  [] \<Rightarrow> (Inl IndexError, log')
                | c # cs \<Rightarrow> (Inr (replace [newline] [] (choice_text c)), log'))))"

text \<open>
  \<^verbatim>\<open>test_transactions = transactions.iloc[:25]
  test_transactions['Classification'] = test_transactions.apply(
      lambda x: classify_transaction(x,zero_shot_prompt),axis=1)\<close>

  The \<^verbatim>\<open>apply\<close> classifies the rows in order and ends at the first exception.
\<close>

fun classify_all ::
  "completer \<Rightarrow> ('v \<Rightarrow> string) \<Rightarrow> completion_request list \<Rightarrow> 'v row list \<Rightarrow> string
     \<Rightarrow> (error + string list) \<times> completion_request list"
where
  "classify_all api repr log [] prompt0 = (Inr [], log)"
| "classify_all api repr log (t # ts) prompt0 =
     (case classify_transaction api repr log t prompt0 of
        (Inl e, log') \<Rightarrow> (Inl e, log')
      | (Inr c, log') \<Rightarrow>
          (case classify_all api repr log' ts prompt0 of
             (Inl e, log'') \<Rightarrow> (Inl e, log'')
           | (Inr cs, log'') \<Rightarrow> (Inr (c # cs), log'')))"

definition zero_shot_classify ::
  "completer \<Rightarrow> ('v \<Rightarrow> string) \<Rightarrow> completion_request list \<Rightarrow> 'v frame \<Rightarrow> string
     \<Rightarrow> (error + 'v frame) \<times> completion_request list"
where
  "zero_shot_classify api repr log transactions prompt0 =
     (let test_transactions = transactions\<lparr>rws := take 25 (rws transactions)\<rparr>
      in case classify_all api repr log (rws test_transactions) prompt0 of
           (Inl e, log') \<Rightarrow> (Inl e, log')
         | (Inr cs, log') \<Rightarrow> (Inr (assign ''Classification'' (map Str cs) test_transactions), log'))"

section \<open>Classification with embeddings\<close>

text \<open>
  \<^verbatim>\<open>X_train, X_test, y_train, y_test = train_test_split(
      list(df.embedding.values), df.Score, test_size=0.2, random_state=42)
  clf = RandomForestClassifier(n_estimators=100)
  clf.fit(X_train, y_train)
  preds = clf.predict(X_test)
  probas = clf.predict_proba(X_test)
  report = classification_report(y_test, preds)
  print(report)\<close>

  Every step is the classification library's; the library is a record of its five
  routines, each of which may raise. The cell returns what it computed and printed.
\<close>

record ('x, 'y, 'm, 'p) sklearn =
  train_test_split :: "'x list \<Rightarrow> 'y list \<Rightarrow> error + ('x list \<times> 'x list \<times> 'y list \<times> 'y list)"
  fit :: "'x list \<Rightarrow> 'y list \<Rightarrow> error + 'm"
  predict :: "'m \<Rightarrow> 'x list \<Rightarrow> error + 'y list"
  predict_proba :: "'m \<Rightarrow> 'x list \<Rightarrow> error + 'p"
  classification_report :: "'y list \<Rightarrow> 'y list \<Rightarrow> error + string"

definition classify_with_embeddings ::
  "('x, 'y, 'm, 'p) sklearn \<Rightarrow> 'x list \<Rightarrow> 'y list \<Rightarrow> error + ('y list \<times> 'p \<times> string list)"
where
  "classify_with_embeddings lib X y =
     ebind (train_test_split lib X y) (\<lambda>(X_train, X_test, y_train, y_test).
     ebind (fit lib X_train y_train) (\<lambda>clf.
     ebind (predict lib clf X_test) (\<lambda>preds.
     ebind (predict_proba lib clf X_test) (\<lambda>probas.
     ebind (classification_report lib y_test preds) (\<lambda>report.
     Inr (preds, probas, [report]))))))"

section \<open>The transactions notebook: checking the fine-tuning files\<close>

text \<open>
  A line of a \<^verbatim>\<open>.jsonl\<close> file is a JSON value, or text that \<^verbatim>\<open>json.loads\<close> rejects
  (\<open>None\<close>). Numbers are integers here. \<open>result['completion']\<close> needs an object that has
  the key (of a repeated key the last entry counts), and \<^verbatim>\<open>set.add\<close> needs a hashable
  value: an array or an object is not. Python's \<open>True\<close> and \<open>False\<close> are equal to 1 and 0,
  so they are the same element of a set; a \<open>key\<close> is a hashable value up to that equality.
\<close>

datatype json =
    JNull
  | JBool bool
  | JNum int
  | JStr string
  | JArr "json list"
  | JObj "(string \<times> json) list"

datatype key = KNone | KNum int | KStr string

fun hashable :: "json \<Rightarrow> error + key" where
  "hashable JNull = Inr KNone"
| "hashable (JBool b) = Inr (KNum (if b then 1 else 0))"
| "hashable (JNum n) = Inr (KNum n)"
| "hashable (JStr s) = Inr (KStr s)"
| "hashable (JArr xs) = Inl TypeError"
| "hashable (JObj kvs) = Inl TypeError"

fun completion_of :: "json option \<Rightarrow> error + key" where
  "completion_of None = Inl JSONDecodeError"
| "completion_of (Some (JObj kvs)) =
     (case map_of (rev kvs) ''completion'' of None \<Rightarrow> Inl KeyError | Some v \<Rightarrow> hashable v)"
| "completion_of (Some j) = Inl TypeError"

text \<open>
  \<^verbatim>\<open>for json_str in json_list:
      result = json.loads(json_str)
      train_classes.add(result['completion'])\<close>
\<close>

fun add_classes :: "json option list \<Rightarrow> key set \<Rightarrow> error + key set" where
  "add_classes [] classes = Inr classes"
| "add_classes (l # ls) classes =
     (case completion_of l of
        Inl e \<Rightarrow> Inl e
      | Inr k \<Rightarrow> add_classes ls (insert k classes))"

text \<open>
  \<^verbatim>\<open>def check_finetune_classes(train_file,valid_file):
      train_classes = set()
      valid_classes = set()
      with open(train_file, 'r') as json_file:
          json_list = list(json_file)
          print(len(json_list))
      for json_str in json_list: ...
      with open(valid_file, 'r') as json_file:
          json_list = list(json_file)
          print(len(json_list))
      for json_str in json_list: ...
      if len(train_classes) == len(valid_classes):
          print('All good')
      else:
          print('Classes do not match, please prepare data again')\<close>

  The function returns what it printed, line by line, and the exception that ended it,
  if any. The file system maps a path to the lines of the file.
\<close>

definition check_finetune_classes ::
  "(string \<Rightarrow> json option list option) \<Rightarrow> string \<Rightarrow> string \<Rightarrow> string list \<times> error option"
where
  "check_finetune_classes fs train_file valid_file =
     (case fs train_file of
        None \<Rightarrow> ([], Some FileNotFoundError)
      | Some train_list \<Rightarrow>
          (let out1 = [str_nat (length train_list)] in
           case add_classes train_list {} of
             Inl e \<Rightarrow> (out1, Some e)
           | Inr train_classes \<Rightarrow>
               (case fs valid_file of
                  None \<Rightarrow> (out1, Some FileNotFoundError)
                | Some valid_list \<Rightarrow>
                    (let out2 = out1 @ [str_nat (length valid_list)] in
                     case add_classes valid_list {} of
                       Inl e \<Rightarrow> (out2, Some e)
                     | Inr valid_classes \<Rightarrow>
                         (if card train_classes = card valid_classes
                          then (out2 @ [''All good''], None)
                          else (out2 @ [''Classes do not match, please prepare data again''],
                                None))))))"

text \<open>
  The distinct completion values of a file, and whether every line of it has one, said
  without the loop.
\<close>

definition classes :: "json option list \<Rightarrow> key set" where
  "classes ls = set (concat (map (\<lambda>l. case completion_of l of Inl e \<Rightarrow> [] | Inr k \<Rightarrow> [k]) ls))"

definition readable :: "json option list \<Rightarrow> bool" where
  "readable ls = list_all (\<lambda>l. case completion_of l of Inl e \<Rightarrow> False | Inr k \<Rightarrow> True) ls"

text \<open>
  Two prepared files: the training file has the classes \<open>0\<close> and \<open>1\<close>, the validation file
  the classes \<open>1\<close> and \<open>2\<close>.
\<close>

definition example_line :: "string \<Rightarrow> string \<Rightarrow> json option" where
  "example_line p c = Some (JObj [(''prompt'', JStr p), (''completion'', JStr c)])"

definition example_files :: "string \<Rightarrow> json option list option" where
  "example_files =
     [''train.jsonl'' \<mapsto> [example_line ''a'' '' 0'', example_line ''b'' '' 1'', example_line ''c'' '' 0''],
      ''valid.jsonl'' \<mapsto> [example_line ''d'' '' 1'', example_line ''e'' '' 2'']]"

section \<open>Examples for the zero-shot classification\<close>

text \<open>
  The lines of the notebook's prompt template that hold the placeholders, with the line
  that follows them and the closing line.
\<close>

definition zero_shot_lines :: string where
  "zero_shot_lines =
     ''Supplier: SUPPLIER_NAME''
     @ [newline] @ ''Description: DESCRIPTION_TEXT''
     @ [newline] @ ''Value: TRANSACTION_VALUE''
     @ [newline] @ ''                      ''
     @ [newline] @ ''The classification is:''"

text \<open>
  The first transaction of the dataset, and two more. \<open>limited_service n\<close> answers the
  first \<open>n\<close> requests with one choice and raises on every later one, as a service with a
  rate limit does.
\<close>

definition ballantyne :: "int list row" where
  "ballantyne = example_transaction ''M & J Ballantyne Ltd'' ''George IV Bridge Work'' 35098"

text \<open>Those lines with the fields of that transaction in place of the placeholders.\<close>

definition ballantyne_prompt :: string where
  "ballantyne_prompt =
     ''Supplier: M & J Ballantyne Ltd''
     @ [newline] @ ''Description: George IV Bridge Work''
     @ [newline] @ ''Value: 35098''
     @ [newline] @ ''                      ''
     @ [newline] @ ''The classification is:''"

definition limited_service :: "nat \<Rightarrow> completer" where
  "limited_service n log rq =
     (if length log < n
      then Inr \<lparr>choices = [\<lparr>choice_text = newline # '' Building Improvement''\<rparr>]\<rparr>
      else Inl (ServiceError ''Rate limit reached''))"

definition three_transactions :: "int list row list" where
  "three_transactions =
     [example_transaction ''A'' ''a'' 1, example_transaction ''B'' ''b'' 2,
      example_transaction ''C'' ''c'' 3]"

text \<open>
  A table of those three transactions; an embedding service that answers \<open>n\<close> calls and
  raises on every later one; two loaded reviews; and a classification library of which
  the routine number \<open>k\<close> (0 the split, 1 the fit, 2 the prediction, 3 the probabilities,
  4 the report) raises and the others answer.
\<close>

definition transactions_table :: "int list frame" where
  "transactions_table =
     \<lparr>cols = [''Supplier'', ''Description'', value_column], rws = three_transactions\<rparr>"

definition limited_embedder :: "nat \<Rightarrow> int list embedder" where
  "limited_embedder n log s engine =
     (if length log < n then Inr [int (length s)] else Inl (ServiceError ''Rate limit reached''))"

definition two_loaded :: "int list frame" where
  "two_loaded =
     \<lparr>cols = [''combined''],
      rws = [map_of [(''combined'', Str ''first'')], map_of [(''combined'', Str ''second'')]]\<rparr>"

definition failing_lib :: "nat \<Rightarrow> (int list, int, unit, unit) sklearn" where
  "failing_lib k =
     \<lparr>train_test_split = (\<lambda>X y. if k = 0 then Inl (LibraryError ''split'')
                                 else Inr (tl X, [hd X], tl y, [hd y])),
      fit = (\<lambda>X y. if k = 1 then Inl (LibraryError ''fit'') else Inr ()),
      predict = (\<lambda>clf X. if k = 2 then Inl (LibraryError ''predict'') else Inr (map (\<lambda>x. 5) X)),
      predict_proba = (\<lambda>clf X. if k = 3 then Inl (LibraryError ''predict_proba'') else Inr ()),
      classification_report =
        (\<lambda>y p. if k = 4 then Inl (LibraryError ''classification_report'') else Inr ''report'')\<rparr>"

section \<open>The transactions notebook: the fine-tuned model\<close>

text \<open>
  \<^verbatim>\<open>!openai tools fine_tunes.prepare_data -f transactions_grouped.jsonl -q\<close>

  \<^verbatim>\<open>!openai api fine_tunes.create -t "transactions_grouped_prepared_train.jsonl"
      -v "transactions_grouped_prepared_valid.jsonl" --compute_classification_metrics
      --classification_n_classes 5 -m curie\<close>

  A cell line that starts with \<^verbatim>\<open>!\<close> is run by IPython as a command of the system shell.
  The shell is a parameter: given a command it yields an exit status and the lines the
  command printed. IPython shows the lines and raises nothing, whatever the status; the
  notebook goes on to its next cell. The double quote of the second command is the
  character \<open>0x22\<close>.
\<close>

type_synonym shell = "string \<Rightarrow> int \<times> string list"

definition bang :: "shell \<Rightarrow> string \<Rightarrow> error + string list" where
  "bang sh cmd = Inr (snd (sh cmd))"

definition prepare_data :: "shell \<Rightarrow> error + string list" where
  "prepare_data sh =
     bang sh ''openai tools fine_tunes.prepare_data -f transactions_grouped.jsonl -q''"

definition create_fine_tune :: "shell \<Rightarrow> error + string list" where
  "create_fine_tune sh =
     bang sh
       (''openai api fine_tunes.create -t '' @ [CHR 0x22]
        @ ''transactions_grouped_prepared_train.jsonl'' @ [CHR 0x22] @ '' -v '' @ [CHR 0x22]
        @ ''transactions_grouped_prepared_valid.jsonl'' @ [CHR 0x22]
        @ '' --compute_classification_metrics --classification_n_classes 5 -m curie'')"

text \<open>
  \<^verbatim>\<open>fine_tuned_model = 'curie:ft-personal-2022-10-20-10-42-56'\<close>

  \<^verbatim>\<open>test_set['predicted_class'] = test_set.apply(lambda x: openai.Completion.create(
      model=fine_tuned_model, prompt=x['prompt'], max_tokens=1, temperature=0, logprobs=5),
      axis=1)
  test_set['pred'] = test_set.apply(lambda x : x['predicted_class']['choices'][0]['text'],
      axis=1)\<close>

  The request holds the row's cell as its prompt, whatever the cell is. The service of the
  fine-tuned model is a parameter of its own. The first \<^verbatim>\<open>apply\<close> asks the service for
  each row in order and ends at the first exception; the second reads the text of the first
  choice of each answer. The cells of the model's tables do not hold answers, so the
  column of answers is the list \<open>complete_rows\<close> returns, and the table returned has the
  column \<open>pred\<close>.
\<close>

definition fine_tuned_model :: string where
  "fine_tuned_model = ''curie:ft-personal-2022-10-20-10-42-56''"

record 'v finetuned_request =
  ft_model :: string
  ft_prompt :: "'v cell"
  ft_max_tokens :: nat
  ft_temperature :: int
  ft_logprobs :: nat

type_synonym 'v finetuned =
  "'v finetuned_request list \<Rightarrow> 'v finetuned_request \<Rightarrow> error + completion"

definition predict_request :: "'v cell \<Rightarrow> 'v finetuned_request" where
  "predict_request prompt =
     \<lparr>ft_model = fine_tuned_model, ft_prompt = prompt, ft_max_tokens = 1, ft_temperature = 0,
      ft_logprobs = 5\<rparr>"

fun complete_rows ::
  "'v finetuned \<Rightarrow> string \<Rightarrow> 'v finetuned_request list \<Rightarrow> 'v row list
     \<Rightarrow> (error + completion list) \<times> 'v finetuned_request list"
where
  "complete_rows api c log [] = (Inr [], log)"
| "complete_rows api c log (x # xs) =
     (case field x c of
        Inl e \<Rightarrow> (Inl e, log)
      | Inr prompt \<Rightarrow>
          (case api log (predict_request prompt) of
             Inl e \<Rightarrow> (Inl e, log @ [predict_request prompt])
           | Inr r \<Rightarrow>
               (case complete_rows api c (log @ [predict_request prompt]) xs of
                  (Inl e, log') \<Rightarrow> (Inl e, log')
                | (Inr rs, log') \<Rightarrow> (Inr (r # rs), log'))))"

definition first_text :: "completion \<Rightarrow> error + string" where
  "first_text r = (case choices r of [] \<Rightarrow> Inl IndexError | c # cs \<Rightarrow> Inr (choice_text c))"

definition predict_finetuned ::
  "'v finetuned \<Rightarrow> string \<Rightarrow> 'v finetuned_request list \<Rightarrow> 'v frame
     \<Rightarrow> (error + 'v frame) \<times> 'v finetuned_request list"
where
  "predict_finetuned api c log df =
     (case complete_rows api c log (rws df) of
        (Inl e, log') \<Rightarrow> (Inl e, log')
      | (Inr rs, log') \<Rightarrow>
          (case mapM first_text rs of
             Inl e \<Rightarrow> (Inl e, log')
           | Inr texts \<Rightarrow> (Inr (assign ''pred'' (map Str texts) df), log')))"

definition predict_test_set ::
  "'v finetuned \<Rightarrow> 'v finetuned_request list \<Rightarrow> 'v frame
     \<Rightarrow> (error + 'v frame) \<times> 'v finetuned_request list"
where
  "predict_test_set api log test_set = predict_finetuned api ''prompt'' log test_set"

text \<open>
  \<^verbatim>\<open>holdout_df = transactions.copy().iloc[101:]\<close>

  \<^verbatim>\<open>holdout_df['combined'] = "Supplier: " + holdout_df['Supplier'].str.strip()
      + "; Description: " + holdout_df['Description'].str.strip() + '\n\n###\n\n'
  holdout_df['prediction_result'] = holdout_df.apply(lambda x: openai.Completion.create(
      model=fine_tuned_model, prompt=x['combined'], max_tokens=1, temperature=0, logprobs=5),
      axis=1)
  holdout_df['pred'] = holdout_df.apply(
      lambda x : x['prediction_result']['choices'][0]['text'],axis=1)\<close>
\<close>

definition holdout_combined :: "'v frame \<Rightarrow> error + 'v frame" where
  "holdout_combined holdout_df =
     ebind (getitem ''Supplier'' holdout_df) (\<lambda>supplier.
     ebind (str_strip supplier) (\<lambda>supplier.
     ebind (getitem ''Description'' holdout_df) (\<lambda>description.
     ebind (str_strip description) (\<lambda>description.
     Inr (assign ''combined''
            (map to_cell
               (str_add
                  (series_add
                     (str_add (str_radd ''Supplier: '' supplier) ''; Description: '')
                     description)
                  ([newline, newline] @ ''###'' @ [newline, newline])))
            holdout_df)))))"

definition predict_holdout ::
  "'v finetuned \<Rightarrow> 'v finetuned_request list \<Rightarrow> 'v frame
     \<Rightarrow> (error + 'v frame) \<times> 'v finetuned_request list"
where
  "predict_holdout api log transactions =
     (case holdout_combined (transactions\<lparr>rws := drop 101 (rws transactions)\<rparr>) of
        Inl e \<Rightarrow> (Inl e, log)
      | Inr holdout_df \<Rightarrow> predict_finetuned api ''combined'' log holdout_df)"

section \<open>Classification with embeddings: the plot\<close>

text \<open>
  \<^verbatim>\<open>from openai.embeddings_utils import plot_multiclass_precision_recall
  plot_multiclass_precision_recall(probas, y_test, [1, 2, 3, 4, 5], clf)\<close>

  The plotting routine is the library's and a parameter; it may raise.
\<close>

definition plot_precision_recall ::
  "('p \<Rightarrow> 'y list \<Rightarrow> int list \<Rightarrow> 'm \<Rightarrow> error + unit) \<Rightarrow> 'p \<Rightarrow> 'y list \<Rightarrow> 'm \<Rightarrow> error + unit"
where
  "plot_precision_recall plot_multiclass_precision_recall probas y_test clf =
     plot_multiclass_precision_recall probas y_test [1, 2, 3, 4, 5] clf"

section \<open>Examples for the exceptions of the services\<close>

text \<open>
  A service of the fine-tuned model that answers the first \<open>n\<close> requests and raises on
  every later one; a table with a \<open>prompt\<close> column; a shell whose every command fails;
  and a plotting routine that raises.
\<close>

definition limited_finetuned :: "nat \<Rightarrow> int list finetuned" where
  "limited_finetuned n log rq =
     (if length log < n then Inr \<lparr>choices = [\<lparr>choice_text = '' 1''\<rparr>]\<rparr>
      else Inl (ServiceError ''Rate limit reached''))"

definition three_prompts :: "int list frame" where
  "three_prompts =
     \<lparr>cols = [''prompt''],
      rws = [map_of [(''prompt'', Str ''a'')], map_of [(''prompt'', Str ''b'')],
             map_of [(''prompt'', Str ''c'')]]\<rparr>"

definition failing_shell :: shell where
  "failing_shell cmd = (1, [''Error: rate limit reached''])"

definition failing_plot :: "unit \<Rightarrow> int list \<Rightarrow> int list \<Rightarrow> unit \<Rightarrow> error + unit" where
  "failing_plot probas y_test class_list clf = Inl (LibraryError ''plot'')"

text \<open>A table of 103 transactions, of which the last two are the holdout set.\<close>

definition many_transactions :: "int list frame" where
  "many_transactions =
     \<lparr>cols = [''Supplier'', ''Description'', value_column],
      rws = replicate 101 (example_transaction ''A'' ''a'' 1)
            @ [example_transaction ''B '' ''b'' 2, example_transaction ''C'' '' c'' 3]\<rparr>"

section \<open>Evaluating the string functions\<close>

text \<open>The equations that evaluate \<open>strip\<close> on a given string.\<close>

lemmas strip_eval = strip_def lstrip_def rstrip_def drop_leading.simps whitespace_def

text \<open>
  A no-break space (U+00A0) before and an em space (U+2003) and a line feed after the
  text are stripped, the space inside the text stays.
\<close>

lemma strip_unicode:
  "strip ([CHR 0xC2, CHR 0xA0] @ '' Go od'' @ [CHR 0xE2, CHR 0x80, CHR 0x83, CHR 0x0A]) = ''Go od''"
  by (simp add: strip_eval)

section \<open>Properties of the subsampling step\<close>

lemma ebind_Inr: "ebind m k = Inr y \<longleftrightarrow> (\<exists>x. m = Inr x \<and> k x = Inr y)"
  by (cases m) (simp_all add: ebind_def)

lemma mapM_count_tokens:
  "mapM (count_tokens encode) (map (\<lambda>r. cell_at r ''combined'') rs) = Inr ns \<Longrightarrow>
     (\<forall>r\<in>set rs. \<exists>n. count_tokens encode (cell_at r ''combined'') = Inr n) \<and>
     ns = map (n_tokens_of encode) rs"
  by (induction rs arbitrary: ns) (auto simp: n_tokens_of_def split: sum.splits)

lemma mapM_count_tokens_ok:
  "\<forall>r\<in>set rs. \<exists>n. count_tokens encode (cell_at r ''combined'') = Inr n \<Longrightarrow>
     mapM (count_tokens encode) (map (\<lambda>r. cell_at r ''combined'') rs)
       = Inr (map (n_tokens_of encode) rs)"
  by (induction rs) (auto simp: n_tokens_of_def split: sum.splits)

lemma mask_map: "map snd (filter fst (zip (map P xs) xs)) = filter P xs"
  by (induction xs) auto

lemma tail_map: "tail n (map f xs) = map f (tail n xs)"
  by (simp add: tail_def drop_map)

lemma set_tail: "set (tail n xs) \<subseteq> set xs"
  by (simp add: tail_def set_drop_subset)

lemma length_tail: "length (tail n xs) = min n (length xs)"
  by (simp add: tail_def)

lemma cell_at_upd [simp]: "cell_at (r(c \<mapsto> v)) d = (if d = c then v else cell_at r d)"
  by (simp add: cell_at_def)

lemma cell_at_del [simp]: "cell_at (r(c := None)) d = (if d = c then NaN else cell_at r d)"
  by (simp add: cell_at_def)

lemma map_zip_same: "map h (zip (map f xs) (map g xs)) = map (\<lambda>x. h (f x, g x)) xs"
  by (induction xs) auto

lemma subsample_Inr:
  assumes "subsample srt encode df = Inr out"
  shows "\<exists>sdf. sort_values srt ''Time'' df = Inr sdf \<and>
           (\<forall>r\<in>set (tail (top_n * 2) (rws sdf)).
               \<exists>n. count_tokens encode (cell_at r ''combined'') = Inr n) \<and>
           cols out = with_column ''n_tokens'' (filter (\<lambda>d. d \<noteq> ''Time'') (cols df)) \<and>
           rws out = map (tokenised encode)
                        (tail top_n (filter (fits encode) (tail (top_n * 2) (rws sdf))))"
proof -
  from assms obtain sdf df2 combined ns n_tokens where
    s: "sort_values srt ''Time'' df = Inr sdf"
    and d: "drop_column ''Time'' (tail_rows (top_n * 2) sdf) = Inr df2"
    and c: "getattr ''combined'' df2 = Inr combined"
    and m: "mapM (count_tokens encode) combined = Inr ns"
    and g: "getattr ''n_tokens'' (assign ''n_tokens'' (map Num ns) df2) = Inr n_tokens"
    and o: "out = tail_rows top_n (mask (map (\<lambda>c. le_cell c max_tokens) n_tokens)
               (assign ''n_tokens'' (map Num ns) df2))"
    unfolding subsample_def Let_def ebind_Inr by auto
  let ?kept = "tail (top_n * 2) (rws sdf)"
  from s have cs: "cols sdf = cols df"
    by (auto simp: sort_values_def split: if_splits)
  from d have df2: "df2 = \<lparr>cols = filter (\<lambda>d. d \<noteq> ''Time'') (cols df),
                          rws = map (\<lambda>r. r(''Time'' := None)) ?kept\<rparr>"
    by (auto simp: drop_column_def tail_rows_def cs split: if_splits)
  from c have "combined = map (\<lambda>r. cell_at r ''combined'') ?kept"
    by (auto simp: getattr_def df2 split: if_splits)
  with m have ok: "\<forall>r\<in>set ?kept. \<exists>n. count_tokens encode (cell_at r ''combined'') = Inr n"
    and ns: "ns = map (n_tokens_of encode) ?kept"
    using mapM_count_tokens [of encode ?kept ns] by simp_all
  let ?df3 = "assign ''n_tokens'' (map Num ns) df2"
  have r3: "rws ?df3 = map (tokenised encode) ?kept"
    by (simp add: assign_def df2 ns map_zip_same tokenised_def)
  have c3: "cols ?df3 = with_column ''n_tokens'' (filter (\<lambda>d. d \<noteq> ''Time'') (cols df))"
    by (simp add: assign_def df2 with_column_def)
  from g have "n_tokens = map (\<lambda>r. cell_at r ''n_tokens'') (rws ?df3)"
    by (auto simp: getattr_def split: if_splits)
  then have "map (\<lambda>c. le_cell c max_tokens) n_tokens = map (fits encode) ?kept"
    by (simp add: r3 tokenised_def fits_def)
  then have "rws out = tail top_n (map snd (filter fst (zip (map (fits encode) ?kept) (map (tokenised encode) ?kept))))"
    by (simp add: o mask_def tail_rows_def r3)
  also have "map snd (filter fst (zip (map (fits encode) xs) (map (tokenised encode) xs)))
       = map (tokenised encode) (filter (fits encode) xs)" for xs :: "'a row list"
    by (induction xs) auto
  finally have "rws out = map (tokenised encode) (tail top_n (filter (fits encode) ?kept))"
    by (simp add: tail_map)
  moreover have "cols out = with_column ''n_tokens'' (filter (\<lambda>d. d \<noteq> ''Time'') (cols df))"
    by (simp add: o mask_def tail_rows_def c3)
  ultimately show ?thesis using s ok by blast
qed

lemma subsample_success:
  assumes s: "sort_values srt ''Time'' df = Inr sdf"
    and c: "''combined'' \<in> set (cols df)"
    and ok: "\<forall>r\<in>set (tail (top_n * 2) (rws sdf)).
               \<exists>n. count_tokens encode (cell_at r ''combined'') = Inr n"
  shows "\<exists>out. subsample srt encode df = Inr out"
proof -
  let ?kept = "tail (top_n * 2) (rws sdf)"
  from s have t: "''Time'' \<in> set (cols df)" and cs: "cols sdf = cols df"
    by (auto simp: sort_values_def split: if_splits)
  have d: "drop_column ''Time'' (tail_rows (top_n * 2) sdf)
      = Inr \<lparr>cols = filter (\<lambda>d. d \<noteq> ''Time'') (cols df), rws = map (\<lambda>r. r(''Time'' := None)) ?kept\<rparr>"
    by (simp add: drop_column_def tail_rows_def cs t)
  have m: "mapM (count_tokens encode) (map (\<lambda>r. cell_at r ''combined'') ?kept)
      = Inr (map (n_tokens_of encode) ?kept)"
    by (rule mapM_count_tokens_ok [OF ok])
  show ?thesis
    by (simp add: subsample_def s d ebind_def getattr_def c m assign_def with_column_def o_def)
qed

lemma older_recent: "older srt df @ most_recent srt df = sorted_rows srt df"
  by (simp add: older_def most_recent_def tail_def)

lemma mset_sorted_rows:
  assumes "sort_values srt ''Time'' df = Inr sdf"
    and perm: "\<And>k xs. mset (srt k xs) = mset xs"
  shows "mset (sorted_rows srt df) = mset (rws df)"
  using assms(1)
  by (auto simp: sorted_rows_def sort_values_def perm split: if_splits)

lemma sorted_rows_ascending:
  assumes asc: "\<And>k xs. sorted (map k (srt k xs))"
    and i: "i \<le> j" and j: "j < length (sorted_rows srt df)"
    and a: "cell_at (sorted_rows srt df ! i) ''Time'' = Num a"
    and b: "cell_at (sorted_rows srt df ! j) ''Time'' = Num b"
  shows "a \<le> b"
proof (cases "sort_values srt ''Time'' df")
  case (Inl e)
  with j show ?thesis by (simp add: sorted_rows_def)
next
  case (Inr s)
  let ?A = "srt (num_key ''Time'') (filter (\<lambda>r. cell_at r ''Time'' \<noteq> NaN) (rws df))"
  let ?B = "filter (\<lambda>r. cell_at r ''Time'' = NaN) (rws df)"
  from Inr have L: "sorted_rows srt df = ?A @ ?B"
    by (auto simp: sorted_rows_def sort_values_def split: if_splits)
  have inA: "k < length ?A" if "k < length (?A @ ?B)" "cell_at ((?A @ ?B) ! k) ''Time'' = Num c" for k c
  proof (rule ccontr)
    assume "\<not> k < length ?A"
    with that(1) have "k - length ?A < length ?B" and "(?A @ ?B) ! k = ?B ! (k - length ?A)"
      by (simp_all add: nth_append)
    then have "(?A @ ?B) ! k \<in> set ?B"
      by (metis nth_mem)
    then have "cell_at ((?A @ ?B) ! k) ''Time'' = NaN" by simp
    with that(2) show False by simp
  qed
  from j i have i': "i < length (?A @ ?B)" and j': "j < length (?A @ ?B)" by (simp_all add: L)
  from inA [OF i'] a have ia: "i < length ?A" by (simp add: L)
  from inA [OF j'] b have ja: "j < length ?A" by (simp add: L)
  have "sorted (map (num_key ''Time'') ?A)" by (rule asc)
  with i ja have "map (num_key ''Time'') ?A ! i \<le> map (num_key ''Time'') ?A ! j"
    by (simp add: sorted_iff_nth_mono del: num_key.simps)
  with ia ja a b show ?thesis by (simp add: L nth_append)
qed

text \<open>
  C2: every row of the dataset that the subsampling step returns holds a combined text
  whose encoding has at most \<open>max_tokens = 8000\<close> tokens, and its \<open>n_tokens\<close> cell is that
  length; so no row whose token count exceeds the limit is in the output.
\<close>

theorem subsample_within_limit:
  assumes "subsample srt encode df = Inr out"
  shows "\<forall>r\<in>set (rws out). \<exists>s toks.
           cell_at r ''combined'' = Str s \<and> encode s = Inr toks \<and>
           cell_at r ''n_tokens'' = Num (int (length toks)) \<and> length toks \<le> 8000"
proof
  fix r assume r: "r \<in> set (rws out)"
  from subsample_Inr [OF assms] obtain sdf where
    "sort_values srt ''Time'' df = Inr sdf \<and>
     (\<forall>r\<in>set (tail (top_n * 2) (rws sdf)).
               \<exists>n. count_tokens encode (cell_at r ''combined'') = Inr n) \<and>
     cols out = with_column ''n_tokens'' (filter (\<lambda>d. d \<noteq> ''Time'') (cols df)) \<and>
     rws out = map (tokenised encode)
                        (tail top_n (filter (fits encode) (tail (top_n * 2) (rws sdf))))" ..
  then have ok: "\<forall>r\<in>set (tail (top_n * 2) (rws sdf)).
               \<exists>n. count_tokens encode (cell_at r ''combined'') = Inr n"
    and rs: "rws out = map (tokenised encode)
                        (tail top_n (filter (fits encode) (tail (top_n * 2) (rws sdf))))"
    by simp_all
  from r rs obtain k where k: "k \<in> set (tail top_n (filter (fits encode) (tail (top_n * 2) (rws sdf))))"
    and rk: "r = tokenised encode k" by auto
  from k set_tail [of top_n "filter (fits encode) (tail (top_n * 2) (rws sdf))"]
  have kf: "fits encode k" and kk: "k \<in> set (tail (top_n * 2) (rws sdf))" by auto
  from ok kk obtain n where n: "count_tokens encode (cell_at k ''combined'') = Inr n" by blast
  then obtain s toks where st: "cell_at k ''combined'' = Str s" "encode s = Inr toks"
    "n = int (length toks)"
    by (cases "cell_at k ''combined''") (auto split: sum.splits)
  from n have nk: "n_tokens_of encode k = n" by (simp add: n_tokens_of_def)
  with kf st have "length toks \<le> 8000" by (simp add: fits_def max_tokens_def)
  moreover have "cell_at r ''combined'' = Str s" by (simp add: rk tokenised_def st)
  moreover have "cell_at r ''n_tokens'' = Num (int (length toks))"
    by (simp add: rk tokenised_def nk st)
  ultimately show "\<exists>s toks.
           cell_at r ''combined'' = Str s \<and> encode s = Inr toks \<and>
           cell_at r ''n_tokens'' = Num (int (length toks)) \<and> length toks \<le> 8000"
    using st(2) by blast
qed

text \<open>
  C9: the subsampling step returns at most 1000 rows. They are computed from the
  \<open>most_recent\<close> rows alone: the input splits into \<open>older\<close> and \<open>most_recent\<close>, the latter
  being 2000 rows (all of them when the input has fewer) none of which is earlier than an
  older row, and the output is the last 1000 of the most recent rows that pass the token
  filter. When the filter drops more than 1000 of the most recent rows, fewer than 1000
  rows are returned, whatever the older rows hold. The sorting routine is assumed to
  return its input reordered and ascending by the key.
\<close>

theorem subsample_at_most_top_n:
  assumes run: "subsample srt encode df = Inr out"
    and perm: "\<And>k xs. mset (srt k xs) = mset xs"
    and asc: "\<And>k xs. sorted (map k (srt k xs))"
  shows "length (rws out) \<le> 1000 \<and>
         rws out = map (tokenised encode) (tail 1000 (filter (fits encode) (most_recent srt df))) \<and>
         mset (rws df) = mset (older srt df) + mset (most_recent srt df) \<and>
         length (most_recent srt df) = min 2000 (length (rws df)) \<and>
         (\<forall>q\<in>set (older srt df). \<forall>k\<in>set (most_recent srt df). \<forall>a b.
             cell_at q ''Time'' = Num a \<longrightarrow> cell_at k ''Time'' = Num b \<longrightarrow> a \<le> b) \<and>
         (1000 < length (filter (\<lambda>r. \<not> fits encode r) (most_recent srt df))
             \<longrightarrow> length (rws out) < 1000)"
proof -
  from subsample_Inr [OF run] obtain sdf where
    "sort_values srt ''Time'' df = Inr sdf \<and>
     (\<forall>r\<in>set (tail (top_n * 2) (rws sdf)).
               \<exists>n. count_tokens encode (cell_at r ''combined'') = Inr n) \<and>
     cols out = with_column ''n_tokens'' (filter (\<lambda>d. d \<noteq> ''Time'') (cols df)) \<and>
     rws out = map (tokenised encode)
                        (tail top_n (filter (fits encode) (tail (top_n * 2) (rws sdf))))" ..
  then have s: "sort_values srt ''Time'' df = Inr sdf"
    and rs: "rws out = map (tokenised encode)
                        (tail top_n (filter (fits encode) (tail (top_n * 2) (rws sdf))))"
    by simp_all
  from s have sr: "sorted_rows srt df = rws sdf" by (simp add: sorted_rows_def)
  let ?L = "sorted_rows srt df"
  let ?R = "most_recent srt df"
  have eq: "rws out = map (tokenised encode) (tail 1000 (filter (fits encode) ?R))"
    by (simp add: rs most_recent_def sr top_n_def)
  then have len: "length (rws out) \<le> 1000" by (simp add: length_tail)
  have ms: "mset (rws df) = mset (older srt df) + mset ?R"
    using mset_sorted_rows [OF s perm] older_recent [of srt df]
    by (metis mset_append)
  have "length ?L = length (rws df)"
    using mset_sorted_rows [OF s perm] by (metis size_mset)
  then have lr: "length ?R = min 2000 (length (rws df))"
    by (simp add: most_recent_def length_tail top_n_def)
  have ord: "\<forall>q\<in>set (older srt df). \<forall>k\<in>set ?R. \<forall>a b.
             cell_at q ''Time'' = Num a \<longrightarrow> cell_at k ''Time'' = Num b \<longrightarrow> a \<le> b"
  proof (intro ballI allI impI)
    fix q k a b
    assume q: "q \<in> set (older srt df)" and k: "k \<in> set ?R"
      and a: "cell_at q ''Time'' = Num a" and b: "cell_at k ''Time'' = Num b"
    let ?m = "length ?L - top_n * 2"
    from q obtain i where i: "i < ?m" "i < length ?L" "?L ! i = q"
      by (auto simp: older_def in_set_conv_nth)
    from k have "k \<in> set (drop ?m ?L)" by (simp add: most_recent_def tail_def)
    then obtain j where "j < length (drop ?m ?L)" "drop ?m ?L ! j = k"
      unfolding in_set_conv_nth by blast
    then have j: "?m + j < length ?L" "?L ! (?m + j) = k" by simp_all
    from i have "i \<le> ?m + j" by simp
    from sorted_rows_ascending [OF asc this j(1)] a b i(3) j(2) show "a \<le> b" by simp
  qed
  have few: "length (rws out) < 1000"
    if "1000 < length (filter (\<lambda>r. \<not> fits encode r) ?R)"
  proof -
    have "length (filter (fits encode) ?R) + length (filter (\<lambda>r. \<not> fits encode r) ?R) = length ?R"
      by (simp add: sum_length_filter_compl)
    with that lr have "length (filter (fits encode) ?R) < 1000" by simp
    then show ?thesis by (simp add: eq length_tail)
  qed
  from len eq ms lr ord few show ?thesis by blast
qed

text \<open>
  Three loaded reviews, one of them over the limit: the step keeps the other two, in
  order of time.
\<close>

theorem subsample_within_limit_witness:
  "\<exists>out. subsample sort_key toy_encode small_reviews = Inr out \<and>
     map (\<lambda>r. cell_at r ''combined'') (rws out)
       = [Str ''Title: Bad; Content: stale'', Str ''Title: Good; Content: tasty''] \<and>
     list_all (\<lambda>r. \<exists>s toks. cell_at r ''combined'' = Str s \<and> toy_encode s = Inr toks \<and>
                 cell_at r ''n_tokens'' = Num (int (length toks)) \<and> length toks \<le> 8000) (rws out)"
proof -
  have "\<exists>out. subsample sort_key toy_encode small_reviews = Inr out \<and>
     map (\<lambda>r. cell_at r ''combined'') (rws out)
       = [Str ''Title: Bad; Content: stale'', Str ''Title: Good; Content: tasty'']"
    by (simp add: subsample_def small_reviews_def loaded_row_def sort_values_def ebind_def
        cell_at_def tail_rows_def tail_def top_n_def drop_column_def getattr_def toy_encode_def
        assign_def with_column_def mask_def max_tokens_def)
  then obtain out where hc: "subsample sort_key toy_encode small_reviews = Inr out \<and>
     map (\<lambda>r. cell_at r ''combined'') (rws out)
       = [Str ''Title: Bad; Content: stale'', Str ''Title: Good; Content: tasty'']" ..
  then have h: "subsample sort_key toy_encode small_reviews = Inr out" ..
  from subsample_within_limit [OF h] hc show ?thesis
    unfolding list_all_iff by (intro exI [of _ out] conjI) simp_all
qed

lemma fits_loaded_row:
  "fits toy_encode (loaded_row t ''old'')" "\<not> fits toy_encode (loaded_row t ''#'')"
  "fits toy_encode (loaded_row t ''new'')"
  by (simp_all add: fits_def n_tokens_of_def loaded_row_def cell_at_def toy_encode_def max_tokens_def)

lemma time_loaded_row [simp]: "cell_at (loaded_row t s) ''Time'' = Num t"
  by (simp add: loaded_row_def cell_at_def)

lemma sorted_big: "sort_values sort_key ''Time'' big_reviews = Inr big_reviews"
proof -
  let ?rs = "rws big_reviews"
  have 1: "list_all (\<lambda>r. sortable (cell_at r ''Time'')) ?rs"
    by (simp add: big_reviews_def list_all_iff)
  have 2: "filter (\<lambda>r. cell_at r ''Time'' \<noteq> NaN) ?rs = ?rs"
    by (simp add: big_reviews_def)
  have 3: "filter (\<lambda>r. cell_at r ''Time'' = NaN) ?rs = []"
    by (simp add: big_reviews_def)
  have "sorted (map (num_key ''Time'') ?rs)"
    by (simp add: big_reviews_def sorted_append)
  then have 4: "sort_key (num_key ''Time'') ?rs = ?rs"
    by (rule sort_key_id_if_sorted)
  have "''Time'' \<in> set (cols big_reviews)" by (simp add: big_reviews_def)
  then show ?thesis
    by (simp add: sort_values_def 1 2 3 4 del: num_key.simps)
qed

lemma recent_big:
  "most_recent sort_key big_reviews
     = replicate 1001 (loaded_row 2 ''#'') @ replicate 999 (loaded_row 3 ''new'')"
  by (simp add: most_recent_def sorted_rows_def sorted_big tail_def top_n_def)
     (simp add: big_reviews_def)

text \<open>
  3000 reviews: 1000 old ones within the limit, then 1001 over the limit, then 999 within
  it. Of the 1999 rows within the limit the step returns fewer than 1000, because the
  1000 old ones are cut before the filter runs.
\<close>

theorem subsample_at_most_top_n_witness:
  "\<exists>out. subsample sort_key toy_encode big_reviews = Inr out \<and>
     length (filter (fits toy_encode) (rws big_reviews)) = 1999 \<and>
     length (older sort_key big_reviews) = 1000 \<and>
     length (filter (\<lambda>r. \<not> fits toy_encode r) (most_recent sort_key big_reviews)) = 1001 \<and>
     length (rws out) < 1000"
proof -
  have ok: "\<forall>r\<in>set (tail (top_n * 2) (rws big_reviews)).
          \<exists>n. count_tokens toy_encode (cell_at r ''combined'') = Inr n"
  proof
    fix r assume "r \<in> set (tail (top_n * 2) (rws big_reviews))"
    then have "r \<in> set (rws big_reviews)"
      using set_tail [of "top_n * 2" "rws big_reviews"] by (rule subsetD [rotated])
    then obtain t s where "r = loaded_row t s"
      by (auto simp: big_reviews_def)
    then show "\<exists>n. count_tokens toy_encode (cell_at r ''combined'') = Inr n"
      by (simp add: loaded_row_def cell_at_def toy_encode_def)
  qed
  have cmb: "''combined'' \<in> set (cols big_reviews)" by (simp add: big_reviews_def)
  from subsample_success [OF sorted_big cmb ok]
  obtain out where h: "subsample sort_key toy_encode big_reviews = Inr out" ..
  have a: "length (filter (fits toy_encode) (rws big_reviews)) = 1999"
    by (simp add: big_reviews_def fits_loaded_row)
  have b: "length (filter (\<lambda>r. \<not> fits toy_encode r) (most_recent sort_key big_reviews)) = 1001"
    by (simp add: recent_big fits_loaded_row)
  have c: "length (older sort_key big_reviews) = 1000"
    by (simp add: older_def sorted_rows_def sorted_big top_n_def) (simp add: big_reviews_def)
  note t = subsample_at_most_top_n [OF h mset_sort sorted_sort_key]
  from t [THEN conjunct2, THEN conjunct2, THEN conjunct2, THEN conjunct2, THEN conjunct2]
  have "1000 < length (filter (\<lambda>r. \<not> fits toy_encode r) (most_recent sort_key big_reviews))
          \<longrightarrow> length (rws out) < 1000" .
  then have d: "length (rws out) < 1000" unfolding b by simp
  show ?thesis
    by (intro exI [of _ out] conjI) (rule h a c b d)+
qed

section \<open>Properties of the loading step\<close>

lemma map_zip_same2: "map h (zip xs (map g xs)) = map (\<lambda>x. h (x, g x)) xs"
  by (induction xs) auto

lemma assign_map:
  "assign c (map g (rws f)) f = \<lparr>cols = with_column c (cols f), rws = map (\<lambda>r. r(c \<mapsto> g r)) (rws f)\<rparr>"
  by (simp add: assign_def map_zip_same2)

lemma str_strip_Inr:
  "str_strip cs = Inr xs \<longleftrightarrow> list_all text_cell cs \<and> xs = map strip_cell cs"
  by (auto simp: str_strip_def)

lemma review_series:
  "map to_cell
     (series_add
        (str_add (str_radd ''Title: '' (map strip_cell (map (\<lambda>r. cell_at r ''Summary'') rs)))
           ''; Content: '')
        (map strip_cell (map (\<lambda>r. cell_at r ''Text'') rs)))
   = map review_text rs"
  by (induction rs) (simp_all add: series_add_def str_add_def str_radd_def review_text_def option.map_comp o_def)

lemma load_dataset_Inr:
  assumes "load_dataset df0 = Inr df"
  shows "set review_columns \<subseteq> set (cols df0) \<and>
         cols df = review_columns @ [''combined''] \<and>
         rws df = map with_combined
                    (filter complete (map (\<lambda>r. r |` set review_columns) (rws df0))) \<and>
         (\<forall>r\<in>set (filter complete (map (\<lambda>r. r |` set review_columns) (rws df0))).
             text_cell (cell_at r ''Summary'') \<and> text_cell (cell_at r ''Text''))"
proof -
  let ?rs = "filter complete (map (\<lambda>r. r |` set review_columns) (rws df0))"
  let ?df = "\<lparr>cols = review_columns, rws = ?rs\<rparr> :: 'a frame"
  from assms obtain df1 summary0 summary body0 body where
    s: "select_columns review_columns df0 = Inr df1"
    and g1: "getattr ''Summary'' (dropna df1) = Inr summary0"
    and t1: "str_strip summary0 = Inr summary"
    and g2: "getattr ''Text'' (dropna df1) = Inr body0"
    and t2: "str_strip body0 = Inr body"
    and o: "df = assign ''combined''
            (map to_cell (series_add (str_add (str_radd ''Title: '' summary) ''; Content: '') body))
            (dropna df1)"
    unfolding load_dataset_def Let_def ebind_Inr by auto
  from s have sub: "set review_columns \<subseteq> set (cols df0)"
    and d: "dropna df1 = ?df"
    by (auto simp: select_columns_def dropna_def complete_def [abs_def] split: if_splits)
  from g1 have s0: "summary0 = map (\<lambda>r. cell_at r ''Summary'') ?rs"
    by (auto simp: getattr_def d split: if_splits)
  from g2 have t0: "body0 = map (\<lambda>r. cell_at r ''Text'') ?rs"
    by (auto simp: getattr_def d split: if_splits)
  from t1 have s1: "list_all text_cell summary0" "summary = map strip_cell summary0"
    by (simp_all add: str_strip_Inr)
  from t2 have t3: "list_all text_cell body0" "body = map strip_cell body0"
    by (simp_all add: str_strip_Inr)
  have "df = assign ''combined'' (map review_text (rws ?df)) ?df"
    unfolding o d s1 t3 s0 t0 review_series by simp
  then have "df = \<lparr>cols = with_column ''combined'' review_columns, rws = map with_combined ?rs\<rparr>"
    unfolding assign_map by (simp add: with_combined_def)
  then have "cols df = review_columns @ [''combined'']" "rws df = map with_combined ?rs"
    by (simp_all add: with_column_def review_columns_def)
  moreover from s1(1) t3(1)
  have "\<forall>r\<in>set ?rs. text_cell (cell_at r ''Summary'') \<and> text_cell (cell_at r ''Text'')"
    unfolding s0 t0 list_all_iff by simp
  ultimately show ?thesis using sub by simp
qed

lemma complete_cell:
  "complete r \<Longrightarrow> c \<in> set review_columns \<Longrightarrow> cell_at r c \<noteq> NaN"
  by (simp add: complete_def list_all_iff)

lemma text_cell_Str: "text_cell c \<Longrightarrow> c \<noteq> NaN \<Longrightarrow> \<exists>s. c = Str s"
  by (cases c) simp_all

lemma load_dataset_combined:
  assumes "load_dataset df0 = Inr df"
  shows "\<forall>r\<in>set (rws df). \<exists>s t. cell_at r ''Summary'' = Str s \<and> cell_at r ''Text'' = Str t \<and>
            cell_at r ''combined'' = Str (''Title: '' @ strip s @ ''; Content: '' @ strip t)"
proof
  fix r assume r: "r \<in> set (rws df)"
  let ?rs = "filter complete (map (\<lambda>r. r |` set review_columns) (rws df0))"
  from load_dataset_Inr [OF assms] have rs: "rws df = map with_combined ?rs"
    and tx: "\<forall>r\<in>set ?rs. text_cell (cell_at r ''Summary'') \<and> text_cell (cell_at r ''Text'')"
    by simp_all
  from r rs obtain k where k: "k \<in> set ?rs" and rk: "r = with_combined k" by auto
  from k have c: "complete k" by simp
  from complete_cell [OF c] have "cell_at k ''Summary'' \<noteq> NaN" "cell_at k ''Text'' \<noteq> NaN"
    by (simp_all add: review_columns_def)
  with tx k obtain s t where st: "cell_at k ''Summary'' = Str s" "cell_at k ''Text'' = Str t"
    by (meson text_cell_Str)
  then have "cell_at r ''Summary'' = Str s \<and> cell_at r ''Text'' = Str t \<and>
            cell_at r ''combined'' = Str (''Title: '' @ strip s @ ''; Content: '' @ strip t)"
    by (simp add: rk with_combined_def review_text_def)
  then show "\<exists>s t. cell_at r ''Summary'' = Str s \<and> cell_at r ''Text'' = Str t \<and>
            cell_at r ''combined'' = Str (''Title: '' @ strip s @ ''; Content: '' @ strip t)"
    by blast
qed

section \<open>Properties of the embedding step\<close>

lemma attempt_Str:
  "attempt api engine log (Str s)
     = (api log (sent s) engine, log @ [request engine s])"
  by (simp add: sent_def request_def Let_def)

declare attempt.simps [simp del]

lemma retry_attempt:
  "retry n (\<lambda>l. attempt api engine l (Str s)) log = (r, log') \<Longrightarrow>
     \<exists>k\<le>n. log' = log @ replicate (Suc k) (request engine s) \<and>
       (\<forall>j<k. \<exists>e. api (log @ replicate j (request engine s)) (sent s) engine = Inl e) \<and>
       (case r of
          Inr v \<Rightarrow> api (log @ replicate k (request engine s)) (sent s) engine = Inr v
        | Inl e \<Rightarrow> k = n \<and>
            (\<exists>e'. e = RetryError e' \<and>
                  api (log @ replicate n (request engine s)) (sent s) engine = Inl e'))"
proof (induction n arbitrary: log)
  case 0
  then show ?case
    by (cases "api log (sent s) engine"; cases r) (auto simp: attempt_Str)
next
  case (Suc n)
  let ?rq = "request engine s"
  show ?case
  proof (cases "api log (sent s) engine")
    case (Inr v)
    with Suc.prems have "r = Inr v" "log' = log @ [?rq]" by (simp_all add: attempt_Str)
    with Inr show ?thesis by (intro exI [of _ 0]) simp
  next
    case (Inl e)
    with Suc.prems have "retry n (\<lambda>l. attempt api engine l (Str s)) (log @ [?rq]) = (r, log')"
      by (simp add: attempt_Str)
    from Suc.IH [OF this] obtain k where k: "k \<le> n"
      and l: "log' = (log @ [?rq]) @ replicate (Suc k) ?rq"
      and f: "\<forall>j<k. \<exists>e. api ((log @ [?rq]) @ replicate j ?rq) (sent s) engine = Inl e"
      and c: "case r of
          Inr v \<Rightarrow> api ((log @ [?rq]) @ replicate k ?rq) (sent s) engine = Inr v
        | Inl e \<Rightarrow> k = n \<and>
            (\<exists>e'. e = RetryError e' \<and>
                  api ((log @ [?rq]) @ replicate n ?rq) (sent s) engine = Inl e')"
      by blast
    have a: "(log @ [?rq]) @ replicate j ?rq = log @ replicate (Suc j) ?rq" for j
      by simp
    have "\<exists>e. api (log @ replicate j ?rq) (sent s) engine = Inl e" if "j < Suc k" for j
    proof (cases j)
      case 0
      with Inl show ?thesis by simp
    next
      case (Suc i)
      with that f have "\<exists>e. api ((log @ [?rq]) @ replicate i ?rq) (sent s) engine = Inl e" by simp
      then show ?thesis unfolding a Suc .
    qed
    moreover from l have "log' = log @ replicate (Suc (Suc k)) ?rq" unfolding a by simp
    moreover from c have "case r of
          Inr v \<Rightarrow> api (log @ replicate (Suc k) ?rq) (sent s) engine = Inr v
        | Inl e \<Rightarrow> Suc k = Suc n \<and>
            (\<exists>e'. e = RetryError e' \<and>
                  api (log @ replicate (Suc n) ?rq) (sent s) engine = Inl e')"
      unfolding a by (simp split: sum.splits)
    ultimately show ?thesis using k by (intro exI [of _ "Suc k"]) simp
  qed
qed

lemma retry_no_string:
  "\<forall>l. f l = (Inl e, l) \<Longrightarrow> retry n f log = (Inl (RetryError e), log)"
  by (induction n) simp_all

lemma get_embedding_no_string:
  "\<forall>s. c \<noteq> Str s \<Longrightarrow> get_embedding api engine log c = (Inl (RetryError AttributeError), log)"
  unfolding get_embedding_def by (rule retry_no_string) (cases c; simp add: attempt.simps)

lemma get_embedding_Inr:
  assumes "get_embedding api engine log c = (Inr v, log')"
  shows "\<exists>s k. c = Str s \<and> k < 6 \<and> log' = log @ replicate (Suc k) (request engine s) \<and>
           (\<forall>j<k. \<exists>e. api (log @ replicate j (request engine s)) (sent s) engine = Inl e) \<and>
           api (log @ replicate k (request engine s)) (sent s) engine = Inr v"
proof (cases "\<exists>s. c = Str s")
  case False
  with get_embedding_no_string [of c api engine log] assms show ?thesis by simp
next
  case True
  then obtain s where s: "c = Str s" ..
  from assms have "retry 5 (\<lambda>l. attempt api engine l (Str s)) log = (Inr v, log')"
    by (simp add: get_embedding_def s)
  from retry_attempt [OF this] obtain k where "k \<le> 5"
    "log' = log @ replicate (Suc k) (request engine s)"
    "\<forall>j<k. \<exists>e. api (log @ replicate j (request engine s)) (sent s) engine = Inl e"
    "api (log @ replicate k (request engine s)) (sent s) engine = Inr v"
    by auto
  then show ?thesis unfolding s by (intro exI [of _ s] exI [of _ k]) (simp del: replicate.simps)
qed

lemma retry_attempt_Inl:
  assumes "retry n (\<lambda>l. attempt api engine l (Str s)) log = (Inl e, log')"
  shows "log' = log @ replicate (Suc n) (request engine s) \<and>
         (\<forall>j<n. \<exists>e. api (log @ replicate j (request engine s)) (sent s) engine = Inl e) \<and>
         (\<exists>e'. e = RetryError e' \<and>
               api (log @ replicate n (request engine s)) (sent s) engine = Inl e')"
  using retry_attempt [OF assms] by (auto simp del: replicate.simps)

lemma get_embedding_Inl:
  assumes "get_embedding api engine log (Str s) = (Inl e, log')"
  shows "log' = log @ replicate 6 (request engine s) \<and>
         (\<forall>j<6. \<exists>e. api (log @ replicate j (request engine s)) (sent s) engine = Inl e) \<and>
         (\<exists>e'. e = RetryError e' \<and>
               api (log @ replicate 5 (request engine s)) (sent s) engine = Inl e')"
proof -
  from assms have "retry 5 (\<lambda>l. attempt api engine l (Str s)) log = (Inl e, log')"
    by (simp add: get_embedding_def)
  from retry_attempt_Inl [OF this] have l: "log' = log @ replicate (Suc 5) (request engine s)"
    and f: "\<forall>j<5. \<exists>e. api (log @ replicate j (request engine s)) (sent s) engine = Inl e"
    and x: "\<exists>e'. e = RetryError e' \<and>
               api (log @ replicate 5 (request engine s)) (sent s) engine = Inl e'"
    by blast+
  have "\<exists>e. api (log @ replicate j (request engine s)) (sent s) engine = Inl e" if "j < 6" for j
  proof (cases "j < 5")
    case True
    with f show ?thesis by simp
  next
    case False
    with that have "j = 5" by simp
    with x show ?thesis by auto
  qed
  moreover have "Suc 5 = (6::nat)" by simp
  ultimately show ?thesis using l x by (simp del: replicate.simps)
qed

lemma raised_iff:
  "raised api engine log s k \<longleftrightarrow>
     (\<forall>j<k. \<exists>e. api (log @ replicate j (request engine s)) (sent s) engine = Inl e)"
  by (auto simp: raised_def list_all_iff isl_def)

lemma get_embedding_answered:
  assumes "get_embedding api engine log c = (Inr v, log')"
  shows "\<exists>s k. c = Str s \<and> k < 6 \<and> log' = log @ replicate (Suc k) (request engine s) \<and>
           answered api engine log s k v"
  using get_embedding_Inr [OF assms] unfolding answered_def raised_iff by blast

lemma get_embedding_exhausted:
  assumes "get_embedding api engine log (Str s) = (Inl e, log')"
  shows "log' = log @ replicate 6 (request engine s) \<and>
         (\<exists>e'. e = RetryError e' \<and> exhausted api engine log s e')"
  using get_embedding_Inl [OF assms] unfolding exhausted_def raised_iff by auto

lemma requests_Nil [simp]: "requests engine [] ks = []" "requests engine cs [] = []"
  by (simp_all add: requests_def)

lemma requests_Cons [simp]:
  "requests engine (c # cs) (k # ks)
     = replicate (Suc k) (request engine (text_of c)) @ requests engine cs ks"
  by (simp add: requests_def)

lemma length_requests:
  "length ks = length cs \<Longrightarrow> \<forall>k\<in>set ks. k < 6 \<Longrightarrow>
     length cs \<le> length (requests engine cs ks) \<and> length (requests engine cs ks) \<le> 6 * length cs"
proof (induction cs arbitrary: ks)
  case Nil
  then show ?case by simp
next
  case (Cons c cs)
  then obtain k ks' where ks: "ks = k # ks'" by (cases ks) auto
  with Cons.prems have "length ks' = length cs" "\<forall>k\<in>set ks'. k < 6" "k < 6" by simp_all
  with Cons.IH [of ks'] show ?case by (simp add: ks)
qed

lemma embed_all_Inr:
  "embed_all api engine log cs = (Inr vs, log') \<Longrightarrow>
     \<exists>ks. length ks = length cs \<and> length vs = length cs \<and> (\<forall>k\<in>set ks. k < 6) \<and>
       (\<forall>c\<in>set cs. \<exists>s. c = Str s) \<and>
       log' = log @ requests engine cs ks \<and>
       (\<forall>i<length cs.
           answered api engine (log @ requests engine (take i cs) (take i ks))
             (text_of (cs ! i)) (ks ! i) (vs ! i))"
proof (induction cs arbitrary: log vs)
  case Nil
  then show ?case by simp
next
  case (Cons c cs)
  from Cons.prems obtain v log1 vs' where g: "get_embedding api engine log c = (Inr v, log1)"
    and r: "embed_all api engine log1 cs = (Inr vs', log')"
    and vs: "vs = v # vs'"
    by (auto split: sum.splits prod.splits)
  from get_embedding_answered [OF g] obtain s k where s: "c = Str s" and k: "k < 6"
    and l1: "log1 = log @ replicate (Suc k) (request engine s)"
    and a: "answered api engine log s k v"
    by blast
  from Cons.IH [OF r] obtain ks where ks: "length ks = length cs" "length vs' = length cs"
    "\<forall>k\<in>set ks. k < 6" "\<forall>c\<in>set cs. \<exists>s. c = Str s"
    "log' = log1 @ requests engine cs ks"
    and ih: "\<forall>i<length cs.
           answered api engine (log1 @ requests engine (take i cs) (take i ks))
             (text_of (cs ! i)) (ks ! i) (vs' ! i)"
    by blast
  have "answered api engine (log @ requests engine (take i (c # cs)) (take i (k # ks)))
             (text_of ((c # cs) ! i)) ((k # ks) ! i) (vs ! i)" if "i < length (c # cs)" for i
  proof (cases i)
    case 0
    with a show ?thesis by (simp add: vs s)
  next
    case (Suc j)
    with that ih have "answered api engine (log1 @ requests engine (take j cs) (take j ks))
             (text_of (cs ! j)) (ks ! j) (vs' ! j)" by simp
    then show ?thesis by (simp add: Suc vs l1 s)
  qed
  then show ?case using ks k s l1 vs
    by (intro exI [of _ "k # ks"]) simp
qed

lemma embed_all_Inl:
  "embed_all api engine log cs = (Inl e, log') \<Longrightarrow>
     \<exists>n vs log1. n < length cs \<and>
       embed_all api engine log (take n cs) = (Inr vs, log1) \<and>
       get_embedding api engine log1 (cs ! n) = (Inl e, log')"
proof (induction cs arbitrary: log)
  case Nil
  then show ?case by simp
next
  case (Cons c cs)
  show ?case
  proof (cases "get_embedding api engine log c")
    case (Pair r log1)
    show ?thesis
    proof (cases r)
      case (Inl e1)
      with Pair Cons.prems have "get_embedding api engine log c = (Inl e, log')" by simp
      then show ?thesis by (intro exI [of _ 0] exI [of _ "[]"] exI [of _ log]) simp
    next
      case (Inr v)
      with Pair Cons.prems have "embed_all api engine log1 cs = (Inl e, log')"
        by (auto split: sum.splits prod.splits)
      from Cons.IH [OF this] obtain n vs log2 where "n < length cs"
        "embed_all api engine log1 (take n cs) = (Inr vs, log2)"
        "get_embedding api engine log2 (cs ! n) = (Inl e, log')"
        by blast
      with Pair Inr show ?thesis
        by (intro exI [of _ "Suc n"] exI [of _ "v # vs"] exI [of _ log2]) simp
    qed
  qed
qed

lemma embed_all_stops:
  "embed_all api engine log pre = (Inr vs, log1) \<Longrightarrow>
   get_embedding api engine log1 c = (Inl e, log2) \<Longrightarrow>
   embed_all api engine log (pre @ c # post) = (Inl e, log2)"
proof (induction pre arbitrary: log vs)
  case Nil
  then show ?case by simp
next
  case (Cons x pre)
  from Cons.prems(1) obtain v vs' log' where
    v: "get_embedding api engine log x = (Inr v, log')"
    and r: "embed_all api engine log' pre = (Inr vs', log1)"
    by (auto split: prod.splits sum.splits)
  from Cons.IH [OF r Cons.prems(2)] v show ?case by simp
qed

lemma getattr_Inr:
  "getattr c df = Inr cells \<Longrightarrow> cells = map (\<lambda>r. cell_at r c) (rws df)"
  by (auto simp: getattr_def split: if_splits)

lemma get_embeddings_Inr:
  assumes "get_embeddings api repr df w = (Inr df', w')"
  shows "\<exists>vs. embed_all api embedding_model (calls w) (map (\<lambda>r. cell_at r ''combined'') (rws df))
                 = (Inr vs, calls w') \<and>
           df' = assign ''embedding'' (map Vec vs) df \<and>
           files w' = (files w)(output_datapath \<mapsto> to_csv repr df')"
proof -
  from assms obtain combined vs log where
    g: "getattr ''combined'' df = Inr combined"
    and e: "embed_all api embedding_model (calls w) combined = (Inr vs, log)"
    and d: "df' = assign ''embedding'' (map Vec vs) df"
    and w: "w' = \<lparr>calls = log, files = (files w)(output_datapath \<mapsto> to_csv repr df')\<rparr>"
    by (auto simp: get_embeddings_def Let_def split: sum.splits prod.splits)
  from e d w show ?thesis unfolding getattr_Inr [OF g] by simp
qed

section \<open>Running the embedding step on examples\<close>

lemma retry_first:
  "f log = (Inr v, log') \<Longrightarrow> retry n f log = (Inr v, log')"
  by (cases n) simp_all

lemma get_embedding_first:
  "api log (sent s) engine = Inr v \<Longrightarrow>
     get_embedding api engine log (Str s) = (Inr v, log @ [request engine s])"
  unfolding get_embedding_def by (rule retry_first) (simp add: attempt_Str)

lemma get_embedding_second:
  "api log (sent s) engine = Inl e \<Longrightarrow>
   api (log @ [request engine s]) (sent s) engine = Inr v \<Longrightarrow>
     get_embedding api engine log (Str s) = (Inr v, log @ [request engine s, request engine s])"
proof -
  assume a: "api log (sent s) engine = Inl e"
    and b: "api (log @ [request engine s]) (sent s) engine = Inr v"
  let ?f = "\<lambda>l. attempt api engine l (Str s)"
  have "retry (Suc 4) ?f log = retry 4 ?f (log @ [request engine s])"
    by (simp only: retry.simps attempt_Str a sum.case prod.case)
  also have "\<dots> = (Inr v, (log @ [request engine s]) @ [request engine s])"
    by (rule retry_first) (simp add: attempt_Str b)
  finally show ?thesis by (simp add: get_embedding_def eval_nat_numeral)
qed

lemma retry_down:
  "\<forall>l. api l (sent s) engine = Inl e \<Longrightarrow>
     retry n (\<lambda>l. attempt api engine l (Str s)) log
       = (Inl (RetryError e), log @ replicate (Suc n) (request engine s))"
proof (induction n arbitrary: log)
  case 0
  then show ?case by (simp add: attempt_Str)
next
  case (Suc n)
  from Suc.IH [where log = "log @ [request engine s]"] Suc.prems
  show ?case by (simp add: attempt_Str)
qed

lemma get_embedding_down:
  "\<forall>l. api l (sent s) engine = Inl e \<Longrightarrow>
     get_embedding api engine log (Str s)
       = (Inl (RetryError e), log @ replicate 6 (request engine s))"
proof -
  assume "\<forall>l. api l (sent s) engine = Inl e"
  with retry_down [where api = api and s = s and engine = engine and e = e and n = 5
      and log = log] have
    "get_embedding api engine log (Str s)
       = (Inl (RetryError e), log @ replicate (Suc 5) (request engine s))"
    by (simp add: get_embedding_def)
  moreover have "Suc 5 = (6::nat)" by simp
  ultimately show ?thesis by (simp del: replicate.simps)
qed

lemmas embedding_examples =
  get_embeddings_def getattr_def cell_at_def assign_def with_column_def to_csv_def toy_repr_def
  str_int_def str_nat.simps digit_char_def empty_world_def

lemma sent_examples:
  "sent ''Title: Good; Content: tasty'' = ''Title: Good; Content: tasty''"
  "sent (''Title: A; Content: a'' @ [newline] @ ''b'') = ''Title: A; Content: a b''"
  "sent ''Title: B; Content: c'' = ''Title: B; Content: c''"
  "sent ''first'' = ''first''"
  "sent ''second'' = ''second''"
  by (simp_all add: sent_def replace.simps newline_def)

lemma first_run_eval:
  "first_run = (Inr \<lparr>cols = [''combined'', ''embedding''],
                     rws = [[''combined'' \<mapsto> Str ''Title: Good; Content: tasty'', ''embedding'' \<mapsto> Vec [0]]]\<rparr>,
                \<lparr>calls = [(''Title: Good; Content: tasty'', embedding_model)],
                 files = (\<lambda>p. None)(output_datapath \<mapsto>
                    ([''combined'', ''embedding''], [[''Title: Good; Content: tasty'', ''[0]'']]))\<rparr>)"
proof -
  have "get_embedding drifting_service embedding_model [] (Str ''Title: Good; Content: tasty'')
          = (Inr [0], [] @ [request embedding_model ''Title: Good; Content: tasty''])"
    by (rule get_embedding_first) (simp add: drifting_service_def)
  then show ?thesis
    by (simp add: first_run_def one_review_def embedding_examples request_def sent_examples)
qed

section \<open>Re-running the embedding step\<close>

text \<open>
  C5, as amended: every run of the embedding step that ends without an exception,
  whatever the output file already holds, sends the service new requests for every row, in
  row order: the row's combined text with its line feeds replaced by spaces, under the
  model's name, at least once and at most six times (the request is repeated while it
  raises). It stores in each row the vector that answered the row's last request and
  overwrites the output file with the table so extended. So a run over \<open>n\<close> rows makes
  between \<open>n\<close> and \<open>6 n\<close> new requests; no file is read and no earlier answer is reused.
\<close>

theorem get_embeddings_asks_for_every_row:
  assumes "get_embeddings api repr df w = (Inr df', w')"
  shows "\<exists>ks vs. length ks = length (rws df) \<and> length vs = length (rws df) \<and>
           (\<forall>k\<in>set ks. k < 6) \<and>
           calls w' = calls w @ requests embedding_model (combined_of df) ks \<and>
           (\<forall>i<length (rws df).
               answered api embedding_model
                 (calls w @ requests embedding_model (take i (combined_of df)) (take i ks))
                 (text_of (cell_at (rws df ! i) ''combined'')) (ks ! i) (vs ! i) \<and>
               cell_at (rws df' ! i) ''embedding'' = Vec (vs ! i)) \<and>
           df' = assign ''embedding'' (map Vec vs) df \<and>
           length (calls w) + length (rws df) \<le> length (calls w') \<and>
           length (calls w') \<le> length (calls w) + 6 * length (rws df) \<and>
           files w' = (files w)(output_datapath \<mapsto> to_csv repr df')"
proof -
  from get_embeddings_Inr [OF assms] obtain vs where
    e: "embed_all api embedding_model (calls w) (combined_of df) = (Inr vs, calls w')"
    and d: "df' = assign ''embedding'' (map Vec vs) df"
    and f: "files w' = (files w)(output_datapath \<mapsto> to_csv repr df')"
    unfolding combined_of_def by blast
  from embed_all_Inr [OF e] obtain ks where ks: "length ks = length (combined_of df)"
    and l: "length vs = length (combined_of df)"
    and b: "\<forall>k\<in>set ks. k < 6"
    and c: "calls w' = calls w @ requests embedding_model (combined_of df) ks"
    and a: "\<forall>i<length (combined_of df).
           answered api embedding_model
             (calls w @ requests embedding_model (take i (combined_of df)) (take i ks))
             (text_of (combined_of df ! i)) (ks ! i) (vs ! i)"
    by blast
  have n: "length (combined_of df) = length (rws df)" by (simp add: combined_of_def)
  have "answered api embedding_model
          (calls w @ requests embedding_model (take i (combined_of df)) (take i ks))
          (text_of (cell_at (rws df ! i) ''combined'')) (ks ! i) (vs ! i) \<and>
        cell_at (rws df' ! i) ''embedding'' = Vec (vs ! i)" if "i < length (rws df)" for i
  proof
    from a that n have "answered api embedding_model
             (calls w @ requests embedding_model (take i (combined_of df)) (take i ks))
             (text_of (combined_of df ! i)) (ks ! i) (vs ! i)" by simp
    with that show "answered api embedding_model
          (calls w @ requests embedding_model (take i (combined_of df)) (take i ks))
          (text_of (cell_at (rws df ! i) ''combined'')) (ks ! i) (vs ! i)"
      by (simp add: combined_of_def)
    from that l n show "cell_at (rws df' ! i) ''embedding'' = Vec (vs ! i)"
      by (simp add: d assign_def)
  qed
  moreover from length_requests [OF ks b, of embedding_model]
  have "length (calls w) + length (rws df) \<le> length (calls w')"
    "length (calls w') \<le> length (calls w) + 6 * length (rws df)"
    by (simp_all add: c n)
  ultimately show ?thesis using ks l b c d f n
    by (intro exI [of _ ks] exI [of _ vs]) simp
qed

text \<open>
  C5 as stated fails: the first run saves the vector printed \<open>[0]\<close> for the text; the
  second run, on the same text and model, sends the service the request again and saves
  what it answers now, \<open>[1]\<close>.
\<close>

theorem rerun_calls_service_again:
  "files (snd first_run) output_datapath
     = Some ([''combined'', ''embedding''], [[''Title: Good; Content: tasty'', ''[0]'']]) \<and>
   calls (snd second_run)
     = calls (snd first_run) @ [(''Title: Good; Content: tasty'', ''text-embedding-ada-002'')] \<and>
   files (snd second_run) output_datapath
     = Some ([''combined'', ''embedding''], [[''Title: Good; Content: tasty'', ''[1]'']])"
proof -
  let ?rq = "request embedding_model ''Title: Good; Content: tasty''"
  have "get_embedding drifting_service embedding_model [?rq] (Str ''Title: Good; Content: tasty'')
          = (Inr [1], [?rq] @ [?rq])"
    by (rule get_embedding_first) (simp add: drifting_service_def)
  then show ?thesis
    by (simp add: second_run_def first_run_eval one_review_def embedding_examples request_def
        sent_examples embedding_model_def)
qed

lemma flaky_run_eval:
  "flaky_run = (Inr \<lparr>cols = [''combined'', ''embedding''],
                     rws = [[''combined'' \<mapsto> Str (''Title: A; Content: a'' @ [newline] @ ''b''),
                             ''embedding'' \<mapsto> Vec [1]],
                            [''combined'' \<mapsto> Str ''Title: B; Content: c'',
                             ''embedding'' \<mapsto> Vec [3]]]\<rparr>,
                \<lparr>calls = [(''Title: A; Content: a b'', embedding_model),
                          (''Title: A; Content: a b'', embedding_model),
                          (''Title: B; Content: c'', embedding_model),
                          (''Title: B; Content: c'', embedding_model)],
                 files = (\<lambda>p. None)(output_datapath \<mapsto>
                    ([''combined'', ''embedding''],
                     [[''Title: A; Content: a'' @ [newline] @ ''b'', ''[1]''],
                      [''Title: B; Content: c'', ''[3]'']]))\<rparr>)"
proof -
  let ?a = "''Title: A; Content: a'' @ [newline] @ ''b''" and ?b = "''Title: B; Content: c''"
  let ?ra = "request embedding_model ?a" and ?rb = "request embedding_model ?b"
  have 1: "get_embedding flaky_service embedding_model [] (Str ?a) = (Inr [1], [] @ [?ra, ?ra])"
    by (rule get_embedding_second [where e = "ServiceError ''Rate limit reached''"])
       (simp_all add: flaky_service_def)
  have 2: "get_embedding flaky_service embedding_model [?ra, ?ra] (Str ?b)
             = (Inr [3], [?ra, ?ra] @ [?rb, ?rb])"
    by (rule get_embedding_second [where e = "ServiceError ''Rate limit reached''"])
       (simp_all add: flaky_service_def)
  from 1 2 show ?thesis
    by (simp add: flaky_run_def line_reviews_def embedding_examples request_def sent_def
        replace.simps newline_def)
qed

text \<open>
  Two reviews and a service that raises on every other request: the run ends without an
  exception after four requests, two for each row, the first row's with a space for its
  line feed, and saves the two answers.
\<close>

theorem get_embeddings_asks_for_every_row_witness:
  "\<exists>df' w'. get_embeddings flaky_service toy_repr line_reviews empty_world = (Inr df', w') \<and>
     calls w' = [(''Title: A; Content: a b'', ''text-embedding-ada-002''),
                 (''Title: A; Content: a b'', ''text-embedding-ada-002''),
                 (''Title: B; Content: c'', ''text-embedding-ada-002''),
                 (''Title: B; Content: c'', ''text-embedding-ada-002'')] \<and>
     length (calls empty_world) + length (rws line_reviews) \<le> length (calls w') \<and>
     length (calls w') \<le> length (calls empty_world) + 6 * length (rws line_reviews) \<and>
     files w' = (files empty_world)(output_datapath \<mapsto> to_csv toy_repr df') \<and>
     files w' output_datapath
       = Some ([''combined'', ''embedding''],
               [[''Title: A; Content: a'' @ [newline] @ ''b'', ''[1]''],
                [''Title: B; Content: c'', ''[3]'']])"
proof -
  obtain df' w' where r: "flaky_run = (Inr df', w')"
    using flaky_run_eval by blast
  then have g: "get_embeddings flaky_service toy_repr line_reviews empty_world = (Inr df', w')"
    by (simp add: flaky_run_def)
  from get_embeddings_asks_for_every_row [OF g]
  have t: "length (calls empty_world) + length (rws line_reviews) \<le> length (calls w')"
    "length (calls w') \<le> length (calls empty_world) + 6 * length (rws line_reviews)"
    "files w' = (files empty_world)(output_datapath \<mapsto> to_csv toy_repr df')"
    by blast+
  from r have "calls w' = [(''Title: A; Content: a b'', ''text-embedding-ada-002''),
                 (''Title: A; Content: a b'', ''text-embedding-ada-002''),
                 (''Title: B; Content: c'', ''text-embedding-ada-002''),
                 (''Title: B; Content: c'', ''text-embedding-ada-002'')]"
    "files w' output_datapath
       = Some ([''combined'', ''embedding''],
               [[''Title: A; Content: a'' @ [newline] @ ''b'', ''[1]''],
                [''Title: B; Content: c'', ''[3]'']])"
    unfolding flaky_run_eval by (auto simp: embedding_model_def)
  with g t show ?thesis by (intro exI [of _ df'] exI [of _ w'] conjI)
qed

section \<open>The saved file\<close>

lemma cell_at_restrict: "c \<in> A \<Longrightarrow> cell_at (r |` A) c = cell_at r c"
  by (simp add: cell_at_def)

lemma complete_restrict: "complete (r |` set review_columns) = complete r"
  by (simp add: complete_def list_all_iff cell_at_restrict)

lemma review_text_restrict: "review_text (r |` set review_columns) = review_text r"
  by (simp add: review_text_def cell_at_restrict review_columns_def)

lemma loaded_cells:
  "cell_at (with_combined (r |` set review_columns)) ''combined'' = review_text r"
  "cell_at (with_combined (r |` set review_columns)) ''ProductId'' = cell_at r ''ProductId''"
  "cell_at (with_combined (r |` set review_columns)) ''UserId'' = cell_at r ''UserId''"
  "cell_at (with_combined (r |` set review_columns)) ''Score'' = cell_at r ''Score''"
  "cell_at (with_combined (r |` set review_columns)) ''Summary'' = cell_at r ''Summary''"
  "cell_at (with_combined (r |` set review_columns)) ''Text'' = cell_at r ''Text''"
  by (simp_all add: with_combined_def review_text_restrict)
     (simp_all add: cell_at_restrict review_columns_def)

lemma obtain_dataset_Inr:
  assumes "obtain_dataset srt encode api repr df0 w = (Inr df, w')"
  shows "\<exists>df1 df2. load_dataset df0 = Inr df1 \<and> subsample srt encode df1 = Inr df2 \<and>
           get_embeddings api repr df2 w = (Inr df, w')"
  using assms
  by (auto simp: obtain_dataset_def ebind_def split: sum.splits)

lemma tail_all: "length xs \<le> n \<Longrightarrow> tail n xs = xs"
  by (simp add: tail_def)

lemma subsample_saved_rows:
  assumes "subsample srt encode df1 = Inr df2"
  shows "rws df2 = map (tokenised encode) (saved_rows srt encode df1) \<and>
         cols df2 = with_column ''n_tokens'' (filter (\<lambda>d. d \<noteq> ''Time'') (cols df1)) \<and>
         (\<forall>r\<in>set (saved_rows srt encode df1). \<exists>s toks.
             cell_at r ''combined'' = Str s \<and> encode s = Inr toks \<and>
             n_tokens_of encode r = int (length toks) \<and> length toks \<le> 8000)"
proof -
  from subsample_Inr [OF assms] obtain sdf where
    "sort_values srt ''Time'' df1 = Inr sdf \<and>
     (\<forall>r\<in>set (tail (top_n * 2) (rws sdf)).
               \<exists>n. count_tokens encode (cell_at r ''combined'') = Inr n) \<and>
     cols df2 = with_column ''n_tokens'' (filter (\<lambda>d. d \<noteq> ''Time'') (cols df1)) \<and>
     rws df2 = map (tokenised encode)
                        (tail top_n (filter (fits encode) (tail (top_n * 2) (rws sdf))))" ..
  then have sv: "sort_values srt ''Time'' df1 = Inr sdf"
    and ok: "\<forall>r\<in>set (tail (top_n * 2) (rws sdf)).
               \<exists>n. count_tokens encode (cell_at r ''combined'') = Inr n"
    and c2: "cols df2 = with_column ''n_tokens'' (filter (\<lambda>d. d \<noteq> ''Time'') (cols df1))"
    and r2: "rws df2 = map (tokenised encode)
                        (tail top_n (filter (fits encode) (tail (top_n * 2) (rws sdf))))"
    by simp_all
  from sv have mr: "most_recent srt df1 = tail (top_n * 2) (rws sdf)"
    by (simp add: most_recent_def sorted_rows_def)
  have "\<exists>s toks. cell_at k ''combined'' = Str s \<and> encode s = Inr toks \<and>
             n_tokens_of encode k = int (length toks) \<and> length toks \<le> 8000"
    if k: "k \<in> set (saved_rows srt encode df1)" for k
  proof -
    from k set_tail [of top_n "filter (fits encode) (tail (top_n * 2) (rws sdf))"]
    have kf: "fits encode k" and kk: "k \<in> set (tail (top_n * 2) (rws sdf))"
      by (auto simp: saved_rows_def mr)
    from ok kk obtain n where n: "count_tokens encode (cell_at k ''combined'') = Inr n" by blast
    then obtain s toks where st: "cell_at k ''combined'' = Str s" "encode s = Inr toks"
      "n = int (length toks)"
      by (cases "cell_at k ''combined''") (auto split: sum.splits)
    from n have nk: "n_tokens_of encode k = n" by (simp add: n_tokens_of_def)
    with kf st have "length toks \<le> 8000" by (simp add: fits_def max_tokens_def)
    with st nk show ?thesis by simp
  qed
  with r2 c2 show ?thesis by (simp add: saved_rows_def mr)
qed

lemma saved_rows_subset:
  assumes ss: "subsample srt encode df1 = Inr df2"
    and perm: "\<And>k xs. mset (srt k xs) = mset xs"
  shows "set (saved_rows srt encode df1) \<subseteq> set (rws df1)"
    and "length (rws df1) \<le> 1000 \<Longrightarrow>
           mset (saved_rows srt encode df1) = mset (filter (fits encode) (rws df1))"
proof -
  from subsample_Inr [OF ss] obtain sdf where sv: "sort_values srt ''Time'' df1 = Inr sdf"
    by blast
  from mset_sorted_rows [OF sv perm] have m: "mset (sorted_rows srt df1) = mset (rws df1)" .
  then have "set (sorted_rows srt df1) = set (rws df1)" by (rule mset_eq_setD)
  with set_tail [of top_n "filter (fits encode) (most_recent srt df1)"]
    set_tail [of "top_n * 2" "sorted_rows srt df1"]
  show "set (saved_rows srt encode df1) \<subseteq> set (rws df1)"
    by (auto simp: saved_rows_def most_recent_def)
  assume "length (rws df1) \<le> 1000"
  with m have l: "length (sorted_rows srt df1) \<le> 1000" by (metis size_mset)
  then have "most_recent srt df1 = sorted_rows srt df1"
    by (simp add: most_recent_def top_n_def tail_all)
  moreover have "length (filter (fits encode) (sorted_rows srt df1)) \<le> 1000"
    using l length_filter_le [of "fits encode" "sorted_rows srt df1"] by linarith
  ultimately have "saved_rows srt encode df1 = filter (fits encode) (sorted_rows srt df1)"
    by (simp add: saved_rows_def top_n_def tail_all)
  then show "mset (saved_rows srt encode df1) = mset (filter (fits encode) (rws df1))"
    by (simp add: m)
qed

lemma saved_line_cells:
  "map (\<lambda>c. csv_text repr (cell_at ((tokenised encode r)(''embedding'' \<mapsto> Vec v)) c)) saved_header
     = saved_line repr encode r v"
  by (simp add: saved_header_def saved_line_def tokenised_def)

lemma saved_lines:
  assumes "length rs = length vs"
  shows "map (\<lambda>p. map (\<lambda>c. csv_text repr (cell_at ((fst p)(''embedding'' \<mapsto> snd p)) c)) saved_header)
           (zip (map (tokenised encode) rs) (map Vec vs))
         = map (\<lambda>p. saved_line repr encode (fst p) (snd p)) (zip rs vs)"
  using assms
proof (induction rs vs rule: list_induct2)
  case Nil
  show ?case by simp
next
  case (Cons r rs v vs)
  then show ?case
    by (simp only: list.map zip_Cons_Cons fst_conv snd_conv saved_line_cells)
qed

lemma to_csv_assign:
  "snd (to_csv repr (assign c vals f))
     = map (\<lambda>p. map (\<lambda>d. csv_text repr (cell_at ((fst p)(c \<mapsto> snd p)) d)) (with_column c (cols f)))
         (zip (rws f) vals)"
  by (simp only: to_csv_def assign_def snd_conv frame.simps map_map o_def)

text \<open>
  C4, as amended: when the notebook ends without an exception, the saved file has, after
  the row labels, exactly the columns \<open>ProductId\<close>, \<open>UserId\<close>, \<open>Score\<close>, \<open>Summary\<close>,
  \<open>Text\<close>, \<open>combined\<close>, \<open>n_tokens\<close> and \<open>embedding\<close>, and exactly one line for each row
  that the subsampling step keeps of the loaded table, in that order: the last 1000 of the
  rows within the token limit among the 2000 last rows by \<open>Time\<close>. The line holds the row's
  values in the first five columns, its combined text, its token count, and the vector
  that the embedding service returned for that text, printed as text. Each saved row comes
  from a row of the input with no missing value in the six selected columns and has that
  row's values in the first five columns unchanged; its combined text is built from the
  stripped \<open>Summary\<close> and \<open>Text\<close>, and its token count is the length of the encoding of
  that text, at most 8000. When the input has at most 1000 rows without a missing value,
  every one of them that is within the token limit is saved. The input's \<open>Time\<close> column
  and every column outside the six selected ones are not in the file. The sorting routine
  is assumed to return its input reordered.
\<close>

theorem obtain_dataset_file:
  assumes run: "obtain_dataset srt encode api repr df0 w = (Inr df, w')"
    and perm: "\<And>k xs. mset (srt k xs) = mset xs"
  shows "\<exists>df1 vs.
           load_dataset df0 = Inr df1 \<and>
           embed_all api embedding_model (calls w)
               (map (\<lambda>r. cell_at r ''combined'') (saved_rows srt encode df1))
             = (Inr vs, calls w') \<and>
           length vs = length (saved_rows srt encode df1) \<and>
           files w' output_datapath
             = Some (saved_header,
                     map (\<lambda>p. saved_line repr encode (fst p) (snd p))
                       (zip (saved_rows srt encode df1) vs)) \<and>
           length (saved_rows srt encode df1) \<le> 1000 \<and>
           (\<forall>r\<in>set (saved_rows srt encode df1). \<exists>r0\<in>set (rws df0). \<exists>s t toks.
               complete r0 \<and>
               cell_at r ''ProductId'' = cell_at r0 ''ProductId'' \<and>
               cell_at r ''UserId'' = cell_at r0 ''UserId'' \<and>
               cell_at r ''Score'' = cell_at r0 ''Score'' \<and>
               cell_at r ''Summary'' = cell_at r0 ''Summary'' \<and>
               cell_at r ''Text'' = cell_at r0 ''Text'' \<and>
               cell_at r0 ''Summary'' = Str s \<and> cell_at r0 ''Text'' = Str t \<and>
               cell_at r ''combined'' = Str (''Title: '' @ strip s @ ''; Content: '' @ strip t) \<and>
               encode (''Title: '' @ strip s @ ''; Content: '' @ strip t) = Inr toks \<and>
               n_tokens_of encode r = int (length toks) \<and> length toks \<le> 8000) \<and>
           (length (filter complete (rws df0)) \<le> 1000 \<longrightarrow>
              mset (saved_rows srt encode df1) = mset (filter (fits encode) (rws df1)))"
proof -
  from obtain_dataset_Inr [OF run] obtain df1 df2 where
    ld: "load_dataset df0 = Inr df1" and ss: "subsample srt encode df1 = Inr df2"
    and ge: "get_embeddings api repr df2 w = (Inr df, w')" by blast
  let ?rs0 = "filter complete (map (\<lambda>r. r |` set review_columns) (rws df0))"
  let ?kept = "saved_rows srt encode df1"
  from load_dataset_Inr [OF ld] have c1: "cols df1 = review_columns @ [''combined'']"
    and r1: "rws df1 = map with_combined ?rs0"
    and tx: "\<forall>r\<in>set ?rs0. text_cell (cell_at r ''Summary'') \<and> text_cell (cell_at r ''Text'')"
    by simp_all
  from subsample_saved_rows [OF ss] have r2: "rws df2 = map (tokenised encode) ?kept"
    and c2: "cols df2 = with_column ''n_tokens'' (filter (\<lambda>d. d \<noteq> ''Time'') (cols df1))"
    and tk: "\<forall>r\<in>set ?kept. \<exists>s toks.
             cell_at r ''combined'' = Str s \<and> encode s = Inr toks \<and>
             n_tokens_of encode r = int (length toks) \<and> length toks \<le> 8000"
    by simp_all
  from get_embeddings_Inr [OF ge] obtain vs where
    e: "embed_all api embedding_model (calls w) (map (\<lambda>r. cell_at r ''combined'') (rws df2))
          = (Inr vs, calls w')"
    and d: "df = assign ''embedding'' (map Vec vs) df2"
    and f: "files w' = (files w)(output_datapath \<mapsto> to_csv repr df)"
    by blast
  have "map (\<lambda>r. cell_at r ''combined'') (rws df2) = map (\<lambda>r. cell_at r ''combined'') ?kept"
    by (simp add: r2 tokenised_def)
  with e have e': "embed_all api embedding_model (calls w) (map (\<lambda>r. cell_at r ''combined'') ?kept)
          = (Inr vs, calls w')" by simp
  from embed_all_Inr [OF e'] have lv: "length vs = length ?kept" by auto
  have hd: "with_column ''embedding'' (cols df2) = saved_header"
    by (simp add: c2 c1 with_column_def review_columns_def saved_header_def)
  then have "fst (to_csv repr df) = saved_header"
    by (simp add: to_csv_def d assign_def)
  moreover have "snd (to_csv repr df)
      = map (\<lambda>p. saved_line repr encode (fst p) (snd p)) (zip ?kept vs)"
    unfolding d to_csv_assign hd r2 using lv by (intro saved_lines) simp
  ultimately have saved: "files w' output_datapath
             = Some (saved_header,
                     map (\<lambda>p. saved_line repr encode (fst p) (snd p)) (zip ?kept vs))"
    unfolding f by (simp add: prod_eq_iff)
  have len: "length ?kept \<le> 1000"
    by (simp add: saved_rows_def length_tail top_n_def)
  have rows: "\<exists>r0\<in>set (rws df0). \<exists>s t toks.
               complete r0 \<and>
               cell_at r ''ProductId'' = cell_at r0 ''ProductId'' \<and>
               cell_at r ''UserId'' = cell_at r0 ''UserId'' \<and>
               cell_at r ''Score'' = cell_at r0 ''Score'' \<and>
               cell_at r ''Summary'' = cell_at r0 ''Summary'' \<and>
               cell_at r ''Text'' = cell_at r0 ''Text'' \<and>
               cell_at r0 ''Summary'' = Str s \<and> cell_at r0 ''Text'' = Str t \<and>
               cell_at r ''combined'' = Str (''Title: '' @ strip s @ ''; Content: '' @ strip t) \<and>
               encode (''Title: '' @ strip s @ ''; Content: '' @ strip t) = Inr toks \<and>
               n_tokens_of encode r = int (length toks) \<and> length toks \<le> 8000"
    if r: "r \<in> set ?kept" for r
  proof -
    from r saved_rows_subset(1) [OF ss perm] have "r \<in> set (rws df1)" by blast
    with r1 obtain r0 where r0: "r0 \<in> set (rws df0)" and c0: "complete r0"
      and rr: "r = with_combined (r0 |` set review_columns)"
      by (auto simp: complete_restrict)
    from r0 c0 have k: "r0 |` set review_columns \<in> set ?rs0" by (simp add: complete_restrict)
    from complete_cell [OF c0] have "cell_at r0 ''Summary'' \<noteq> NaN" "cell_at r0 ''Text'' \<noteq> NaN"
      by (simp_all add: review_columns_def)
    moreover from tx k have
      "text_cell (cell_at (r0 |` set review_columns) ''Summary'') \<and>
       text_cell (cell_at (r0 |` set review_columns) ''Text'')" by (rule bspec)
    then have "text_cell (cell_at r0 ''Summary'')" "text_cell (cell_at r0 ''Text'')"
      by (simp_all add: cell_at_restrict review_columns_def)
    ultimately obtain s t where st: "cell_at r0 ''Summary'' = Str s" "cell_at r0 ''Text'' = Str t"
      by (meson text_cell_Str)
    then have cb: "cell_at r ''combined'' = Str (''Title: '' @ strip s @ ''; Content: '' @ strip t)"
      by (simp add: rr loaded_cells review_text_def)
    from tk r cb obtain toks where
      "encode (''Title: '' @ strip s @ ''; Content: '' @ strip t) = Inr toks"
      "n_tokens_of encode r = int (length toks)" "length toks \<le> 8000"
      by fastforce
    with r0 c0 st cb show ?thesis
      by (intro bexI [of _ r0] exI [of _ s] exI [of _ t] exI [of _ toks])
         (simp_all add: rr loaded_cells)
  qed
  have all: "mset ?kept = mset (filter (fits encode) (rws df1))"
    if "length (filter complete (rws df0)) \<le> 1000"
  proof -
    have "length (rws df1) = length (filter complete (rws df0))"
      by (simp add: r1 filter_map o_def complete_restrict)
    with that have "length (rws df1) \<le> 1000" by simp
    then show ?thesis by (rule saved_rows_subset(2) [OF ss perm])
  qed
  from ld e' lv saved len rows all show ?thesis
    by (intro exI [of _ df1] exI [of _ vs] conjI ballI impI)
qed

text \<open>The definitions a run of the notebook on a concrete table unfolds.\<close>

lemmas pipeline_defs =
  obtain_dataset_def load_dataset_def subsample_def get_embeddings_def
  select_columns_def dropna_def getattr_def str_strip_def str_radd_def str_add_def series_add_def
  assign_def with_column_def sort_values_def tail_rows_def tail_def drop_column_def mask_def
  to_csv_def ebind_def cell_at_def review_columns_def top_n_def max_tokens_def
  strip_eval str_int_def str_nat.simps digit_char_def

lemma drifting_get_embedding:
  "get_embedding drifting_service engine log (Str s)
     = (Inr [int (length log)], log @ [request engine s])"
  by (rule get_embedding_first) (simp add: drifting_service_def)

lemma example_run:
  "\<exists>df. obtain_dataset sort_key toy_encode drifting_service toy_repr example_reviews empty_world
     = (Inr df,
        \<lparr>calls = [(''Title: Bad; Content: stale'', embedding_model),
                  (''Title: Good; Content: tasty'', embedding_model)],
         files = (\<lambda>p. None)(output_datapath \<mapsto>
           ([''ProductId'', ''UserId'', ''Score'', ''Summary'', ''Text'',
             ''combined'', ''n_tokens'', ''embedding''],
            [[''P1'', ''U1'', ''5'', ''Bad'', '' stale'', ''Title: Bad; Content: stale'', ''26'', ''[0]''],
             [''P1'', ''U1'', ''5'', '' Good '', ''tasty'', ''Title: Good; Content: tasty'', ''27'', ''[1]'']]))\<rparr>)"
  by (simp add: pipeline_defs example_reviews_def review_row_def toy_encode_def
      drifting_get_embedding request_def sent_def replace.simps newline_def
      toy_repr_def empty_world_def Let_def)

text \<open>
  C4 as stated fails: the input table has a \<open>Time\<close> column (and an \<open>Id\<close> column); the
  saved file has neither, and it has an \<open>n_tokens\<close> column besides \<open>combined\<close> and
  \<open>embedding\<close>.
\<close>

theorem saved_file_drops_time:
  "''Time'' \<in> set (cols example_reviews) \<and>
   files (snd (obtain_dataset sort_key toy_encode drifting_service toy_repr
                 example_reviews empty_world)) output_datapath
     = Some ([''ProductId'', ''UserId'', ''Score'', ''Summary'', ''Text'',
              ''combined'', ''n_tokens'', ''embedding''],
             [[''P1'', ''U1'', ''5'', ''Bad'', '' stale'', ''Title: Bad; Content: stale'', ''26'', ''[0]''],
              [''P1'', ''U1'', ''5'', '' Good '', ''tasty'', ''Title: Good; Content: tasty'', ''27'', ''[1]'']])"
proof -
  from example_run obtain df where
    "obtain_dataset sort_key toy_encode drifting_service toy_repr example_reviews empty_world
     = (Inr df,
        \<lparr>calls = [(''Title: Bad; Content: stale'', embedding_model),
                  (''Title: Good; Content: tasty'', embedding_model)],
         files = (\<lambda>p. None)(output_datapath \<mapsto>
           ([''ProductId'', ''UserId'', ''Score'', ''Summary'', ''Text'',
             ''combined'', ''n_tokens'', ''embedding''],
            [[''P1'', ''U1'', ''5'', ''Bad'', '' stale'', ''Title: Bad; Content: stale'', ''26'', ''[0]''],
             [''P1'', ''U1'', ''5'', '' Good '', ''tasty'', ''Title: Good; Content: tasty'', ''27'', ''[1]'']]))\<rparr>)" ..
  then show ?thesis by (simp add: example_reviews_def)
qed

text \<open>
  The example ends without an exception. Both input rows are complete and within the
  token limit, and both are saved, the earlier one first.
\<close>

theorem obtain_dataset_file_witness:
  "\<exists>df w' df1 vs.
     obtain_dataset sort_key toy_encode drifting_service toy_repr example_reviews empty_world
       = (Inr df, w') \<and>
     load_dataset example_reviews = Inr df1 \<and>
     length (saved_rows sort_key toy_encode df1) = 2 \<and>
     length vs = 2 \<and>
     mset (saved_rows sort_key toy_encode df1) = mset (filter (fits toy_encode) (rws df1)) \<and>
     files w' output_datapath
       = Some (saved_header,
               map (\<lambda>p. saved_line toy_repr toy_encode (fst p) (snd p))
                 (zip (saved_rows sort_key toy_encode df1) vs)) \<and>
     files w' output_datapath
       = Some ([''ProductId'', ''UserId'', ''Score'', ''Summary'', ''Text'',
                ''combined'', ''n_tokens'', ''embedding''],
               [[''P1'', ''U1'', ''5'', ''Bad'', '' stale'', ''Title: Bad; Content: stale'',
                 ''26'', ''[0]''],
                [''P1'', ''U1'', ''5'', '' Good '', ''tasty'', ''Title: Good; Content: tasty'',
                 ''27'', ''[1]'']])"
proof -
  from example_run obtain df w' where
    h: "obtain_dataset sort_key toy_encode drifting_service toy_repr example_reviews empty_world
       = (Inr df, w')"
    and x: "files w' output_datapath
       = Some ([''ProductId'', ''UserId'', ''Score'', ''Summary'', ''Text'',
                ''combined'', ''n_tokens'', ''embedding''],
               [[''P1'', ''U1'', ''5'', ''Bad'', '' stale'', ''Title: Bad; Content: stale'',
                 ''26'', ''[0]''],
                [''P1'', ''U1'', ''5'', '' Good '', ''tasty'', ''Title: Good; Content: tasty'',
                 ''27'', ''[1]'']])"
    by fastforce
  from obtain_dataset_file [OF h mset_sort] obtain df1 vs where
    ld: "load_dataset example_reviews = Inr df1"
    and lv: "length vs = length (saved_rows sort_key toy_encode df1)"
    and f: "files w' output_datapath
             = Some (saved_header,
                     map (\<lambda>p. saved_line toy_repr toy_encode (fst p) (snd p))
                       (zip (saved_rows sort_key toy_encode df1) vs))"
    and a: "length (filter complete (rws example_reviews)) \<le> 1000 \<longrightarrow>
              mset (saved_rows sort_key toy_encode df1) = mset (filter (fits toy_encode) (rws df1))"
    by blast
  have "length (filter complete (rws example_reviews)) \<le> length (rws example_reviews)"
    by (rule length_filter_le)
  then have "length (filter complete (rws example_reviews)) \<le> 1000"
    by (simp add: example_reviews_def)
  with a have m: "mset (saved_rows sort_key toy_encode df1)
                    = mset (filter (fits toy_encode) (rws df1))" by simp
  from f x have "map (\<lambda>p. saved_line toy_repr toy_encode (fst p) (snd p))
                       (zip (saved_rows sort_key toy_encode df1) vs)
      = [[''P1'', ''U1'', ''5'', ''Bad'', '' stale'', ''Title: Bad; Content: stale'',
                 ''26'', ''[0]''],
                [''P1'', ''U1'', ''5'', '' Good '', ''tasty'', ''Title: Good; Content: tasty'',
                 ''27'', ''[1]'']]"
    by simp
  then have "length (map (\<lambda>p. saved_line toy_repr toy_encode (fst p) (snd p))
                       (zip (saved_rows sort_key toy_encode df1) vs)) = 2"
    by (simp only: list.size)
  with lv have n: "length (saved_rows sort_key toy_encode df1) = 2" "length vs = 2" by simp_all
  from h ld n m f x show ?thesis
    by (intro exI [of _ df] exI [of _ w'] exI [of _ df1] exI [of _ vs] conjI)
qed

section \<open>The combined field of the transactions notebook\<close>

lemma transaction_series:
  "map to_cell
     (str_add
        (str_add
           (series_add
              (str_add (str_radd ''Supplier: '' (map strip_cell (map (\<lambda>r. cell_at r ''Supplier'') rs)))
                 ''; Description: '')
              (map strip_cell (map (\<lambda>r. cell_at r ''Description'') rs)))
           ''; Value: '')
        v)
   = map (\<lambda>r. to_cell
            (map_option (\<lambda>s. s @ ''; Value: '' @ v)
               (cat_opt
                  (map_option (\<lambda>s. ''Supplier: '' @ s @ ''; Description: '')
                     (strip_cell (cell_at r ''Supplier'')))
                  (strip_cell (cell_at r ''Description''))))) rs"
  by (induction rs)
     (simp_all add: series_add_def str_add_def str_radd_def option.map_comp o_def)

text \<open>
  What the transactions notebook stores: the value part of every row's combined text is
  the stripped text of the whole value column, the same for all rows.
\<close>

lemma combine_transactions_Inr:
  assumes "combine_transactions series_str df = Inr out"
  shows "rws out =
          map (\<lambda>r. r(''combined'' \<mapsto> to_cell
                 (map_option
                    (\<lambda>s. s @ ''; Value: '' @ strip (series_str (map (\<lambda>r. cell_at r value_column) (rws df))))
                    (cat_opt
                       (map_option (\<lambda>s. ''Supplier: '' @ s @ ''; Description: '')
                          (strip_cell (cell_at r ''Supplier'')))
                       (strip_cell (cell_at r ''Description'')))))) (rws df)"
proof -
  from assms obtain s0 s d0 d v where
    g1: "getitem ''Supplier'' df = Inr s0" and t1: "str_strip s0 = Inr s"
    and g2: "getitem ''Description'' df = Inr d0" and t2: "str_strip d0 = Inr d"
    and g3: "getitem value_column df = Inr v"
    and o: "out = assign ''combined''
            (map to_cell
               (str_add (str_add (series_add
                        (str_add (str_radd ''Supplier: '' s) ''; Description: '') d)
                     ''; Value: '') (strip (series_str v)))) df"
    unfolding combine_transactions_def ebind_Inr by auto
  from g1 have s0: "s0 = map (\<lambda>r. cell_at r ''Supplier'') (rws df)"
    by (auto simp: getitem_def split: if_splits)
  from g2 have d0: "d0 = map (\<lambda>r. cell_at r ''Description'') (rws df)"
    by (auto simp: getitem_def split: if_splits)
  from g3 have v: "v = map (\<lambda>r. cell_at r value_column) (rws df)"
    by (auto simp: getitem_def split: if_splits)
  from t1 have s: "s = map strip_cell s0" by (simp add: str_strip_Inr)
  from t2 have d: "d = map strip_cell d0" by (simp add: str_strip_Inr)
  show ?thesis
    unfolding o s d s0 d0 transaction_series assign_map by (simp add: v)
qed

lemma strip_examples: "strip ''ACME Ltd '' = ''ACME Ltd''" "strip ''Books'' = ''Books''"
  by (simp_all add: strip_eval)

text \<open>
  C1: in the reviews notebook the combined text of every loaded row is \<open>Title:\<close>, the
  stripped summary, \<open>; Content:\<close> and the stripped text of that row (lemma
  \<open>load_dataset_combined\<close>). In the transactions notebook the value part is not the row's
  own value: whatever text pandas prints for a column, two rows with the same supplier and
  description and the values 100 and 200 receive one and the same combined text, where the
  specification's wording gives them two different texts.
\<close>

theorem combine_transactions_same_value_text:
  "\<exists>df t. combine_transactions series_str two_transactions = Inr df \<and>
     map (\<lambda>r. cell_at r ''combined'') (rws df) = [Str t, Str t] \<and>
     map (spec_transaction_text repr) (rws two_transactions)
       = [Str ''Supplier: ACME Ltd; Description: Books; Value: 100'',
          Str ''Supplier: ACME Ltd; Description: Books; Value: 200''] \<and>
     map (\<lambda>r. cell_at r ''combined'') (rws df)
       \<noteq> map (spec_transaction_text repr) (rws two_transactions)"
proof -
  let ?t = "''Supplier: ACME Ltd; Description: Books; Value: ''
              @ strip (series_str [Num 100, Num 200])"
  have "\<exists>df. combine_transactions series_str two_transactions = Inr df \<and>
     map (\<lambda>r. cell_at r ''combined'') (rws df) = [Str ?t, Str ?t]"
    by (simp add: combine_transactions_def two_transactions_def example_transaction_def value_column_def
      getitem_def ebind_def str_strip_def cell_at_def strip_examples str_radd_def str_add_def
      series_add_def assign_def with_column_def)
  then obtain df where
    h: "combine_transactions series_str two_transactions = Inr df \<and>
     map (\<lambda>r. cell_at r ''combined'') (rws df) = [Str ?t, Str ?t]" ..
  have sp: "map (spec_transaction_text repr) (rws two_transactions)
       = [Str ''Supplier: ACME Ltd; Description: Books; Value: 100'',
          Str ''Supplier: ACME Ltd; Description: Books; Value: 200'']"
    by (simp add: two_transactions_def example_transaction_def value_column_def cell_at_def
        spec_transaction_text_def strip_eval str_int_def str_nat.simps digit_char_def)
  have "[Str ?t, Str ?t] \<noteq> ([Str ''Supplier: ACME Ltd; Description: Books; Value: 100'',
          Str ''Supplier: ACME Ltd; Description: Books; Value: 200''] :: int list cell list)"
    by auto
  with h sp show ?thesis by (intro exI [of _ df] exI [of _ ?t]) simp
qed

section \<open>Properties of the check of the fine-tuning files\<close>

lemma digit_char_digit: "d < 10 \<Longrightarrow> digit_char d \<in> set ''0123456789''"
  unfolding digit_char_def by (rule nth_mem) simp

lemma str_nat_digits: "set (str_nat n) \<subseteq> set ''0123456789''"
proof (induction n rule: str_nat.induct)
  case (1 n)
  show ?case
  proof (cases "n < 10")
    case True
    with digit_char_digit [of n] show ?thesis
      by (subst str_nat.simps) simp
  next
    case False
    have "n mod 10 < 10" by simp
    from digit_char_digit [OF this] "1.IH" [OF False] False show ?thesis
      by (subst str_nat.simps) simp
  qed
qed

lemma str_nat_not_all_good: "str_nat n \<noteq> ''All good''"
proof
  assume "str_nat n = ''All good''"
  then have "CHR ''A'' \<in> set (str_nat n)" by simp
  with str_nat_digits [of n] show False by auto
qed

lemma readable_Nil [simp]: "readable []"
  by (simp add: readable_def)

lemma readable_Cons [simp]:
  "readable (l # ls) \<longleftrightarrow> (\<exists>k. completion_of l = Inr k) \<and> readable ls"
  by (cases "completion_of l") (simp_all add: readable_def)

lemma classes_Nil [simp]: "classes [] = {}"
  by (simp add: classes_def)

lemma classes_Cons_Inr [simp]: "completion_of l = Inr k \<Longrightarrow> classes (l # ls) = insert k (classes ls)"
  by (simp add: classes_def)

lemma add_classes_readable:
  "readable ls \<Longrightarrow> add_classes ls acc = Inr (acc \<union> classes ls)"
proof (induction ls arbitrary: acc)
  case Nil
  then show ?case by simp
next
  case (Cons l ls)
  then obtain k where k: "completion_of l = Inr k" and r: "readable ls" by auto
  from Cons.IH [OF r, of "insert k acc"] k show ?case by simp
qed

lemma add_classes_Inr: "add_classes ls acc = Inr s \<Longrightarrow> readable ls \<and> s = acc \<union> classes ls"
proof (induction ls arbitrary: acc)
  case Nil
  then show ?case by simp
next
  case (Cons l ls)
  show ?case
  proof (cases "completion_of l")
    case (Inl e)
    with Cons.prems show ?thesis by simp
  next
    case (Inr k)
    with Cons.prems have "add_classes ls (insert k acc) = Inr s" by simp
    from Cons.IH [OF this] Inr show ?thesis by simp
  qed
qed

lemma add_classes_Inl: "add_classes ls acc = Inl e \<Longrightarrow> \<not> readable ls"
  using add_classes_readable [of ls acc] by auto

lemma check_finetune_classes_readable:
  assumes "fs train_file = Some trl" "fs valid_file = Some val" "readable trl" "readable val"
  shows "check_finetune_classes fs train_file valid_file =
           ([str_nat (length trl), str_nat (length val),
             if card (classes trl) = card (classes val) then ''All good''
             else ''Classes do not match, please prepare data again''], None)"
proof -
  from assms(3) have t: "add_classes trl {} = Inr (classes trl)"
    using add_classes_readable [of trl "{}"] by simp
  from assms(4) have v: "add_classes val {} = Inr (classes val)"
    using add_classes_readable [of val "{}"] by simp
  show ?thesis
    by (simp add: check_finetune_classes_def assms(1,2) t v)
qed

lemma all_good_needs_files:
  assumes "''All good'' \<in> set (fst (check_finetune_classes fs train_file valid_file))"
  shows "\<exists>trl val. fs train_file = Some trl \<and> fs valid_file = Some val \<and> readable trl \<and> readable val \<and>
        card (classes trl) = card (classes val)"
proof (cases "fs train_file")
  case None
  with assms show ?thesis by (simp add: check_finetune_classes_def)
next
  case (Some trl)
  note trl = this
  show ?thesis
  proof (cases "add_classes trl {}")
    case (Inl e)
    with assms trl show ?thesis
      by (simp add: check_finetune_classes_def str_nat_not_all_good [symmetric])
  next
    case (Inr tc)
    note tc = this
    from add_classes_Inr [OF tc] have rt: "readable trl" by simp
    show ?thesis
    proof (cases "fs valid_file")
      case None
      with assms trl tc show ?thesis
        by (simp add: check_finetune_classes_def str_nat_not_all_good [symmetric])
    next
      case (Some val)
      note val = this
      show ?thesis
      proof (cases "add_classes val {}")
        case (Inl e)
        with assms trl val tc show ?thesis
          by (simp add: check_finetune_classes_def str_nat_not_all_good [symmetric])
      next
        case (Inr vc)
        from add_classes_Inr [OF Inr] have rv: "readable val" by simp
        have "card (classes trl) = card (classes val)"
        proof (rule ccontr)
          assume "card (classes trl) \<noteq> card (classes val)"
          with assms show False
            unfolding check_finetune_classes_readable [OF trl val rt rv]
            by (simp add: str_nat_not_all_good [symmetric])
        qed
        with trl val rt rv show ?thesis by blast
      qed
    qed
  qed
qed

lemma all_good_printed:
  "''All good'' \<in> set (fst (check_finetune_classes fs train_file valid_file)) \<longleftrightarrow>
     (\<exists>trl val. fs train_file = Some trl \<and> fs valid_file = Some val \<and> readable trl \<and> readable val \<and>
        card (classes trl) = card (classes val))"
proof
  assume "''All good'' \<in> set (fst (check_finetune_classes fs train_file valid_file))"
  then show "\<exists>trl val. fs train_file = Some trl \<and> fs valid_file = Some val \<and> readable trl \<and> readable val \<and>
        card (classes trl) = card (classes val)"
    by (rule all_good_needs_files)
next
  assume "\<exists>trl val. fs train_file = Some trl \<and> fs valid_file = Some val \<and> readable trl \<and> readable val \<and>
        card (classes trl) = card (classes val)"
  then obtain trl val where "fs train_file = Some trl" "fs valid_file = Some val" "readable trl"
    "readable val" "card (classes trl) = card (classes val)" by blast
  then show "''All good'' \<in> set (fst (check_finetune_classes fs train_file valid_file))"
    by (simp add: check_finetune_classes_readable)
qed

lemma example_classes:
  "classes [example_line ''a'' '' 0'', example_line ''b'' '' 1'', example_line ''c'' '' 0'']
     = {KStr '' 0'', KStr '' 1''}"
  "classes [example_line ''d'' '' 1'', example_line ''e'' '' 2''] = {KStr '' 1'', KStr '' 2''}"
  by (simp_all add: classes_def example_line_def insert_commute)

lemma example_readable:
  "readable [example_line ''a'' '' 0'', example_line ''b'' '' 1'', example_line ''c'' '' 0'']"
  "readable [example_line ''d'' '' 1'', example_line ''e'' '' 2'']"
  by (simp_all add: example_line_def)

text \<open>
  C8: \<open>check_finetune_classes\<close> prints \<open>All good\<close> exactly when both files can be read,
  every line of them has a completion value, and the two files have the same number of
  distinct completion values. Only the numbers are compared: the example files have the
  class sets \<open>{0, 1}\<close> and \<open>{1, 2}\<close>, which differ, and the check prints \<open>All good\<close>.
\<close>

theorem check_finetune_classes_compares_sizes:
  "(''All good'' \<in> set (fst (check_finetune_classes fs train_file valid_file)) \<longleftrightarrow>
     (\<exists>trl val. fs train_file = Some trl \<and> fs valid_file = Some val \<and>
        readable trl \<and> readable val \<and> card (classes trl) = card (classes val))) \<and>
   (\<exists>trl val. example_files ''train.jsonl'' = Some trl \<and> example_files ''valid.jsonl'' = Some val \<and>
      classes trl \<noteq> classes val \<and>
      check_finetune_classes example_files ''train.jsonl'' ''valid.jsonl''
        = ([''3'', ''2'', ''All good''], None))"
proof
  show "''All good'' \<in> set (fst (check_finetune_classes fs train_file valid_file)) \<longleftrightarrow>
     (\<exists>trl val. fs train_file = Some trl \<and> fs valid_file = Some val \<and>
        readable trl \<and> readable val \<and> card (classes trl) = card (classes val))"
    by (rule all_good_printed)
next
  let ?tr = "[example_line ''a'' '' 0'', example_line ''b'' '' 1'', example_line ''c'' '' 0'']"
  let ?va = "[example_line ''d'' '' 1'', example_line ''e'' '' 2'']"
  have t: "example_files ''train.jsonl'' = Some ?tr" and v: "example_files ''valid.jsonl'' = Some ?va"
    by (simp_all add: example_files_def)
  have "KStr '' 0'' \<in> classes ?tr" and "KStr '' 0'' \<notin> classes ?va"
    unfolding example_classes by simp_all
  then have ne: "classes ?tr \<noteq> classes ?va" by metis
  have "check_finetune_classes example_files ''train.jsonl'' ''valid.jsonl''
        = ([''3'', ''2'', ''All good''], None)"
    unfolding check_finetune_classes_readable [OF t v example_readable] example_classes
    by (simp add: str_nat.simps digit_char_def)
  then show "\<exists>trl val. example_files ''train.jsonl'' = Some trl \<and>
      example_files ''valid.jsonl'' = Some val \<and> classes trl \<noteq> classes val \<and>
      check_finetune_classes example_files ''train.jsonl'' ''valid.jsonl''
        = ([''3'', ''2'', ''All good''], None)"
    by (intro exI [of _ ?tr] exI [of _ ?va] conjI) (rule t v ne, rule v, rule ne)
qed

section \<open>Properties of the zero-shot classification\<close>

lemma replace_remove: "replace [c] [] s = filter (\<lambda>x. x \<noteq> c) s"
  by (induction s) (auto simp: replace.simps)

lemma ebind_Inr_eq [simp]: "ebind (Inr x) k = k x"
  by (simp add: ebind_def)

lemma ebind_Inl_eq [simp]: "ebind (Inl e) k = Inl e"
  by (simp add: ebind_def)

lemma interpolate_fields:
  assumes "transaction ''Supplier'' = Some (Str s)"
    and "transaction ''Description'' = Some (Str d)"
    and "transaction value_column = Some v"
  shows "interpolate repr transaction template
     = Inr (replace ''TRANSACTION_VALUE'' (str_cell repr v)
             (replace ''DESCRIPTION_TEXT'' d (replace ''SUPPLIER_NAME'' s template)))"
  by (simp add: interpolate_def field_def assms)

lemma classify_transaction_Inr:
  assumes "interpolate repr transaction template = Inr p"
    and "api log (create_request p) = Inr response"
    and "choices response = c # cs"
  shows "classify_transaction api repr log transaction template
     = (Inr (filter (\<lambda>ch. ch \<noteq> newline) (choice_text c)), log @ [create_request p])"
  by (simp add: classify_transaction_def request_completion_def assms replace_remove)

lemma classify_transaction_Inl:
  assumes "interpolate repr transaction template = Inr p"
    and "api log (create_request p) = Inl e"
  shows "classify_transaction api repr log transaction template = (Inl e, log @ [create_request p])"
  by (simp add: classify_transaction_def request_completion_def assms)

text \<open>
  C10: for a transaction whose supplier and description are strings, when the service
  answers with at least one choice, \<open>classify_transaction\<close> returns the text of the first
  choice with every newline character removed. The prompt of the one request it makes is
  the template after the three replacements of the source, in the source's order: every
  occurrence of \<open>SUPPLIER_NAME\<close> by the supplier, then of \<open>DESCRIPTION_TEXT\<close> by the
  description, then of \<open>TRANSACTION_VALUE\<close> by the string of the value.
\<close>

theorem classify_transaction_result:
  assumes "transaction ''Supplier'' = Some (Str s)"
    and "transaction ''Description'' = Some (Str d)"
    and "transaction value_column = Some v"
    and "p = replace ''TRANSACTION_VALUE'' (str_cell repr v)
               (replace ''DESCRIPTION_TEXT'' d (replace ''SUPPLIER_NAME'' s template))"
    and "api log (create_request p) = Inr response"
    and "choices response = c # cs"
  shows "classify_transaction api repr log transaction template
           = (Inr (filter (\<lambda>ch. ch \<noteq> CHR 0x0A) (choice_text c)), log @ [create_request p]) \<and>
         rq_prompt (create_request p) = p"
proof -
  from interpolate_fields [OF assms(1,2,3)] assms(4)
  have "interpolate repr transaction template = Inr p" by simp
  then have "classify_transaction api repr log transaction template
     = (Inr (filter (\<lambda>ch. ch \<noteq> newline) (choice_text c)), log @ [create_request p])"
    using assms(5,6) by (rule classify_transaction_Inr [where api = api and log = log])
  then show ?thesis
    by (simp add: newline_def create_request_def)
qed

text \<open>
  What \<open>replace\<close> does to occurrences: a string without an occurrence is returned as it
  is, and the leftmost occurrence is replaced and the rest of the string treated alike.
\<close>

lemma replace_absent:
  "old \<noteq> [] \<Longrightarrow> \<forall>i. take (length old) (drop i s) \<noteq> old \<Longrightarrow> replace old new s = s"
proof (induction s)
  case Nil
  then show ?case by (simp add: replace.simps)
next
  case (Cons c cs)
  from Cons.prems(2) [rule_format, of 0] have h: "take (length old) (c # cs) \<noteq> old" by simp
  have "\<forall>i. take (length old) (drop i cs) \<noteq> old"
  proof
    fix i from Cons.prems(2) [rule_format, of "Suc i"]
    show "take (length old) (drop i cs) \<noteq> old" by simp
  qed
  from Cons.IH [OF Cons.prems(1) this] h Cons.prems(1) show ?case
    by (simp add: replace.simps)
qed

lemma replace_first:
  "old \<noteq> [] \<Longrightarrow> \<forall>i<length a. take (length old) (drop i (a @ old @ b)) \<noteq> old \<Longrightarrow>
     replace old new (a @ old @ b) = a @ new @ replace old new b"
proof (induction a)
  case Nil
  then obtain c cs where e: "old @ b = c # cs" by (cases old) auto
  have "take (length old) (old @ b) = old" and "drop (length old) (old @ b) = b" by simp_all
  then have "take (length old) (c # cs) = old" and "drop (length old) (c # cs) = b"
    unfolding e by simp_all
  with Nil.prems(1) have "replace old new (c # cs) = new @ replace old new b"
    by (simp add: replace.simps(2) [of old new c cs])
  then show ?case by (simp add: e)
next
  case (Cons x a)
  from Cons.prems(2) [rule_format, of 0]
  have h: "take (length old) (x # a @ old @ b) \<noteq> old" by simp
  have "\<forall>i<length a. take (length old) (drop i (a @ old @ b)) \<noteq> old"
  proof (intro allI impI)
    fix i assume "i < length a"
    with Cons.prems(2) [rule_format, of "Suc i"]
    show "take (length old) (drop i (a @ old @ b)) \<noteq> old" by simp
  qed
  from Cons.IH [OF Cons.prems(1) this] h Cons.prems(1) show ?case
    by (simp add: replace.simps)
qed

lemma interpolate_ballantyne:
  "replace ''TRANSACTION_VALUE'' ''35098''
     (replace ''DESCRIPTION_TEXT'' ''George IV Bridge Work''
        (replace ''SUPPLIER_NAME'' ''M & J Ballantyne Ltd''
           (''Supplier: SUPPLIER_NAME'' @ [newline] @ ''Description: DESCRIPTION_TEXT''
              @ [newline] @ ''Value: TRANSACTION_VALUE'')))
   = ''Supplier: M & J Ballantyne Ltd'' @ [newline] @ ''Description: George IV Bridge Work''
              @ [newline] @ ''Value: 35098''"
  by (simp add: replace.simps newline_def)

lemma zero_shot_ballantyne:
  "replace ''TRANSACTION_VALUE'' ''35098''
     (replace ''DESCRIPTION_TEXT'' ''George IV Bridge Work''
        (replace ''SUPPLIER_NAME'' ''M & J Ballantyne Ltd'' zero_shot_lines))
   = ballantyne_prompt"
  by (simp add: zero_shot_lines_def ballantyne_prompt_def replace.simps newline_def)

text \<open>
  The first transaction of the dataset and the placeholder lines of the notebook's
  template: the prompt sent holds the three fields, and the answer comes back without its
  leading newline.
\<close>

theorem classify_transaction_result_witness:
  "classify_transaction (limited_service 1) toy_repr [] ballantyne zero_shot_lines
     = (Inr '' Building Improvement'', [create_request ballantyne_prompt])"
proof -
  let ?p = "replace ''TRANSACTION_VALUE'' (str_cell toy_repr (Num 35098))
     (replace ''DESCRIPTION_TEXT'' ''George IV Bridge Work''
        (replace ''SUPPLIER_NAME'' ''M & J Ballantyne Ltd'' zero_shot_lines))"
  let ?c = "\<lparr>choice_text = newline # '' Building Improvement''\<rparr>"
  have s: "ballantyne ''Supplier'' = Some (Str ''M & J Ballantyne Ltd'')"
    and d: "ballantyne ''Description'' = Some (Str ''George IV Bridge Work'')"
    and v: "ballantyne value_column = Some (Num 35098)"
    by (simp_all add: ballantyne_def example_transaction_def value_column_def)
  have a: "limited_service 1 [] (create_request ?p) = Inr \<lparr>choices = [?c]\<rparr>"
    by (simp add: limited_service_def)
  have c: "choices \<lparr>choices = [?c]\<rparr> = ?c # []" by simp
  have p: "?p = ballantyne_prompt"
    by (simp add: zero_shot_ballantyne str_int_def str_nat.simps digit_char_def)
  from classify_transaction_result
    [of ballantyne _ _ _ ?p toy_repr zero_shot_lines "limited_service 1" "[]", OF s d v refl a c]
  show ?thesis
    unfolding p by (simp add: newline_def)
qed

section \<open>Exceptions of the services and of the library\<close>

lemma request_completion_error:
  "api log (create_request p) = Inl e \<Longrightarrow>
     request_completion api log p = (Inl e, log @ [create_request p])"
  by (simp add: request_completion_def)

lemma classify_all_error:
  "classify_all api repr log pre template = (Inr cs, log1) \<Longrightarrow>
   classify_transaction api repr log1 t template = (Inl e, log2) \<Longrightarrow>
   classify_all api repr log (pre @ t # post) template = (Inl e, log2)"
proof (induction pre arbitrary: log cs)
  case Nil
  then show ?case by simp
next
  case (Cons r pre)
  from Cons.prems(1) obtain c cs' log' where
    c: "classify_transaction api repr log r template = (Inr c, log')"
    and r: "classify_all api repr log' pre template = (Inr cs', log1)"
    by (auto split: prod.splits sum.splits)
  from Cons.IH [OF r Cons.prems(2)] c show ?case by simp
qed

lemma zero_shot_classify_error:
  "classify_all api repr log (take 25 (rws df)) template = (Inl e, log2) \<Longrightarrow>
   zero_shot_classify api repr log df template = (Inl e, log2)"
  by (simp add: zero_shot_classify_def)

lemma complete_rows_error:
  "complete_rows api c log pre = (Inr rs, log1) \<Longrightarrow>
   field x c = Inr prompt \<Longrightarrow>
   api log1 (predict_request prompt) = Inl e \<Longrightarrow>
   complete_rows api c log (pre @ x # post) = (Inl e, log1 @ [predict_request prompt])"
proof (induction pre arbitrary: log rs)
  case Nil
  then show ?case by simp
next
  case (Cons y pre)
  from Cons.prems(1) obtain p r rs' where
    p: "field y c = Inr p" and a: "api log (predict_request p) = Inr r"
    and r: "complete_rows api c (log @ [predict_request p]) pre = (Inr rs', log1)"
    by (auto split: prod.splits sum.splits)
  from Cons.IH [OF r Cons.prems(2,3)] p a show ?case by simp
qed

lemma predict_finetuned_error:
  "complete_rows api c log (rws df) = (Inl e, log2) \<Longrightarrow>
   predict_finetuned api c log df = (Inl e, log2)"
  by (simp add: predict_finetuned_def)

lemma predict_holdout_error:
  "holdout_combined (transactions\<lparr>rws := drop 101 (rws transactions)\<rparr>) = Inr holdout_df \<Longrightarrow>
   complete_rows api ''combined'' log (rws holdout_df) = (Inl e, log2) \<Longrightarrow>
   predict_holdout api log transactions = (Inl e, log2)"
  by (simp add: predict_holdout_def predict_finetuned_def)

lemma get_embedding_exhausts:
  assumes "exhausted api engine log s e"
  shows "get_embedding api engine log (Str s)
           = (Inl (RetryError e), log @ replicate 6 (request engine s))"
proof -
  from assms have f: "\<forall>j<5. \<exists>e. api (log @ replicate j (request engine s)) (sent s) engine = Inl e"
    and l: "api (log @ replicate 5 (request engine s)) (sent s) engine = Inl e"
    by (simp_all add: exhausted_def raised_iff)
  obtain r log' where g: "get_embedding api engine log (Str s) = (r, log')"
    by (cases "get_embedding api engine log (Str s)") simp
  show ?thesis
  proof (cases r)
    case (Inl e0)
    with g get_embedding_Inl [of api engine log s e0 log'] l show ?thesis by auto
  next
    case (Inr v)
    with g get_embedding_Inr [of api engine log "Str s" v log'] obtain k where "k < 6"
      and k: "api (log @ replicate k (request engine s)) (sent s) engine = Inr v"
      by auto
    then have "k < 5 \<or> k = 5" by auto
    with f l k show ?thesis by auto
  qed
qed

lemma get_embedding_recovers:
  assumes k: "k < 6" and a: "answered api engine log s k v"
  shows "get_embedding api engine log (Str s)
           = (Inr v, log @ replicate (Suc k) (request engine s))"
proof -
  from a have f: "\<forall>j<k. \<exists>e. api (log @ replicate j (request engine s)) (sent s) engine = Inl e"
    and l: "api (log @ replicate k (request engine s)) (sent s) engine = Inr v"
    by (simp_all add: answered_def raised_iff)
  obtain r log' where g: "get_embedding api engine log (Str s) = (r, log')"
    by (cases "get_embedding api engine log (Str s)") simp
  show ?thesis
  proof (cases r)
    case (Inl e0)
    with g get_embedding_Inl [of api engine log s e0 log']
    have "\<forall>j<6. \<exists>e. api (log @ replicate j (request engine s)) (sent s) engine = Inl e"
      by simp
    with k l show ?thesis by auto
  next
    case (Inr v')
    with g get_embedding_Inr [of api engine log "Str s" v' log'] obtain k' where
      l': "log' = log @ replicate (Suc k') (request engine s)"
      and f': "\<forall>j<k'. \<exists>e. api (log @ replicate j (request engine s)) (sent s) engine = Inl e"
      and a': "api (log @ replicate k' (request engine s)) (sent s) engine = Inr v'"
      by auto
    have "k' = k"
    proof (rule ccontr)
      assume "k' \<noteq> k"
      then have "k' < k \<or> k < k'" by auto
      with f f' l a' show False by auto
    qed
    with a' l have "v' = v" by simp
    with g Inr l' \<open>k' = k\<close> show ?thesis by simp
  qed
qed

lemma get_embeddings_error:
  "''combined'' \<in> set (cols df) \<Longrightarrow>
   embed_all api embedding_model (calls w) (combined_of df) = (Inl e, log2) \<Longrightarrow>
   get_embeddings api repr df w = (Inl e, w\<lparr>calls := log2\<rparr>)"
  by (simp add: get_embeddings_def getattr_def combined_of_def)

lemma get_embedding_RetryError:
  assumes "get_embedding api engine log c = (Inl e, log')"
  shows "\<exists>e'. e = RetryError e'"
proof (cases "\<exists>s. c = Str s")
  case True
  with assms get_embedding_Inl show ?thesis by blast
next
  case False
  with get_embedding_no_string [of c api engine log] assms show ?thesis by simp
qed

lemma embed_all_RetryError:
  assumes "embed_all api engine log cs = (Inl e, log')"
  shows "\<exists>e'. e = RetryError e'"
proof -
  from embed_all_Inl [OF assms] obtain n log1 where
    "get_embedding api engine log1 (cs ! n) = (Inl e, log')" by blast
  then show ?thesis by (rule get_embedding_RetryError)
qed

lemma get_embeddings_raises:
  assumes "get_embeddings api repr df w = (Inl e, w')"
  shows "files w' = files w \<and> (e = AttributeError \<and> w' = w \<or> (\<exists>e'. e = RetryError e'))"
proof (cases "getattr ''combined'' df")
  case (Inl e0)
  with assms show ?thesis by (auto simp: get_embeddings_def getattr_def split: if_splits)
next
  case (Inr cells)
  with assms obtain log2 where
    e: "embed_all api embedding_model (calls w) cells = (Inl e, log2)" and w: "w' = w\<lparr>calls := log2\<rparr>"
    by (auto simp: get_embeddings_def Let_def split: sum.splits prod.splits)
  from embed_all_RetryError [OF e] w show ?thesis by simp
qed

lemma embed_transactions_error:
  "''combined'' \<in> set (cols df) \<Longrightarrow>
   embed_all api ''text-similarity-babbage-001'' (calls w) (combined_of df) = (Inl e, log1) \<Longrightarrow>
   embed_transactions api repr df w = (Inl e, w\<lparr>calls := log1\<rparr>)"
  "''combined'' \<in> set (cols df) \<Longrightarrow>
   embed_all api ''text-similarity-babbage-001'' (calls w) (combined_of df) = (Inr vs, log1) \<Longrightarrow>
   embed_all api ''text-search-babbage-doc-001'' log1
       (combined_of (assign ''babbage_similarity'' (map Vec vs) df)) = (Inl e, log2) \<Longrightarrow>
   embed_transactions api repr df w = (Inl e, w\<lparr>calls := log2\<rparr>)"
  by (simp_all add: embed_transactions_def getattr_def combined_of_def assign_def
      with_column_def Let_def)

lemma classifier_errors:
  "train_test_split lib X y = Inl e \<Longrightarrow> classify_with_embeddings lib X y = Inl e"
  "train_test_split lib X y = Inr (X_train, X_test, y_train, y_test) \<Longrightarrow>
     fit lib X_train y_train = Inl e \<Longrightarrow> classify_with_embeddings lib X y = Inl e"
  "train_test_split lib X y = Inr (X_train, X_test, y_train, y_test) \<Longrightarrow>
     fit lib X_train y_train = Inr clf \<Longrightarrow> predict lib clf X_test = Inl e \<Longrightarrow>
     classify_with_embeddings lib X y = Inl e"
  "train_test_split lib X y = Inr (X_train, X_test, y_train, y_test) \<Longrightarrow>
     fit lib X_train y_train = Inr clf \<Longrightarrow> predict lib clf X_test = Inr preds \<Longrightarrow>
     predict_proba lib clf X_test = Inl e \<Longrightarrow> classify_with_embeddings lib X y = Inl e"
  "train_test_split lib X y = Inr (X_train, X_test, y_train, y_test) \<Longrightarrow>
     fit lib X_train y_train = Inr clf \<Longrightarrow> predict lib clf X_test = Inr preds \<Longrightarrow>
     predict_proba lib clf X_test = Inr probas \<Longrightarrow>
     classification_report lib y_test preds = Inl e \<Longrightarrow> classify_with_embeddings lib X y = Inl e"
  by (simp_all add: classify_with_embeddings_def)

text \<open>
  C7, as amended. An exception raised by a completion service (the zero-shot requests and
  the requests to the fine-tuned model) or by a routine of the classification library
  (the split, the fit, the two predictions, the report, the plot) is the exception the
  notebook's operation raises, unchanged, and the operation ends there: \<open>request_completion\<close>
  and \<open>classify_transaction\<close> make the one request and raise what it raised; the
  classification of a table and the predictions of the fine-tuned model end at the first
  row whose request raises, with the rows after it not requested and the failed request in
  the log once. The embedding service is different, because the library's \<open>get_embedding\<close>
  retries: a request that raises is sent again, up to six times in all; when one of the
  six is answered the exception is absorbed and the run goes on; when all six raise, the
  operation raises \<open>RetryError\<close> holding the last exception, after six requests. The
  embedding steps of both notebooks end at the first row whose six requests all raise and
  write no file; whatever such a step raises is never the service's exception itself. The
  two shell cells raise nothing, whatever their commands do.
\<close>

theorem errors_propagate_or_are_retried:
  "(api log (create_request p) = Inl e \<longrightarrow>
      request_completion api log p = (Inl e, log @ [create_request p])) \<and>
   (interpolate repr t template = Inr p \<and> api log (create_request p) = Inl e \<longrightarrow>
      classify_transaction api repr log t template = (Inl e, log @ [create_request p])) \<and>
   (classify_all api repr log pre template = (Inr cs, log1) \<and>
    classify_transaction api repr log1 t template = (Inl e, log2) \<longrightarrow>
      classify_all api repr log (pre @ t # post) template = (Inl e, log2)) \<and>
   (classify_all api repr log (take 25 (rws df)) template = (Inl e, log2) \<longrightarrow>
      zero_shot_classify api repr log df template = (Inl e, log2)) \<and>
   (complete_rows ft c flog fpre = (Inr rs, flog1) \<and> field x c = Inr prompt \<and>
    ft flog1 (predict_request prompt) = Inl e \<longrightarrow>
      complete_rows ft c flog (fpre @ x # fpost) = (Inl e, flog1 @ [predict_request prompt])) \<and>
   (complete_rows ft ''prompt'' flog (rws test_set) = (Inl e, flog2) \<longrightarrow>
      predict_test_set ft flog test_set = (Inl e, flog2)) \<and>
   (holdout_combined (transactions\<lparr>rws := drop 101 (rws transactions)\<rparr>) = Inr holdout_df \<and>
    complete_rows ft ''combined'' flog (rws holdout_df) = (Inl e, flog2) \<longrightarrow>
      predict_holdout ft flog transactions = (Inl e, flog2)) \<and>
   (train_test_split lib X y = Inl e \<longrightarrow> classify_with_embeddings lib X y = Inl e) \<and>
   (train_test_split lib X y = Inr (X_train, X_test, y_train, y_test) \<and>
    fit lib X_train y_train = Inl e \<longrightarrow> classify_with_embeddings lib X y = Inl e) \<and>
   (train_test_split lib X y = Inr (X_train, X_test, y_train, y_test) \<and>
    fit lib X_train y_train = Inr clf \<and> predict lib clf X_test = Inl e \<longrightarrow>
      classify_with_embeddings lib X y = Inl e) \<and>
   (train_test_split lib X y = Inr (X_train, X_test, y_train, y_test) \<and>
    fit lib X_train y_train = Inr clf \<and> predict lib clf X_test = Inr preds \<and>
    predict_proba lib clf X_test = Inl e \<longrightarrow> classify_with_embeddings lib X y = Inl e) \<and>
   (train_test_split lib X y = Inr (X_train, X_test, y_train, y_test) \<and>
    fit lib X_train y_train = Inr clf \<and> predict lib clf X_test = Inr preds \<and>
    predict_proba lib clf X_test = Inr probas \<and> classification_report lib y_test preds = Inl e \<longrightarrow>
      classify_with_embeddings lib X y = Inl e) \<and>
   (plot probas y_test [1, 2, 3, 4, 5] clf = Inl e \<longrightarrow>
      plot_precision_recall plot probas y_test clf = Inl e) \<and>
   (exhausted emb engine elog s e \<longrightarrow>
      get_embedding emb engine elog (Str s)
        = (Inl (RetryError e), elog @ replicate 6 (request engine s))) \<and>
   (k < 6 \<and> answered emb engine elog s k v \<longrightarrow>
      get_embedding emb engine elog (Str s)
        = (Inr v, elog @ replicate (Suc k) (request engine s))) \<and>
   (embed_all emb engine elog epre = (Inr vs, elog1) \<and>
    get_embedding emb engine elog1 cell = (Inl e, elog2) \<longrightarrow>
      embed_all emb engine elog (epre @ cell # epost) = (Inl e, elog2)) \<and>
   (''combined'' \<in> set (cols edf) \<and>
    embed_all emb embedding_model (calls w) (combined_of edf) = (Inl e, elog2) \<longrightarrow>
      get_embeddings emb erepr edf w = (Inl e, w\<lparr>calls := elog2\<rparr>)) \<and>
   (''combined'' \<in> set (cols edf) \<and>
    embed_all emb ''text-similarity-babbage-001'' (calls w) (combined_of edf) = (Inl e, elog2) \<longrightarrow>
      embed_transactions emb erepr edf w = (Inl e, w\<lparr>calls := elog2\<rparr>)) \<and>
   (''combined'' \<in> set (cols edf) \<and>
    embed_all emb ''text-similarity-babbage-001'' (calls w) (combined_of edf) = (Inr vs, elog1) \<and>
    embed_all emb ''text-search-babbage-doc-001'' elog1
        (combined_of (assign ''babbage_similarity'' (map Vec vs) edf)) = (Inl e, elog2) \<longrightarrow>
      embed_transactions emb erepr edf w = (Inl e, w\<lparr>calls := elog2\<rparr>)) \<and>
   (get_embeddings emb erepr edf w = (Inl e, w') \<longrightarrow>
      files w' = files w \<and> (e = AttributeError \<and> w' = w \<or> (\<exists>e'. e = RetryError e'))) \<and>
   prepare_data sh \<noteq> Inl e \<and> create_fine_tune sh \<noteq> Inl e"
proof -
  have a: "get_embeddings emb erepr edf w = (Inl e, w') \<longrightarrow>
      files w' = files w \<and> (e = AttributeError \<and> w' = w \<or> (\<exists>e'. e = RetryError e'))"
    by (rule impI) (rule get_embeddings_raises)
  have b: "prepare_data sh \<noteq> Inl e" "create_fine_tune sh \<noteq> Inl e"
    by (simp_all add: prepare_data_def create_fine_tune_def bang_def)
  have c: "plot probas y_test [1, 2, 3, 4, 5] clf = Inl e \<longrightarrow>
      plot_precision_recall plot probas y_test clf = Inl e"
    by (simp add: plot_precision_recall_def)
  show ?thesis
    by (intro conjI a b c; intro impI; (elim conjE)?;
        (rule request_completion_error classify_transaction_Inl classify_all_error
           zero_shot_classify_error complete_rows_error predict_holdout_error
           classifier_errors get_embedding_exhausts get_embedding_recovers embed_all_stops
           get_embeddings_error embed_transactions_error;
         assumption)?;
        (simp add: predict_test_set_def predict_finetuned_def)?)
qed

lemma holdout_example:
  "holdout_combined (many_transactions\<lparr>rws := drop 101 (rws many_transactions)\<rparr>)
     = Inr \<lparr>cols = [''Supplier'', ''Description'', value_column, ''combined''],
            rws = [(example_transaction ''B '' ''b'' 2)(''combined'' \<mapsto>
                      Str (''Supplier: B; Description: b'' @ [newline, newline] @ ''###''
                           @ [newline, newline])),
                   (example_transaction ''C'' '' c'' 3)(''combined'' \<mapsto>
                      Str (''Supplier: C; Description: c'' @ [newline, newline] @ ''###''
                           @ [newline, newline]))]\<rparr>"
  by (simp add: holdout_combined_def many_transactions_def getitem_def ebind_def str_strip_def
      str_radd_def str_add_def series_add_def assign_def with_column_def cell_at_def
      example_transaction_def value_column_def strip_eval)

lemma limited_embedder_exhausted:
  "n \<le> length log \<Longrightarrow>
     exhausted (limited_embedder n) engine log s (ServiceError ''Rate limit reached'')"
  by (simp add: exhausted_def raised_iff limited_embedder_def)

text \<open>
  A completion service that raises at once; the classification of three transactions by
  a service that answers two requests; the predictions of the fine-tuned model for three
  prompts, and for the two holdout transactions, by services that answer two requests and
  one; the classification cell with each routine of the library failing in turn, and the
  plot; one text embedded by a service that always raises and by one that raises on every
  other request; the embedding steps of both notebooks with services that stop answering;
  and the shell cells with a shell whose commands fail.
\<close>

theorem errors_propagate_or_are_retried_witness:
  "request_completion (limited_service 0) [] ''p''
     = (Inl (ServiceError ''Rate limit reached''), [create_request ''p'']) \<and>
   zero_shot_classify (limited_service 2) toy_repr [] transactions_table ''SUPPLIER_NAME''
     = (Inl (ServiceError ''Rate limit reached''),
        [create_request ''A'', create_request ''B'', create_request ''C'']) \<and>
   predict_test_set (limited_finetuned 2) [] three_prompts
     = (Inl (ServiceError ''Rate limit reached''),
        [predict_request (Str ''a''), predict_request (Str ''b''), predict_request (Str ''c'')]) \<and>
   predict_holdout (limited_finetuned 1) [] many_transactions
     = (Inl (ServiceError ''Rate limit reached''),
        [predict_request (Str (''Supplier: B; Description: b'' @ [newline, newline] @ ''###''
                               @ [newline, newline])),
         predict_request (Str (''Supplier: C; Description: c'' @ [newline, newline] @ ''###''
                               @ [newline, newline]))]) \<and>
   classify_with_embeddings (failing_lib 0) [[1], [2]] [5, 4] = Inl (LibraryError ''split'') \<and>
   classify_with_embeddings (failing_lib 1) [[1], [2]] [5, 4] = Inl (LibraryError ''fit'') \<and>
   classify_with_embeddings (failing_lib 2) [[1], [2]] [5, 4] = Inl (LibraryError ''predict'') \<and>
   classify_with_embeddings (failing_lib 3) [[1], [2]] [5, 4]
     = Inl (LibraryError ''predict_proba'') \<and>
   classify_with_embeddings (failing_lib 4) [[1], [2]] [5, 4]
     = Inl (LibraryError ''classification_report'') \<and>
   plot_precision_recall failing_plot () [5] () = Inl (LibraryError ''plot'') \<and>
   get_embedding down_service embedding_model [] (Str ''first'')
     = (Inl (RetryError (ServiceError ''Service unavailable'')),
        replicate 6 (''first'', embedding_model)) \<and>
   get_embedding flaky_service embedding_model [] (Str ''first'')
     = (Inr [1], [(''first'', embedding_model), (''first'', embedding_model)]) \<and>
   get_embeddings (limited_embedder 1) toy_repr two_loaded empty_world
     = (Inl (RetryError (ServiceError ''Rate limit reached'')),
        empty_world\<lparr>calls := (''first'', embedding_model)
                               # replicate 6 (''second'', embedding_model)\<rparr>) \<and>
   files (snd (get_embeddings (limited_embedder 1) toy_repr two_loaded empty_world))
     = files empty_world \<and>
   embed_transactions (limited_embedder 1) toy_repr two_loaded empty_world
     = (Inl (RetryError (ServiceError ''Rate limit reached'')),
        empty_world\<lparr>calls := (''first'', ''text-similarity-babbage-001'')
                               # replicate 6 (''second'', ''text-similarity-babbage-001'')\<rparr>) \<and>
   embed_transactions (limited_embedder 2) toy_repr two_loaded empty_world
     = (Inl (RetryError (ServiceError ''Rate limit reached'')),
        empty_world\<lparr>calls := [(''first'', ''text-similarity-babbage-001''),
                                (''second'', ''text-similarity-babbage-001'')]
                               @ replicate 6 (''first'', ''text-search-babbage-doc-001'')\<rparr>) \<and>
   prepare_data failing_shell = Inr [''Error: rate limit reached''] \<and>
   prepare_data failing_shell \<noteq> Inl KeyError \<and>
   create_fine_tune failing_shell \<noteq> Inl KeyError"
proof -
  note t = errors_propagate_or_are_retried
  note c1 = t [THEN conjunct1, rule_format]
  note t2 = t [THEN conjunct2]
  note c2 = t2 [THEN conjunct1, rule_format]
  note t3 = t2 [THEN conjunct2]
  note c3 = t3 [THEN conjunct1, rule_format]
  note t4 = t3 [THEN conjunct2]
  note c4 = t4 [THEN conjunct1, rule_format]
  note t5 = t4 [THEN conjunct2]
  note c5 = t5 [THEN conjunct1, rule_format]
  note t6 = t5 [THEN conjunct2]
  note c6 = t6 [THEN conjunct1, rule_format]
  note t7 = t6 [THEN conjunct2]
  note c7 = t7 [THEN conjunct1, rule_format]
  note t8 = t7 [THEN conjunct2]
  note c8 = t8 [THEN conjunct1, rule_format]
  note t9 = t8 [THEN conjunct2]
  note c9 = t9 [THEN conjunct1, rule_format]
  note t10 = t9 [THEN conjunct2]
  note c10 = t10 [THEN conjunct1, rule_format]
  note t11 = t10 [THEN conjunct2]
  note c11 = t11 [THEN conjunct1, rule_format]
  note t12 = t11 [THEN conjunct2]
  note c12 = t12 [THEN conjunct1, rule_format]
  note t13 = t12 [THEN conjunct2]
  note c13 = t13 [THEN conjunct1, rule_format]
  note t14 = t13 [THEN conjunct2]
  note c14 = t14 [THEN conjunct1, rule_format]
  note t15 = t14 [THEN conjunct2]
  note c15 = t15 [THEN conjunct1, rule_format]
  note t16 = t15 [THEN conjunct2]
  note c16 = t16 [THEN conjunct1, rule_format]
  note t17 = t16 [THEN conjunct2]
  note c17 = t17 [THEN conjunct1, rule_format]
  note t18 = t17 [THEN conjunct2]
  note c18 = t18 [THEN conjunct1, rule_format]
  note t19 = t18 [THEN conjunct2]
  note c19 = t19 [THEN conjunct1, rule_format]
  note t20 = t19 [THEN conjunct2]
  note c20 = t20 [THEN conjunct1, rule_format]
  note t21 = t20 [THEN conjunct2]
  note c21 = t21 [THEN conjunct1]
  note c22 = t21 [THEN conjunct2]
  let ?e = "ServiceError ''Rate limit reached''"
  let ?ab = "[create_request ''A'', create_request ''B'']"
  let ?tc = "example_transaction ''C'' ''c'' 3"
  let ?X = "[[1], [2]] :: int list list" and ?y = "[5, 4] :: int list"
  let ?sim = "''text-similarity-babbage-001''" and ?search = "''text-search-babbage-doc-001''"
  have r1: "request_completion (limited_service 0) [] ''p'' = (Inl ?e, [] @ [create_request ''p''])"
    by (rule c1) (simp add: limited_service_def)
  have i: "interpolate toy_repr (example_transaction ''A'' ''a'' 1) ''SUPPLIER_NAME'' = Inr ''A''"
    "interpolate toy_repr (example_transaction ''B'' ''b'' 2) ''SUPPLIER_NAME'' = Inr ''B''"
    "interpolate toy_repr (example_transaction ''C'' ''c'' 3) ''SUPPLIER_NAME'' = Inr ''C''"
    by (simp_all add: interpolate_def field_def example_transaction_def value_column_def
        replace.simps)
  have pre: "classify_all (limited_service 2) toy_repr []
               [example_transaction ''A'' ''a'' 1, example_transaction ''B'' ''b'' 2] ''SUPPLIER_NAME''
             = (Inr ['' Building Improvement'', '' Building Improvement''], ?ab)"
    by (simp add: classify_transaction_def i request_completion_def limited_service_def
        replace.simps newline_def)
  have tr: "classify_transaction (limited_service 2) toy_repr ?ab ?tc ''SUPPLIER_NAME''
             = (Inl ?e, ?ab @ [create_request ''C''])"
    by (rule c2 [where p = "''C''"]) (simp add: i limited_service_def)
  have a: "classify_all (limited_service 2) toy_repr []
             ([example_transaction ''A'' ''a'' 1, example_transaction ''B'' ''b'' 2] @ ?tc # [])
             ''SUPPLIER_NAME''
           = (Inl ?e, ?ab @ [create_request ''C''])"
    by (rule c3) (rule conjI [OF pre tr])
  have r2: "zero_shot_classify (limited_service 2) toy_repr [] transactions_table ''SUPPLIER_NAME''
              = (Inl ?e, ?ab @ [create_request ''C''])"
    by (rule c4) (use a in \<open>simp add: transactions_table_def three_transactions_def\<close>)
  let ?pa = "map_of [(''prompt'', Str ''a'')] :: int list row"
    and ?pb = "map_of [(''prompt'', Str ''b'')] :: int list row"
    and ?pc = "map_of [(''prompt'', Str ''c'')] :: int list row"
  let ?fab = "[predict_request (Str ''a''), predict_request (Str ''b'')] :: int list finetuned_request list"
  have f1: "complete_rows (limited_finetuned 2) ''prompt'' [] [?pa, ?pb]
              = (Inr [\<lparr>choices = [\<lparr>choice_text = '' 1''\<rparr>]\<rparr>, \<lparr>choices = [\<lparr>choice_text = '' 1''\<rparr>]\<rparr>],
                 ?fab)"
    by (simp add: field_def limited_finetuned_def)
  have f2: "complete_rows (limited_finetuned 2) ''prompt'' [] ([?pa, ?pb] @ ?pc # [])
              = (Inl ?e, ?fab @ [predict_request (Str ''c'')])"
    by (rule c5) (simp add: f1 field_def limited_finetuned_def)
  have r3: "predict_test_set (limited_finetuned 2) [] three_prompts
              = (Inl ?e, ?fab @ [predict_request (Str ''c'')])"
    by (rule c6) (use f2 in \<open>simp add: three_prompts_def\<close>)
  let ?hb = "Str (''Supplier: B; Description: b'' @ [newline, newline] @ ''###''
                  @ [newline, newline]) :: int list cell"
    and ?hc = "Str (''Supplier: C; Description: c'' @ [newline, newline] @ ''###''
                  @ [newline, newline]) :: int list cell"
  have r4: "predict_holdout (limited_finetuned 1) [] many_transactions
              = (Inl ?e, [predict_request ?hb, predict_request ?hc])"
    by (rule c7 [OF conjI, OF holdout_example]) (simp add: field_def limited_finetuned_def)
  have s0: "classify_with_embeddings (failing_lib 0) ?X ?y = Inl (LibraryError ''split'')"
    by (rule c8) (simp add: failing_lib_def)
  have s1: "classify_with_embeddings (failing_lib 1) ?X ?y = Inl (LibraryError ''fit'')"
    by (rule c9 [where X_train = "[[2]]" and X_test = "[[1]]" and y_train = "[4]" and y_test = "[5]"])
       (simp add: failing_lib_def)
  have s2: "classify_with_embeddings (failing_lib 2) ?X ?y = Inl (LibraryError ''predict'')"
    by (rule c10 [where X_train = "[[2]]" and X_test = "[[1]]" and y_train = "[4]" and y_test = "[5]"
          and clf = "()"])
       (simp add: failing_lib_def)
  have s3: "classify_with_embeddings (failing_lib 3) ?X ?y = Inl (LibraryError ''predict_proba'')"
    by (rule c11 [where X_train = "[[2]]" and X_test = "[[1]]" and y_train = "[4]" and y_test = "[5]"
          and clf = "()" and preds = "[5]"])
       (simp add: failing_lib_def)
  have s4: "classify_with_embeddings (failing_lib 4) ?X ?y
              = Inl (LibraryError ''classification_report'')"
    by (rule c12 [where X_train = "[[2]]" and X_test = "[[1]]" and y_train = "[4]" and y_test = "[5]"
          and clf = "()" and preds = "[5]" and probas = "()"])
       (simp add: failing_lib_def)
  have p: "plot_precision_recall failing_plot () [5] () = Inl (LibraryError ''plot'')"
    by (rule c13) (simp add: failing_plot_def)
  have g1: "get_embedding down_service embedding_model [] (Str ''first'')
              = (Inl (RetryError (ServiceError ''Service unavailable'')),
                 [] @ replicate 6 (request embedding_model ''first''))"
    by (rule c14) (simp add: exhausted_def raised_iff down_service_def)
  have g2: "get_embedding flaky_service embedding_model [] (Str ''first'')
              = (Inr [1], [] @ replicate (Suc 1) (request embedding_model ''first''))"
    by (rule c15) (simp add: answered_def raised_iff flaky_service_def)
  have e1: "embed_all (limited_embedder 1) engine [] [Str ''first'']
              = (Inr [[5]], [(''first'', engine)])" for engine
    using get_embedding_first [of "limited_embedder 1" "[]" "''first''" engine "[5]"]
    by (simp add: limited_embedder_def request_def sent_examples)
  have e2: "get_embedding (limited_embedder 1) engine [(''first'', engine)] (Str ''second'')
              = (Inl (RetryError ?e), [(''first'', engine)] @ replicate 6 (request engine ''second''))"
    for engine
    by (rule c14) (rule limited_embedder_exhausted, simp)
  have e3: "embed_all (limited_embedder 1) engine [] ([Str ''first''] @ Str ''second'' # [])
              = (Inl (RetryError ?e), [(''first'', engine)] @ replicate 6 (request engine ''second''))"
    for engine
    by (rule c16) (rule conjI [OF e1 e2])
  have cs: "combined_of two_loaded = [Str ''first''] @ Str ''second'' # []"
    by (simp add: combined_of_def two_loaded_def cell_at_def)
  have m: "''combined'' \<in> set (cols two_loaded)" by (simp add: two_loaded_def)
  have ew: "calls empty_world = []" by (simp add: empty_world_def)
  have r5: "get_embeddings (limited_embedder 1) toy_repr two_loaded empty_world
              = (Inl (RetryError ?e),
                 empty_world\<lparr>calls := [(''first'', embedding_model)]
                                        @ replicate 6 (request embedding_model ''second'')\<rparr>)"
    by (rule c17 [OF conjI, OF m]) (simp only: ew cs e3)
  have r6: "files (snd (get_embeddings (limited_embedder 1) toy_repr two_loaded empty_world))
       = files empty_world"
    unfolding r5 snd_conv by (rule c20 [OF r5, THEN conjunct1])
  have r7: "embed_transactions (limited_embedder 1) toy_repr two_loaded empty_world
              = (Inl (RetryError ?e),
                 empty_world\<lparr>calls := [(''first'', ?sim)] @ replicate 6 (request ?sim ''second'')\<rparr>)"
    by (rule c18 [OF conjI, OF m]) (simp only: ew cs e3)
  have h1: "get_embedding (limited_embedder 2) ?sim [] (Str ''first'')
              = (Inr [5], [] @ [request ?sim ''first''])"
    by (rule get_embedding_first) (simp add: limited_embedder_def sent_examples)
  have h2: "get_embedding (limited_embedder 2) ?sim [request ?sim ''first''] (Str ''second'')
              = (Inr [6], [request ?sim ''first''] @ [request ?sim ''second''])"
    by (rule get_embedding_first) (simp add: limited_embedder_def sent_examples)
  have h3: "embed_all (limited_embedder 2) ?sim [] (combined_of two_loaded)
              = (Inr [[5], [6]], [request ?sim ''first'', request ?sim ''second''])"
    using h1 h2 by (simp add: cs)
  have h4: "get_embedding (limited_embedder 2) ?search
                [request ?sim ''first'', request ?sim ''second''] (Str ''first'')
              = (Inl (RetryError ?e),
                 [request ?sim ''first'', request ?sim ''second'']
                 @ replicate 6 (request ?search ''first''))"
    by (rule c14) (rule limited_embedder_exhausted, simp)
  have h5: "combined_of (assign ''babbage_similarity'' (map Vec [[5], [6]]) two_loaded)
              = [Str ''first'', Str ''second'']"
    by (simp add: combined_of_def assign_def two_loaded_def cell_at_def)
  have h6: "embed_all (limited_embedder 2) ?search
                [request ?sim ''first'', request ?sim ''second'']
                (combined_of (assign ''babbage_similarity'' (map Vec [[5], [6]]) two_loaded))
              = (Inl (RetryError ?e),
                 [request ?sim ''first'', request ?sim ''second'']
                 @ replicate 6 (request ?search ''first''))"
    unfolding h5 using h4 by simp
  have r8: "embed_transactions (limited_embedder 2) toy_repr two_loaded empty_world
              = (Inl (RetryError ?e),
                 empty_world\<lparr>calls := [request ?sim ''first'', request ?sim ''second'']
                                        @ replicate 6 (request ?search ''first'')\<rparr>)"
    by (rule c19 [where vs = "[[5], [6]]"
          and ?elog1.0 = "[request ?sim ''first'', request ?sim ''second'']"])
       (simp only: m ew h3 h6 simp_thms)
  have sh: "prepare_data failing_shell = Inr [''Error: rate limit reached'']"
    by (simp add: prepare_data_def bang_def failing_shell_def)
  from r1 r2 r3 r4 s0 s1 s2 s3 s4 p g1 g2 r5 r6 r7 r8 sh
    c21 [of failing_shell KeyError] c22 [of failing_shell KeyError]
  show ?thesis by (simp add: request_def sent_examples)
qed

text \<open>
  C7 as stated fails for the embedding service. With a service that raises on every other
  request, the first request of the run raises; the exception is caught by the retrying
  \<open>get_embedding\<close>, the request is sent again, and the run ends without an exception and
  saves its file. With a service that raises on every request, the run sends the request
  six times and then raises \<open>RetryError\<close>, not the exception of the service. And a shell
  cell whose command fails raises nothing.
\<close>

theorem embedding_errors_are_retried:
  "flaky_service (calls empty_world) ''Title: A; Content: a b'' embedding_model
     = Inl (ServiceError ''Rate limit reached'') \<and>
   \<not> isl (fst flaky_run) \<and>
   calls (snd flaky_run)
     = [(''Title: A; Content: a b'', embedding_model),
        (''Title: A; Content: a b'', embedding_model),
        (''Title: B; Content: c'', embedding_model),
        (''Title: B; Content: c'', embedding_model)] \<and>
   files (snd flaky_run) output_datapath
     = Some ([''combined'', ''embedding''],
             [[''Title: A; Content: a'' @ [newline] @ ''b'', ''[1]''],
              [''Title: B; Content: c'', ''[3]'']]) \<and>
   down_service (calls empty_world) ''Title: Good; Content: tasty'' embedding_model
     = Inl (ServiceError ''Service unavailable'') \<and>
   get_embeddings down_service toy_repr one_review empty_world
     = (Inl (RetryError (ServiceError ''Service unavailable'')),
        empty_world\<lparr>calls := replicate 6 (''Title: Good; Content: tasty'', embedding_model)\<rparr>) \<and>
   fst (failing_shell ''openai tools fine_tunes.prepare_data -f transactions_grouped.jsonl -q'')
     = 1 \<and>
   prepare_data failing_shell = Inr [''Error: rate limit reached'']"
proof -
  have d: "get_embedding down_service embedding_model [] (Str ''Title: Good; Content: tasty'')
             = (Inl (RetryError (ServiceError ''Service unavailable'')),
                [] @ replicate 6 (request embedding_model ''Title: Good; Content: tasty''))"
    by (rule get_embedding_down) (simp add: down_service_def)
  have g: "get_embeddings down_service toy_repr one_review empty_world
     = (Inl (RetryError (ServiceError ''Service unavailable'')),
        empty_world\<lparr>calls := replicate 6 (''Title: Good; Content: tasty'', embedding_model)\<rparr>)"
    using d
    by (simp add: get_embeddings_def getattr_def one_review_def cell_at_def empty_world_def
        request_def sent_examples)
  show ?thesis
    unfolding flaky_run_eval g
    by (simp add: flaky_service_def down_service_def empty_world_def failing_shell_def
        prepare_data_def bang_def)
qed

end
